(* ===== verification/Prelude.thy ===== *)
theory Prelude
  imports Main "HOL-Library.AList" "HOL-Library.Sublist" "HOL-Library.Char_ord"
    "HOL-Library.List_Lexorder"
begin

text \<open>
  What every component shares: the collections of proof rules, Go's error returns as a sum type
  with its early-return loop, Go maps as association lists, the functions of \<open>strings\<close>
  and \<open>strconv\<close> that the program calls, and 64-bit signed arithmetic.

  A Go map is an association list with distinct keys. Its order stands for the order in which one
  \<open>range\<close> loop visits the map, which Go leaves open; a theorem about every association list
  is therefore a theorem about every iteration order.
\<close>

section \<open>Rule collections\<close>

named_theorems gomap_simps "lookups in maps after updates and deletions"
named_theorems result_simps "early returns"
named_theorems inv_intros "operations that keep the invariant of their component"

section \<open>Errors as values and loops with early return\<close>

type_synonym ('e, 'a) result = "'e + 'a"

abbreviation Err :: "'e \<Rightarrow> ('e, 'a) result" where
  "Err \<equiv> Inl"

abbreviation Ok :: "'a \<Rightarrow> ('e, 'a) result" where
  "Ok \<equiv> Inr"

definition rbind :: "('e, 'a) result \<Rightarrow> ('a \<Rightarrow> ('e, 'b) result) \<Rightarrow> ('e, 'b) result" where
  "rbind m f = (case m of Inl e \<Rightarrow> Inl e | Inr x \<Rightarrow> f x)"

text \<open>\<open>for _, x := range xs { s, err = f(s, x); if err != nil { return err } }\<close>\<close>

fun rfold :: "('s \<Rightarrow> 'x \<Rightarrow> ('e, 's) result) \<Rightarrow> 's \<Rightarrow> 'x list \<Rightarrow> ('e, 's) result" where
  "rfold f s [] = Inr s"
| "rfold f s (x # xs) = (case f s x of Inl e \<Rightarrow> Inl e | Inr s' \<Rightarrow> rfold f s' xs)"

text \<open>\<open>for _, x := range xs { y, err := f(x); if err != nil { return err }; out = append(out, y) }\<close>\<close>

fun rmap :: "('x \<Rightarrow> ('e, 'y) result) \<Rightarrow> 'x list \<Rightarrow> ('e, 'y list) result" where
  "rmap f [] = Inr []"
| "rmap f (x # xs) =
     (case f x of Inl e \<Rightarrow> Inl e
      | Inr y \<Rightarrow> (case rmap f xs of Inl e \<Rightarrow> Inl e | Inr ys \<Rightarrow> Inr (y # ys)))"

text \<open>\<open>fmt.Errorf("...: %w", err)\<close>: wrap the error, keep the value.\<close>

definition wrap_err :: "('e \<Rightarrow> 'f) \<Rightarrow> ('e, 'a) result \<Rightarrow> ('f, 'a) result" where
  "wrap_err w r = (case r of Inl e \<Rightarrow> Inl (w e) | Inr x \<Rightarrow> Inr x)"

definition ok :: "('e, 'a) result \<Rightarrow> bool" where
  "ok r = (case r of Inl _ \<Rightarrow> False | Inr _ \<Rightarrow> True)"

lemma rbind_simps [simp, result_simps]:
  "rbind (Inl e) f = Inl e"
  "rbind (Inr x) f = f x"
  by (simp_all add: rbind_def)

lemma rbind_Inr [result_simps]: "rbind m f = Inr y \<longleftrightarrow> (\<exists>x. m = Inr x \<and> f x = Inr y)"
  by (cases m) auto

lemma rbind_Inl [result_simps]:
  "rbind m f = Inl e \<longleftrightarrow> m = Inl e \<or> (\<exists>x. m = Inr x \<and> f x = Inl e)"
  by (cases m) auto

lemma wrap_err_simps [simp, result_simps]:
  "wrap_err w (Inl e) = Inl (w e)"
  "wrap_err w (Inr x) = Inr x"
  by (simp_all add: wrap_err_def)

lemma wrap_err_Inr [result_simps]: "wrap_err w r = Inr y \<longleftrightarrow> r = Inr y"
  by (cases r) auto

lemma wrap_err_Inl [result_simps]: "wrap_err w r = Inl e \<longleftrightarrow> (\<exists>e'. r = Inl e' \<and> e = w e')"
  by (cases r) auto

lemma ok_simps [simp]: "ok (Inr x)" "\<not> ok (Inl e)"
  by (simp_all add: ok_def)

lemma ok_iff: "ok r \<longleftrightarrow> (\<exists>x. r = Inr x)"
  by (cases r) auto

lemma rbind_cong [fundef_cong]:
  "m = m' \<Longrightarrow> (\<And>x. m' = Inr x \<Longrightarrow> f x = g x) \<Longrightarrow> rbind m f = rbind m' g"
  by (cases m') auto

lemma rfold_cong [fundef_cong]:
  "s = t \<Longrightarrow> xs = ys \<Longrightarrow> (\<And>u x. x \<in> set ys \<Longrightarrow> f u x = g u x) \<Longrightarrow> rfold f s xs = rfold g t ys"
  by (induction ys arbitrary: xs s t) (auto split: sum.split)

lemma rmap_cong [fundef_cong]:
  "xs = ys \<Longrightarrow> (\<And>x. x \<in> set ys \<Longrightarrow> f x = g x) \<Longrightarrow> rmap f xs = rmap g ys"
  by (induction ys arbitrary: xs) (auto split: sum.split)

lemma rfold_append: "rfold f s (xs @ ys) = rbind (rfold f s xs) (\<lambda>t. rfold f t ys)"
  by (induction xs arbitrary: s) (auto split: sum.split)

lemma rfold_inv:
  assumes "rfold f s xs = Inr t" and "P s"
    and "\<And>u v x. x \<in> set xs \<Longrightarrow> P u \<Longrightarrow> f u x = Inr v \<Longrightarrow> P v"
  shows "P t"
  using assms
proof (induction xs arbitrary: s)
  case Nil
  then show ?case by simp
next
  case (Cons x xs)
  from Cons.prems(1) obtain v where v: "f s x = Inr v" "rfold f v xs = Inr t"
    by (auto split: sum.splits)
  have "P v" using Cons.prems(2,3) v(1) by auto
  with Cons.IH [OF v(2)] Cons.prems(3) show ?case by auto
qed

lemma rmap_length: "rmap f xs = Inr ys \<Longrightarrow> length ys = length xs"
  by (induction xs arbitrary: ys) (auto split: sum.splits)

lemma rmap_nth: "rmap f xs = Inr ys \<Longrightarrow> i < length xs \<Longrightarrow> f (xs ! i) = Inr (ys ! i)"
  by (induction xs arbitrary: ys i) (auto split: sum.splits simp: nth_Cons split: nat.splits)

lemma rmap_ok_iff: "(\<exists>ys. rmap f xs = Inr ys) \<longleftrightarrow> (\<forall>x\<in>set xs. \<exists>y. f x = Inr y)"
proof (induction xs)
  case (Cons x xs)
  then show ?case by (cases "f x"; cases "rmap f xs") auto
qed simp

lemma rmap_Inl: "rmap f xs = Inl e \<Longrightarrow> \<exists>x\<in>set xs. f x = Inl e"
  by (induction xs) (auto split: sum.splits)

lemma rmap_set: "rmap f xs = Inr ys \<Longrightarrow> y \<in> set ys \<Longrightarrow> \<exists>x\<in>set xs. f x = Inr y"
  by (induction xs arbitrary: ys) (auto split: sum.splits)

section \<open>Go maps\<close>

type_synonym 'v gomap = "(string \<times> 'v) list"

abbreviation keys :: "('k \<times> 'v) list \<Rightarrow> 'k list" where
  "keys m \<equiv> map fst m"

abbreviation wf_map :: "('k \<times> 'v) list \<Rightarrow> bool" where
  "wf_map m \<equiv> distinct (map fst m)"

text \<open>\<open>m[k] = v\<close>, \<open>delete(m, k)\<close> and \<open>_, ok := m[k]\<close>.\<close>

definition mput :: "'k \<Rightarrow> 'v \<Rightarrow> ('k \<times> 'v) list \<Rightarrow> ('k \<times> 'v) list" where
  "mput = AList.update"

definition mdel :: "'k \<Rightarrow> ('k \<times> 'v) list \<Rightarrow> ('k \<times> 'v) list" where
  "mdel = AList.delete"

definition mhas :: "('k \<times> 'v) list \<Rightarrow> 'k \<Rightarrow> bool" where
  "mhas m k = (map_of m k \<noteq> None)"

lemma mput_code [code]:
  "mput k v [] = [(k, v)]"
  "mput k v (p # m) = (if fst p = k then (k, v) # m else p # mput k v m)"
  by (cases p; simp add: mput_def)+

lemma mdel_code [code]: "mdel k m = filter (\<lambda>p. fst p \<noteq> k) m"
  by (induction m) (auto simp: mdel_def)

lemma map_of_mput [simp, gomap_simps]: "map_of (mput k v m) = (map_of m)(k \<mapsto> v)"
  by (simp add: mput_def AList.update_conv')

lemma map_of_mdel [simp, gomap_simps]: "map_of (mdel k m) = (map_of m)(k := None)"
  by (simp add: mdel_def AList.delete_conv')

lemma keys_mput: "keys (mput k v m) = (if k \<in> set (keys m) then keys m else keys m @ [k])"
  by (simp add: mput_def AList.update_keys)

lemma keys_mdel: "keys (mdel k m) = filter (\<lambda>j. j \<noteq> k) (keys m)"
  by (induction m) (auto simp: mdel_def)

lemma set_keys_mput [simp]: "fst ` set (mput k v m) = insert k (fst ` set m)"
proof -
  have "set (keys (mput k v m)) = insert k (set (keys m))"
    by (auto simp: keys_mput)
  then show ?thesis by simp
qed

lemma set_keys_mdel [simp]: "fst ` set (mdel k m) = fst ` set m - {k}"
proof -
  have "set (keys (mdel k m)) = set (keys m) - {k}"
    unfolding keys_mdel by auto
  then show ?thesis by simp
qed

lemma wf_mput [simp]: "wf_map m \<Longrightarrow> wf_map (mput k v m)"
  by (auto simp: keys_mput)

lemma wf_mdel [simp]: "wf_map m \<Longrightarrow> wf_map (mdel k m)"
  by (auto simp: keys_mdel)

lemma mput_mem: "p \<in> set (mput k v m) \<Longrightarrow> p = (k, v) \<or> p \<in> set m"
  by (induction m) (auto simp: mput_code split: if_splits)

lemma mdel_mem: "p \<in> set (mdel k m) \<longleftrightarrow> p \<in> set m \<and> fst p \<noteq> k"
  by (auto simp: mdel_code)

lemma mhas_iff: "mhas m k \<longleftrightarrow> k \<in> fst ` set m"
  by (simp add: mhas_def map_of_eq_None_iff)

lemma map_of_mem: "map_of m k = Some v \<Longrightarrow> (k, v) \<in> set m"
  by (rule map_of_SomeD)

lemma wf_map_ConsD: "wf_map ((k, v) # m) \<Longrightarrow> map_of m k = None \<and> wf_map m"
  by (simp add: map_of_eq_None_iff)

lemma map_of_eq_perm:
  assumes "wf_map m" "wf_map n" "set m = set n"
  shows "map_of m = map_of n"
proof
  fix k
  show "map_of m k = map_of n k"
  proof (cases "map_of m k")
    case None
    then have "map_of n k = None" using assms(3) by (simp add: map_of_eq_None_iff)
    then show ?thesis using None by simp
  next
    case (Some v)
    then have "(k, v) \<in> set n" using map_of_SomeD assms(3) by fastforce
    then show ?thesis using Some assms(2) by simp
  qed
qed

section \<open>Strings\<close>

text \<open>\<open>strings.HasPrefix\<close>, \<open>strings.Contains\<close>, \<open>strings.Split\<close> on one byte, \<open>strings.Join\<close>.\<close>

definition HasPrefix :: "string \<Rightarrow> string \<Rightarrow> bool" where
  "HasPrefix s p = prefix p s"

definition Contains :: "string \<Rightarrow> string \<Rightarrow> bool" where
  "Contains s sub = sublist sub s"

fun Split :: "char \<Rightarrow> string \<Rightarrow> string list" where
  "Split c [] = [[]]"
| "Split c (x # xs) =
     (if x = c then [] # Split c xs
      else (case Split c xs of [] \<Rightarrow> [[x]] | w # ws \<Rightarrow> (x # w) # ws))"

fun Join :: "string \<Rightarrow> string list \<Rightarrow> string" where
  "Join sep [] = []"
| "Join sep [w] = w"
| "Join sep (w # v # ws) = w @ sep @ Join sep (v # ws)"

lemma Split_nonempty [simp]: "Split c s \<noteq> []"
  by (cases s) (auto split: list.split)

lemma Join_Cons: "ws \<noteq> [] \<Longrightarrow> Join sep (w # ws) = w @ sep @ Join sep ws"
  by (cases ws) auto

lemma Join_Split: "Join [c] (Split c s) = s"
proof (induction s)
  case Nil
  then show ?case by simp
next
  case (Cons x s)
  obtain w ws where w: "Split c s = w # ws"
    by (cases "Split c s") auto
  show ?case
  proof (cases ws)
    case Nil
    with Cons w show ?thesis by simp
  next
    case (Cons v vs)
    with w \<open>Join [c] (Split c s) = s\<close> show ?thesis by simp
  qed
qed

lemma Split_no_sep: "c \<notin> set s \<Longrightarrow> Split c s = [s]"
  by (induction s) auto

lemma Split_append_sep: "c \<notin> set s \<Longrightarrow> Split c (s @ c # t) = s # Split c t"
  by (induction s) auto

lemma Split_words: "w \<in> set (Split c s) \<Longrightarrow> c \<notin> set w"
  by (induction s arbitrary: w) (auto split: list.splits if_splits)

lemma length_Split: "length (Split c s) = Suc (count_list s c)"
  by (induction s) (auto split: list.split)

section \<open>Decimal numbers\<close>

definition digit_char :: "nat \<Rightarrow> char" where
  "digit_char d = char_of (48 + d)"

definition is_digit :: "char \<Rightarrow> bool" where
  "is_digit c = (CHR ''0'' \<le> c \<and> c \<le> CHR ''9'')"

definition digit_val :: "char \<Rightarrow> nat" where
  "digit_val c = of_char c - 48"

fun nat_digits :: "nat \<Rightarrow> string" where
  "nat_digits n =
     (if n < 10 then [digit_char n] else nat_digits (n div 10) @ [digit_char (n mod 10)])"

declare nat_digits.simps [simp del]

definition digits_val :: "string \<Rightarrow> nat" where
  "digits_val s = foldl (\<lambda>n c. 10 * n + digit_val c) 0 s"

text \<open>\<open>strconv.Itoa\<close>, and \<open>strconv.Atoi\<close> with the range of a 64-bit \<open>int\<close>: \<open>None\<close> is its error.\<close>

definition Itoa :: "int \<Rightarrow> string" where
  "Itoa i = (if i < 0 then CHR ''-'' # nat_digits (nat (- i)) else nat_digits (nat i))"

definition Atoi :: "string \<Rightarrow> int option" where
  "Atoi s =
     (let (neg, ds) = (case s of [] \<Rightarrow> (False, [])
                       | c # cs \<Rightarrow> if c = CHR ''-'' then (True, cs)
                                  else if c = CHR ''+'' then (False, cs) else (False, s))
      in if ds \<noteq> [] \<and> list_all is_digit ds
         then (let v = int (digits_val ds); i = (if neg then - v else v)
               in if - (2 ^ 63) \<le> i \<and> i < 2 ^ 63 then Some i else None)
         else None)"

lemma of_char_digit: "d < 10 \<Longrightarrow> of_char (digit_char d) = (48 + d :: nat)"
  by (simp add: digit_char_def)

lemma is_digit_iff: "is_digit c \<longleftrightarrow> 48 \<le> (of_char c :: nat) \<and> (of_char c :: nat) \<le> 57"
  by (simp add: is_digit_def less_eq_char_def)

lemma is_digit_digit_char: "d < 10 \<Longrightarrow> is_digit (digit_char d)"
  by (simp add: is_digit_iff of_char_digit)

lemma digit_val_digit_char [simp]: "d < 10 \<Longrightarrow> digit_val (digit_char d) = d"
  by (simp add: digit_val_def of_char_digit)

lemma nat_digits_ne [simp]: "nat_digits n \<noteq> []"
  by (subst nat_digits.simps) simp

lemma nat_digits_all: "list_all is_digit (nat_digits n)"
proof (induction n rule: nat_digits.induct)
  case (1 n)
  then show ?case
    by (subst nat_digits.simps) (auto simp: is_digit_digit_char)
qed

lemma digits_val_snoc: "digits_val (s @ [c]) = 10 * digits_val s + digit_val c"
  by (simp add: digits_val_def)

lemma digits_val_nat_digits [simp]: "digits_val (nat_digits n) = n"
proof (induction n rule: nat_digits.induct)
  case (1 n)
  show ?case
  proof (cases "n < 10")
    case True
    then show ?thesis
      by (subst nat_digits.simps) (simp add: digits_val_def)
  next
    case False
    with 1 show ?thesis
      by (subst nat_digits.simps) (simp add: digits_val_snoc)
  qed
qed

lemma sign_not_digit: "\<not> is_digit (CHR ''-'')" "\<not> is_digit (CHR ''+'')"
  by (simp_all add: is_digit_iff)

lemma nat_digits_hd: "is_digit (hd (nat_digits n))"
  using nat_digits_all [of n] nat_digits_ne [of n]
  by (cases "nat_digits n") auto

lemma Atoi_nat_digits: "n < 2 ^ 63 \<Longrightarrow> Atoi (nat_digits n) = Some (int n)"
proof -
  assume n: "n < 2 ^ 63"
  then have lt: "int n < 2 ^ 63" by simp
  obtain c cs where c: "nat_digits n = c # cs"
    by (cases "nat_digits n") auto
  then have "is_digit c" using nat_digits_hd [of n] by simp
  then have "c \<noteq> CHR ''-''" "c \<noteq> CHR ''+''" using sign_not_digit by auto
  moreover have "list_all is_digit (c # cs)" using nat_digits_all [of n] c by simp
  moreover have "digits_val (c # cs) = n" using digits_val_nat_digits [of n] c by simp
  ultimately show ?thesis using lt unfolding c by (simp add: Atoi_def Let_def)
qed

lemma Atoi_Itoa: "0 \<le> i \<Longrightarrow> i < 2 ^ 63 \<Longrightarrow> Atoi (Itoa i) = Some i"
  using Atoi_nat_digits [of "nat i"] by (simp add: Itoa_def nat_less_iff)

section \<open>64-bit signed integers\<close>

text \<open>The value that Go keeps of a sum or a difference of \<open>int64\<close> values: it wraps around.\<close>

definition i64 :: "int \<Rightarrow> int" where
  "i64 x = (x + 2 ^ 63) mod 2 ^ 64 - 2 ^ 63"

abbreviation in_i64 :: "int \<Rightarrow> bool" where
  "in_i64 x \<equiv> - (2 ^ 63) \<le> x \<and> x < 2 ^ 63"

lemma i64_id [simp]: "in_i64 x \<Longrightarrow> i64 x = x"
  by (simp add: i64_def)

lemma i64_range: "in_i64 (i64 x)"
  by (simp add: i64_def)

end
