(* ===== verification/Values.thy ===== *)
theory Values
  imports Complex_Main Prelude
begin

text \<open>
  \<open>internal/misc\<close>: the trees of \<open>interface{}\<close> values that the program reads from
  YAML and JSON, and the functions that merge, prune and copy them (\<open>merge.go\<close>,
  \<open>prune.go\<close>, \<open>deepcopymap.go\<close>), together with the small helpers of
  \<open>misc.go\<close> and \<open>image.go\<close>.

  \<open>GNil\<close> is a nil interface, \<open>GInt\<close> a Go integer, \<open>GFloat\<close> a
  \<open>float64\<close>, \<open>GStrs\<close> a \<open>[]string\<close>, \<open>GList\<close> a
  \<open>[]interface{}\<close> and \<open>GMap\<close> a \<open>map[string]interface{}\<close>.
\<close>

section \<open>Values\<close>

datatype gval =
    GNil
  | GBool bool
  | GInt int
  | GFloat rat
  | GStr string
  | GStrs "string list"
  | GList "gval list"
  | GMap "(string \<times> gval) list"

type_synonym gmap = "(string \<times> gval) list"

text \<open>The type assertions \<open>v.(map[string]interface{})\<close>, \<open>v.(string)\<close>, \<open>v.(bool)\<close> and \<open>v.([]interface{})\<close>.\<close>

fun asMap :: "gval \<Rightarrow> gmap option" where
  "asMap (GMap m) = Some m"
| "asMap _ = None"

fun asStr :: "gval \<Rightarrow> string option" where
  "asStr (GStr s) = Some s"
| "asStr _ = None"

fun asBool :: "gval \<Rightarrow> bool option" where
  "asBool (GBool b) = Some b"
| "asBool _ = None"

fun asList :: "gval \<Rightarrow> gval list option" where
  "asList (GList l) = Some l"
| "asList _ = None"

text \<open>\<open>m[k].(T)\<close> on a map that may lack \<open>k\<close>.\<close>

definition getMap :: "gmap \<Rightarrow> string \<Rightarrow> gmap option" where
  "getMap m k = Option.bind (map_of m k) asMap"

definition getStr :: "gmap \<Rightarrow> string \<Rightarrow> string option" where
  "getStr m k = Option.bind (map_of m k) asStr"

lemma asMap_iff [simp]: "asMap v = Some m \<longleftrightarrow> v = GMap m"
  by (cases v) auto

lemma asStr_iff [simp]: "asStr v = Some s \<longleftrightarrow> v = GStr s"
  by (cases v) auto

lemma asBool_iff [simp]: "asBool v = Some b \<longleftrightarrow> v = GBool b"
  by (cases v) auto

lemma asList_iff [simp]: "asList v = Some l \<longleftrightarrow> v = GList l"
  by (cases v) auto

lemma getMap_iff: "getMap m k = Some n \<longleftrightarrow> map_of m k = Some (GMap n)"
  by (cases "map_of m k") (auto simp: getMap_def)

text \<open>Maps of a tree have distinct keys at every level.\<close>

fun wf_gval :: "gval \<Rightarrow> bool" where
  "wf_gval (GMap m) \<longleftrightarrow> wf_map m \<and> (\<forall>p\<in>set m. wf_gval (snd p))"
| "wf_gval (GList l) \<longleftrightarrow> (\<forall>v\<in>set l. wf_gval v)"
| "wf_gval _ \<longleftrightarrow> True"

abbreviation wf_gmap :: "gmap \<Rightarrow> bool" where
  "wf_gmap m \<equiv> wf_gval (GMap m)"

lemma wf_gmap_lookup: "wf_gmap m \<Longrightarrow> map_of m k = Some v \<Longrightarrow> wf_gval v"
  by (auto dest: map_of_SomeD)

lemma wf_gmap_Cons: "wf_gmap ((k, v) # m) \<longleftrightarrow> k \<notin> fst ` set m \<and> wf_gval v \<and> wf_gmap m"
  by auto

lemma wf_gmap_mput: "wf_gmap m \<Longrightarrow> wf_gval v \<Longrightarrow> wf_gmap (mput k v m)"
  by (auto dest: mput_mem)

lemma wf_gmap_mdel: "wf_gmap m \<Longrightarrow> wf_gmap (mdel k m)"
  by (auto simp: mdel_mem)

lemma size_mem_gmap [termination_simp]: "p \<in> set m \<Longrightarrow> size (snd p) < size (GMap m)"
proof (induction m)
  case (Cons q m)
  then show ?case by (cases q) auto
qed simp

lemma size_lookup_gmap: "map_of m k = Some v \<Longrightarrow> size v < size (GMap m)"
  using size_mem_gmap map_of_SomeD by fastforce

lemma size_mem_glist [termination_simp]: "v \<in> set l \<Longrightarrow> size v < size (GList l)"
  by (induction l) auto

section \<open>The value at a path\<close>

fun at_path :: "gval \<Rightarrow> string list \<Rightarrow> gval option" where
  "at_path v [] = Some v"
| "at_path (GMap m) (k # ks) = (case map_of m k of None \<Rightarrow> None | Some v \<Rightarrow> at_path v ks)"
| "at_path _ (k # ks) = None"

text \<open>A value other than a map lies at a proper prefix of the path, so that the path ends there.\<close>

fun blocked :: "gval \<Rightarrow> string list \<Rightarrow> bool" where
  "blocked v [] = False"
| "blocked (GMap m) (k # ks) = (case map_of m k of None \<Rightarrow> False | Some v \<Rightarrow> blocked v ks)"
| "blocked _ (k # ks) = True"

section \<open>MergeMaps\<close>

text \<open>
  The loop over \<open>b\<close> of \<open>MergeMaps\<close>, from the copy of \<open>a\<close> in
  \<open>out\<close>: \<open>merged\<close> is the value that the body stores, given the value that
  \<open>out\<close> holds for the key.
\<close>

fun merge_into :: "gmap \<Rightarrow> gmap \<Rightarrow> gmap" and merged :: "gval option \<Rightarrow> gval \<Rightarrow> gval" where
  "merge_into out [] = out"
| "merge_into out ((k, v) # b) = merge_into (mput k (merged (map_of out k) v) out) b"
| "merged (Some (GMap bv)) (GMap v) = GMap (merge_into bv v)"
| "merged _ v = v"

definition MergeMaps :: "gmap \<Rightarrow> gmap \<Rightarrow> gmap" where
  "MergeMaps a b = merge_into a b"

section \<open>Prune\<close>

text \<open>
  \<open>prune_item\<close> is the body that the loops of \<open>Prune\<close> and \<open>pruneSlice\<close>
  share: \<open>None\<close> where the code continues without storing the item.
\<close>

fun Prune :: "gmap \<Rightarrow> gmap" and pruneSlice :: "gval list \<Rightarrow> gval list"
  and prune_item :: "gval \<Rightarrow> gval option" where
  "Prune [] = []"
| "Prune ((k, v) # m) =
     (case prune_item v of None \<Rightarrow> Prune m | Some w \<Rightarrow> (k, w) # Prune m)"
| "pruneSlice [] = []"
| "pruneSlice (v # s) =
     (case prune_item v of None \<Rightarrow> pruneSlice s | Some w \<Rightarrow> w # pruneSlice s)"
| "prune_item GNil = None"
| "prune_item (GMap nested) =
     (if length (Prune nested) > 0 then Some (GMap (Prune nested)) else None)"
| "prune_item (GList slice) = Some (GList (pruneSlice slice))"
| "prune_item v = Some v"

section \<open>DeepCopyMap\<close>

fun deepCopy :: "gval \<Rightarrow> gval" where
  "deepCopy (GMap m) = GMap (map (\<lambda>p. (fst p, deepCopy (snd p))) m)"
| "deepCopy (GList l) = GList (map deepCopy l)"
| "deepCopy v = v"

definition DeepCopyMap :: "gmap option \<Rightarrow> gmap option" where
  "DeepCopyMap m = (case m of None \<Rightarrow> None | Some m \<Rightarrow> asMap (deepCopy (GMap m)))"

section \<open>Helpers of misc.go and image.go\<close>

text \<open>
  \<open>IsZero\<close> on an \<open>interface{}\<close>: nil, or the zero value of its dynamic type. An empty list
  or map that is not nil is not zero.
\<close>

fun IsZero :: "gval \<Rightarrow> bool" where
  "IsZero GNil = True"
| "IsZero (GBool b) = (\<not> b)"
| "IsZero (GInt i) = (i = 0)"
| "IsZero (GFloat f) = (f = 0)"
| "IsZero (GStr s) = (s = [])"
| "IsZero (GStrs _) = False"
| "IsZero (GList _) = False"
| "IsZero (GMap _) = False"

definition CountNonZero :: "gval list \<Rightarrow> nat" where
  "CountNonZero vals = length (filter (\<lambda>v. \<not> IsZero v) vals)"

definition Ternary :: "bool \<Rightarrow> 'a \<Rightarrow> 'a \<Rightarrow> 'a" where
  "Ternary cond vtrue vfalse = (if cond then vtrue else vfalse)"

text \<open>\<open>^[a-z0-9]([-a-z0-9]*[a-z0-9])?$\<close>\<close>

definition k8s_alnum :: "char \<Rightarrow> bool" where
  "k8s_alnum c = ((CHR ''a'' \<le> c \<and> c \<le> CHR ''z'') \<or> is_digit c)"

definition ValidateK8sName :: "string \<Rightarrow> bool" where
  "ValidateK8sName name =
     (name \<noteq> [] \<and> k8s_alnum (hd name) \<and> k8s_alnum (last name)
      \<and> list_all (\<lambda>c. k8s_alnum c \<or> c = CHR ''-'') name)"

text \<open>\<open>slices.Sort\<close> then \<open>slices.Compact\<close>.\<close>

definition RemoveDuplicates :: "string list \<Rightarrow> string list" where
  "RemoveDuplicates elements = remdups_adj (sort elements)"

datatype image_error = InvalidImageName string

definition DecodeImageUrl :: "string \<Rightarrow> (image_error, string \<times> string) result" where
  "DecodeImageUrl image0 =
     (let image = (if HasPrefix image0 ''oci://'' then drop 6 image0 else image0);
          a = Split CHR '':'' image
      in if length a = 3 then Ok (a ! 0 @ '':'' @ a ! 1, a ! 2)
         else if length a = 2 then
           (if Contains (a ! 0) ''/'' then Ok (a ! 0, a ! 1)
            else if Contains (a ! 1) ''/'' then Ok (a ! 0 @ '':'' @ a ! 1, ''latest'')
            else Err (InvalidImageName image))
         else if length a = 1 then Ok (a ! 0, ''latest'')
         else Err (InvalidImageName image))"

section \<open>Lemmas on merging\<close>

lemma merged_not_map: "asMap v = None \<Longrightarrow> merged w v = v"
  by (cases v; cases w) auto

lemma merged_over_not_map: "Option.bind w asMap = None \<Longrightarrow> merged w v = v"
  by (cases v; cases w) (auto elim: asMap.elims)

lemma merge_into_lookup:
  "wf_map b \<Longrightarrow> map_of (merge_into a b) k =
    (case map_of b k of None \<Rightarrow> map_of a k | Some v \<Rightarrow> Some (merged (map_of a k) v))"
proof (induction b arbitrary: a)
  case (Cons p b)
  obtain j v where p: "p = (j, v)" by (cases p)
  have "wf_map b" and "map_of b j = None"
    using Cons.prems p by (auto simp: map_of_eq_None_iff)
  then show ?case using p Cons.IH by (cases "k = j") (auto split: option.split)
qed simp

lemma wf_merge_into:
  "wf_gmap a \<Longrightarrow> wf_gmap b \<Longrightarrow> wf_gmap (merge_into a b)"
  "pred_option wf_gval w \<Longrightarrow> wf_gval v \<Longrightarrow> wf_gval (merged w v)"
proof (induction a b and w v rule: merge_into_merged.induct)
  case (2 out k v b)
  have "pred_option wf_gval (map_of out k)"
    using wf_gmap_lookup [OF 2(3)] by (cases "map_of out k") auto
  moreover have "wf_gval v" "wf_gmap b" using 2(4) by auto
  ultimately have "wf_gval (merged (map_of out k) v)" using 2(1) by blast
  then have "wf_gmap (mput k (merged (map_of out k) v) out)" using wf_gmap_mput 2(3) by blast
  then show ?case using 2(2) \<open>wf_gmap b\<close> by simp
qed simp_all

lemma wf_MergeMaps [inv_intros]: "wf_gmap a \<Longrightarrow> wf_gmap b \<Longrightarrow> wf_gmap (MergeMaps a b)"
  unfolding MergeMaps_def by (rule wf_merge_into(1))

lemma at_path_not_map: "asMap v = None \<Longrightarrow> ks \<noteq> [] \<Longrightarrow> at_path v ks = None"
  by (cases ks; cases v) auto

lemma blocked_not_map: "asMap v = None \<Longrightarrow> ks \<noteq> [] \<Longrightarrow> blocked v ks"
  by (cases ks; cases v) auto

lemma at_path_blocked: "blocked v ks \<Longrightarrow> at_path v ks = None"
  by (induction v ks rule: blocked.induct) (auto split: option.splits)

lemma at_path_merged:
  "wf_gval v \<Longrightarrow> at_path (merged w v) p =
     (case at_path v p of
        Some x \<Rightarrow> Some (merged (Option.bind w (\<lambda>a. at_path a p)) x)
      | None \<Rightarrow> if blocked v p then None else Option.bind w (\<lambda>a. at_path a p))"
proof (induction p arbitrary: w v)
  case Nil
  then show ?case by (cases w) auto
next
  case (Cons k p)
  show ?case
  proof (cases v)
    case (GMap b)
    show ?thesis
    proof (cases "Option.bind w asMap")
      case None
      then have "merged w v = v" and "Option.bind w (\<lambda>a. at_path a (k # p)) = None"
        by (auto simp: merged_over_not_map at_path_not_map bind_eq_None_conv)
      then show ?thesis by (simp split: option.split)
    next
      case (Some a)
      then have w: "w = Some (GMap a)" by (cases w) auto
      have b: "wf_map b" and bk: "\<And>x. map_of b k = Some x \<Longrightarrow> wf_gval x"
        using Cons.prems GMap wf_gmap_lookup by auto
      show ?thesis
      proof (cases "map_of b k")
        case None
        then show ?thesis using GMap w b
          by (simp add: merge_into_lookup split: option.split)
      next
        case (Some x)
        have "at_path (merged w v) (k # p) = at_path (merged (map_of a k) x) p"
          using GMap w b Some by (simp add: merge_into_lookup)
        also have "\<dots> = (case at_path x p of
             Some y \<Rightarrow> Some (merged (Option.bind (map_of a k) (\<lambda>c. at_path c p)) y)
           | None \<Rightarrow> if blocked x p then None else Option.bind (map_of a k) (\<lambda>c. at_path c p))"
          by (rule Cons.IH) (rule bk [OF Some])
        moreover have "Option.bind w (\<lambda>c. at_path c (k # p)) = Option.bind (map_of a k) (\<lambda>c. at_path c p)"
          using w by (cases "map_of a k") auto
        ultimately show ?thesis using GMap Some by (simp only: at_path.simps blocked.simps option.case)
      qed
    qed
  qed (auto simp: merged_not_map)
qed

section \<open>Lemmas on pruning and copying\<close>

text \<open>No null and no empty map below a value. An empty list may stay.\<close>

fun pruned :: "gval \<Rightarrow> bool" where
  "pruned GNil = False"
| "pruned (GMap m) = (m \<noteq> [] \<and> (\<forall>p\<in>set m. pruned (snd p)))"
| "pruned (GList l) = (\<forall>v\<in>set l. pruned v)"
| "pruned _ = True"

fun scalar :: "gval \<Rightarrow> bool" where
  "scalar GNil = False"
| "scalar (GMap m) = False"
| "scalar (GList l) = False"
| "scalar _ = True"

lemma Prune_pruned:
  "\<forall>p\<in>set (Prune m). pruned (snd p)"
  "\<forall>v\<in>set (pruneSlice s). pruned v"
  "prune_item v = Some w \<Longrightarrow> pruned w"
  by (induction m and s and v arbitrary: and and w rule: Prune_pruneSlice_prune_item.induct)
    (auto split: option.splits if_splits)

lemma Prune_id:
  "\<forall>p\<in>set m. pruned (snd p) \<Longrightarrow> Prune m = m"
  "\<forall>v\<in>set s. pruned v \<Longrightarrow> pruneSlice s = s"
  "pruned v \<Longrightarrow> prune_item v = Some v"
  by (induction m and s and v rule: Prune_pruneSlice_prune_item.induct) auto

lemma Prune_keys: "p \<in> set (Prune m) \<Longrightarrow> fst p \<in> fst ` set m"
  by (induction m) (auto split: option.splits)

lemma wf_Prune:
  "wf_gmap m \<Longrightarrow> wf_gmap (Prune m)"
  "wf_gval (GList s) \<Longrightarrow> wf_gval (GList (pruneSlice s))"
  "wf_gval v \<Longrightarrow> prune_item v = Some w \<Longrightarrow> wf_gval w"
  by (induction m and s and v arbitrary: and and w rule: Prune_pruneSlice_prune_item.induct)
    (auto dest: Prune_keys split: option.splits if_splits)

lemma Prune_lookup: "wf_map m \<Longrightarrow> map_of (Prune m) k = Option.bind (map_of m k) prune_item"
proof (induction m)
  case (Cons p m)
  obtain j v where p: "p = (j, v)" by (cases p)
  have "j \<notin> fst ` set (Prune m)" using Cons.prems p Prune_keys by fastforce
  then have "map_of (Prune m) j = None" by (simp add: map_of_eq_None_iff)
  then show ?case using Cons p by (auto split: option.split)
qed simp

lemma Prune_at_path:
  assumes "wf_gmap m" and "scalar x" and "p \<noteq> []"
  shows "at_path (GMap (Prune m)) p = Some x \<longleftrightarrow> at_path (GMap m) p = Some x"
  using assms(1,3)
proof (induction p arbitrary: m)
  case (Cons k p)
  show ?case
  proof (cases "map_of m k")
    case None
    then show ?thesis using Cons.prems by (simp add: Prune_lookup)
  next
    case (Some v)
    have wfv: "wf_gval v" using wf_gmap_lookup [OF Cons.prems(1) Some] .
    show ?thesis
    proof (cases v)
      case (GMap n)
      have empty: "Prune n = [] \<Longrightarrow> at_path (GMap n) p \<noteq> Some x"
        using Cons.IH [of n] wfv GMap assms(2) by (cases p) auto
      show ?thesis
        using Some GMap Cons wfv empty assms(2)
        by (cases p) (auto simp: Prune_lookup)
    qed (use Some Cons assms(2) in \<open>cases p; auto simp: Prune_lookup\<close>)+
  qed
qed simp

lemma deepCopy_id [simp]: "deepCopy v = v"
proof (induction v)
  case (GMap m)
  then show ?case by (auto intro!: map_idI simp: snds.simps)
qed (auto intro: map_idI)

lemma DeepCopyMap_id [simp]: "DeepCopyMap m = m"
  by (cases m) (auto simp: DeepCopyMap_def simp del: deepCopy.simps)

section \<open>Lemmas on names\<close>

lemma distinct_remdups_adj_sort: "sorted xs \<Longrightarrow> distinct (remdups_adj (xs :: string list))"
  by (induction xs rule: remdups_adj.induct) (auto simp: order_le_less)

lemma RemoveDuplicates_props:
  "sorted (RemoveDuplicates xs)" "distinct (RemoveDuplicates xs)" "set (RemoveDuplicates xs) = set xs"
  by (simp_all add: RemoveDuplicates_def distinct_remdups_adj_sort)

lemma Contains_char: "Contains s [c] \<longleftrightarrow> c \<in> set s"
proof
  assume "c \<in> set s"
  then obtain xs ys where "s = xs @ [c] @ ys" by (auto dest: split_list)
  then show "Contains s [c]" by (metis Contains_def sublist_appendI)
qed (auto simp: Contains_def dest: set_mono_sublist)

section \<open>Properties\<close>



text \<open>\<open>Prune\<close> removes every null and every empty map, at any depth and inside lists, and
  changes nothing else: the scalars stay where they were, none appears, and pruning again is the
  identity.\<close>

theorem Prune_correct:
  assumes "wf_gmap m"
  shows "(\<forall>p\<in>set (Prune m). pruned (snd p))
    \<and> (\<forall>p x. p \<noteq> [] \<and> scalar x \<longrightarrow>
         (at_path (GMap (Prune m)) p = Some x \<longleftrightarrow> at_path (GMap m) p = Some x))
    \<and> Prune (Prune m) = Prune m \<and> wf_gmap (Prune m)"
  using Prune_pruned(1) [of m] Prune_at_path [OF assms] Prune_id(1) [OF Prune_pruned(1)]
    wf_Prune(1) [OF assms] by blast

theorem Prune_correct_witness:
  "at_path (GMap (Prune [(''a'', GMap [(''x'', GNil), (''y'', GInt 2)]), (''b'', GMap [(''c'', GNil)])]))
     [''a'', ''y''] = Some (GInt 2)
   \<and> Prune [(''a'', GMap [(''x'', GNil), (''y'', GInt 2)]), (''b'', GMap [(''c'', GNil)])]
     = [(''a'', GMap [(''y'', GInt 2)])]"
proof -
  have wf: "wf_gmap [(''a'', GMap [(''x'', GNil), (''y'', GInt 2)]), (''b'', GMap [(''c'', GNil)])]"
    by simp
  show ?thesis using Prune_correct [OF wf] by simp
qed



text \<open>The roles and the dependencies of a Release come out sorted, without duplicates, and with
  nothing lost or added (\<open>RemoveDuplicates\<close>).\<close>

theorem RemoveDuplicates_correct:
  "sorted (RemoveDuplicates xs) \<and> distinct (RemoveDuplicates xs) \<and> set (RemoveDuplicates xs) = set xs"
  using RemoveDuplicates_props by blast

end
