(* ===== verification/Cache.thy ===== *)
theory Cache
  imports Values
begin

text \<open>
  \<open>internal/cache\<close>: the cache of loaded packages, bounded in entries and in weight, with
  entries that expire. Times are nanoseconds; \<open>time.Now()\<close> is an argument of each operation,
  one per call in the code. The entry object holds its own insertion time in Go; every caller stores
  a new object, so the time is kept with the entry here. Weights are \<open>int64\<close>.
\<close>

section \<open>State and operations\<close>

record 'e stored =
  st_entry :: 'e
  st_time :: int
  st_weight :: int

record 'e cache =
  mapping :: "(string \<times> 'e stored) list"
  cweight :: int
  nextCleanup :: int
  duration :: int
  maxEntries :: int
  maxWeight :: int

definition seconds :: "int \<Rightarrow> int" where
  "seconds n = n * 1000000000"

definition NewCache :: "int \<Rightarrow> int \<Rightarrow> int \<Rightarrow> int \<Rightarrow> 'e cache" where
  "NewCache dur maxE maxW now =
     \<lparr>mapping = [], cweight = 0, nextCleanup = now + seconds 5, duration = dur,
      maxEntries = maxE, maxWeight = maxW\<rparr>"

definition remove :: "string \<Rightarrow> 'e cache \<Rightarrow> 'e cache" where
  "remove key c =
     (case map_of (mapping c) key of
        None \<Rightarrow> c
      | Some old \<Rightarrow> c\<lparr>cweight := i64 (cweight c - st_weight old), mapping := mdel key (mapping c)\<rparr>)"

definition removeOlderThan :: "int \<Rightarrow> 'e cache \<Rightarrow> 'e cache" where
  "removeOlderThan expiry c =
     fold (\<lambda>(k, v) c. if st_time v < expiry then remove k c else c) (mapping c) c"

definition oldest :: "'e cache \<Rightarrow> string" where
  "oldest c =
     foldl (\<lambda>oldest (k, v).
              if oldest = [] \<or> (case map_of (mapping c) oldest of
                                   None \<Rightarrow> False | Some w \<Rightarrow> st_time v < st_time w)
              then k else oldest)
       [] (mapping c)"

definition clean :: "int \<Rightarrow> 'e cache \<Rightarrow> 'e cache" where
  "clean now c =
     (if nextCleanup c < now
      then removeOlderThan (now - duration c) (c\<lparr>nextCleanup := now + seconds 5\<rparr>)
      else c)"

definition Get :: "int \<Rightarrow> string \<Rightarrow> 'e cache \<Rightarrow> 'e option \<times> 'e cache" where
  "Get now key c =
     (let c' = clean now c in (map_option st_entry (map_of (mapping c') key), c'))"

definition over :: "'e cache \<Rightarrow> bool" where
  "over c \<longleftrightarrow> maxEntries c < int (length (mapping c)) \<or> maxWeight c < cweight c"

text \<open>The last loop of \<open>Set\<close>. \<open>None\<close>: it never ends.\<close>

partial_function (option) evict :: "'e cache \<Rightarrow> 'e cache option" where
  "evict c = (if over c then evict (remove (oldest c) c) else Some c)"

text \<open>\<open>now1\<close> and \<open>now2\<close> are the two calls of \<open>time.Now()\<close>.\<close>

definition Set :: "int \<times> int \<Rightarrow> string \<Rightarrow> 'e \<Rightarrow> int \<Rightarrow> 'e cache \<Rightarrow> 'e cache option" where
  "Set = (\<lambda>(now1, now2) key val weight c0.
     (let c = remove key c0
      in if weight > maxWeight c then Some c
         else let c1 = c\<lparr>mapping := mput key \<lparr>st_entry = val, st_time = now1, st_weight = weight\<rparr> (mapping c),
                         cweight := i64 (cweight c + weight)\<rparr>;
                  c2 = (if over c1 then removeOlderThan (now2 - duration c1) c1 else c1)
              in evict c2))"

section \<open>The contract of a lossy cache\<close>

text \<open>
  What a client of the cache relies on: a lookup returns what was last stored under the key, or
  nothing. Inside, the client's lemma: memoising through such a cache gives the memoised function.
\<close>

locale lossy_cache =
  fixes lookup :: "'s \<Rightarrow> 'k \<Rightarrow> 'v option"
    and get :: "'t \<Rightarrow> 'k \<Rightarrow> 's \<Rightarrow> 'v option \<times> 's"
    and put :: "'x \<Rightarrow> 'k \<Rightarrow> 'v \<Rightarrow> 's \<Rightarrow> 's option"
  assumes get_lookup: "get t k s = (r, s') \<Longrightarrow> r = lookup s' k"
    and get_keeps: "get t k s = (r, s') \<Longrightarrow> lookup s' j = None \<or> lookup s' j = lookup s j"
    and put_same: "put x k v s = Some s' \<Longrightarrow> lookup s' k = None \<or> lookup s' k = Some v"
    and put_other: "put x k v s = Some s' \<Longrightarrow> j \<noteq> k \<Longrightarrow> lookup s' j = None \<or> lookup s' j = lookup s j"
begin

definition coherent :: "('k \<Rightarrow> 'v \<Rightarrow> bool) \<Rightarrow> 's \<Rightarrow> bool" where
  "coherent P s \<longleftrightarrow> (\<forall>k v. lookup s k = Some v \<longrightarrow> P k v)"

lemma get_coherent: "coherent P s \<Longrightarrow> get t k s = (r, s') \<Longrightarrow> coherent P s' \<and> (\<forall>v. r = Some v \<longrightarrow> P k v)"
  unfolding coherent_def using get_lookup get_keeps by (metis option.distinct(1))

lemma put_coherent: "coherent P s \<Longrightarrow> P k v \<Longrightarrow> put x k v s = Some s' \<Longrightarrow> coherent P s'"
  unfolding coherent_def using put_same put_other by (metis option.distinct(1) option.inject)

end

section \<open>Lemmas on removal\<close>

text \<open>The sum of the weights stored.\<close>

definition total :: "('k \<times> 'e stored) list \<Rightarrow> int" where
  "total m = sum_list (map (\<lambda>p. st_weight (snd p)) m)"

text \<open>
  The invariant between the operations: distinct keys, the weight of the cache is the sum of the
  weights, which are not negative, and both caps hold. The cap on the weight leaves room for one
  more entry in 64 bits.
\<close>

definition accounted :: "'e cache \<Rightarrow> bool" where
  "accounted c \<longleftrightarrow> wf_map (mapping c) \<and> cweight c = total (mapping c)
     \<and> (\<forall>p\<in>set (mapping c). 0 \<le> st_weight (snd p)) \<and> cweight c < 2 ^ 63
     \<and> 0 \<le> maxEntries c \<and> 0 \<le> maxWeight c \<and> maxWeight c < 2 ^ 62"

definition cache_inv :: "'e cache \<Rightarrow> bool" where
  "cache_inv c \<longleftrightarrow> accounted c \<and> \<not> over c"

lemma total_nonneg: "\<forall>p\<in>set m. 0 \<le> st_weight (snd p) \<Longrightarrow> 0 \<le> total m"
  unfolding total_def by (rule sum_list_nonneg) auto

lemma total_mdel: "wf_map m \<Longrightarrow> map_of m k = Some v \<Longrightarrow> total (mdel k m) = total m - st_weight v"
proof (induction m)
  case (Cons p m)
  show ?case
  proof (cases "fst p = k")
    case True
    have "mdel k m = m" using Cons.prems(1) True
      by (auto simp: mdel_code filter_id_conv intro: rev_image_eqI)
    with True Cons.prems show ?thesis by (cases p) (simp add: total_def mdel_code)
  next
    case False
    with Cons show ?thesis by (cases p) (auto simp: total_def mdel_code)
  qed
qed simp

lemma total_mput_new: "map_of m k = None \<Longrightarrow> total (mput k v m) = total m + st_weight v"
  by (induction m) (auto simp: total_def mput_code split: if_splits)

lemma weight_le_total:
  "\<forall>p\<in>set m. 0 \<le> st_weight (snd p) \<Longrightarrow> (k, v) \<in> set m \<Longrightarrow> st_weight v \<le> total m"
proof (induction m)
  case (Cons p m)
  then have "0 \<le> total m" using total_nonneg by auto
  with Cons show ?case by (auto simp: total_def)
qed simp

lemma remove_params [simp]:
  "nextCleanup (remove k c) = nextCleanup c" "duration (remove k c) = duration c"
  "maxEntries (remove k c) = maxEntries c" "maxWeight (remove k c) = maxWeight c"
  by (simp_all add: remove_def split: option.split)

lemma mapping_remove: "mapping (remove k c) = mdel k (mapping c)"
  by (auto simp: remove_def mdel_code map_of_eq_None_iff filter_id_conv split: option.split
      intro!: filter_True [symmetric] rev_image_eqI)

lemma accounted_remove [inv_intros]: "accounted c \<Longrightarrow> accounted (remove k c)"
proof (cases "map_of (mapping c) k")
  case (Some v)
  assume a: "accounted c"
  have nn: "\<forall>p\<in>set (mapping c). 0 \<le> st_weight (snd p)" and w: "cweight c < 2 ^ 63"
    and t: "cweight c = total (mapping c)" using a by (auto simp: accounted_def)
  have "0 \<le> st_weight v" "st_weight v \<le> cweight c"
    using nn weight_le_total [OF nn] map_of_SomeD [OF Some] t by auto
  moreover have "total (mdel k (mapping c)) = cweight c - st_weight v"
    using total_mdel [OF _ Some] a by (simp add: accounted_def)
  ultimately show ?thesis
    using a Some w by (auto simp: accounted_def remove_def mdel_mem)
qed (simp add: remove_def)

lemma length_mdel: "k \<in> fst ` set m \<Longrightarrow> length (mdel k m) < length m"
  by (auto simp: mdel_code intro: length_filter_less)

text \<open>\<open>removeOlderThan\<close> removes exactly what is older, for every iteration order.\<close>

lemma fold_remove_params:
  "nextCleanup (fold (\<lambda>(k, v) c. if st_time v < x then remove k c else c) m c) = nextCleanup c
   \<and> duration (fold (\<lambda>(k, v) c. if st_time v < x then remove k c else c) m c) = duration c
   \<and> maxEntries (fold (\<lambda>(k, v) c. if st_time v < x then remove k c else c) m c) = maxEntries c
   \<and> maxWeight (fold (\<lambda>(k, v) c. if st_time v < x then remove k c else c) m c) = maxWeight c"
  by (induction m arbitrary: c) auto

lemma removeOlderThan_params [simp]:
  "nextCleanup (removeOlderThan x c) = nextCleanup c" "duration (removeOlderThan x c) = duration c"
  "maxEntries (removeOlderThan x c) = maxEntries c" "maxWeight (removeOlderThan x c) = maxWeight c"
  by (simp_all add: removeOlderThan_def fold_remove_params)

lemma accounted_removeOlderThan [inv_intros]: "accounted c \<Longrightarrow> accounted (removeOlderThan x c)"
proof -
  have "accounted c \<Longrightarrow> accounted (fold (\<lambda>(k, v) c. if st_time v < x then remove k c else c) m c)" for m
    by (induction m arbitrary: c) (auto simp: accounted_remove)
  then show "accounted c \<Longrightarrow> accounted (removeOlderThan x c)" by (simp add: removeOlderThan_def)
qed

lemma removeOlderThan_mapping:
  assumes "wf_map (mapping c)"
  shows "mapping (removeOlderThan x c) = filter (\<lambda>p. x \<le> st_time (snd p)) (mapping c)"
proof -
  have gen: "mapping (fold (\<lambda>(k, v) c. if st_time v < x then remove k c else c) m c)
      = filter (\<lambda>p. fst p \<notin> fst ` set (filter (\<lambda>p. st_time (snd p) < x) m)) (mapping c)" for m c
  proof (induction m arbitrary: c)
    case (Cons p m)
    then show ?case
      by (cases p) (auto simp: mapping_remove mdel_code filter_filter intro!: filter_cong)
  qed simp
  have "fst p \<notin> fst ` set (filter (\<lambda>p. st_time (snd p) < x) (mapping c)) \<longleftrightarrow> x \<le> st_time (snd p)"
    if "p \<in> set (mapping c)" for p
  proof -
    have same: "q = p" if "q \<in> set (mapping c)" "fst q = fst p" for q
      using that \<open>p \<in> set (mapping c)\<close> assms eq_key_imp_eq_value by (metis prod.collapse)
    have "fst p \<in> fst ` set (filter (\<lambda>p. st_time (snd p) < x) (mapping c)) \<longleftrightarrow> st_time (snd p) < x"
    proof
      assume "fst p \<in> fst ` set (filter (\<lambda>p. st_time (snd p) < x) (mapping c))"
      then obtain q where "q \<in> set (mapping c)" "fst q = fst p" "st_time (snd q) < x" by auto
      with same show "st_time (snd p) < x" by blast
    qed (simp add: that)
    then show ?thesis by (simp add: not_less)
  qed
  then show ?thesis by (auto simp: removeOlderThan_def gen intro!: filter_cong)
qed

section \<open>Lemmas on eviction\<close>

definition pick :: "('k list \<times> 'e stored) list \<Rightarrow> 'k list \<Rightarrow> 'k list \<times> 'e stored \<Rightarrow> 'k list" where
  "pick m cur p =
     (if cur = [] \<or> (case map_of m cur of None \<Rightarrow> False | Some w \<Rightarrow> st_time (snd p) < st_time w)
      then fst p else cur)"

lemma oldest_pick: "oldest c = foldl (pick (mapping c)) [] (mapping c)"
  unfolding oldest_def pick_def by (simp add: case_prod_beta')

lemma foldl_pick_mem: "foldl (pick m) s n = s \<or> foldl (pick m) s n \<in> fst ` set n"
proof (induction n arbitrary: s)
  case (Cons p n)
  have "pick m s p = s \<or> pick m s p = fst p" by (simp add: pick_def)
  with Cons [of "pick m s p"] show ?case by auto
qed simp

lemma oldest_mem: "mapping c \<noteq> [] \<Longrightarrow> oldest c \<in> fst ` set (mapping c)"
proof (cases "mapping c")
  case (Cons p n)
  then have "oldest c = foldl (pick (mapping c)) (fst p) n" by (simp add: oldest_pick pick_def)
  then show ?thesis using foldl_pick_mem [of "mapping c" "fst p" n] Cons by auto
qed simp

lemma foldl_pick_min:
  assumes "wf_map m" "set n \<subseteq> set m" "[] \<notin> fst ` set m" "(s, e) \<in> set m"
  shows "\<exists>e'. map_of m (foldl (pick m) s n) = Some e' \<and> st_time e' \<le> st_time e
     \<and> (\<forall>p\<in>set n. st_time e' \<le> st_time (snd p))"
  using assms
proof (induction n arbitrary: s e)
  case Nil
  then show ?case by auto
next
  case (Cons p n)
  have s: "map_of m s = Some e" "s \<noteq> []" using Cons.prems by (auto intro: rev_image_eqI)
  obtain t f where t: "pick m s p = t" "(t, f) \<in> set m" "st_time f \<le> st_time e" "st_time f \<le> st_time (snd p)"
  proof (cases "st_time (snd p) < st_time e")
    case True
    then show ?thesis using s Cons.prems that [of "fst p" "snd p"] by (simp add: pick_def)
  next
    case False
    then show ?thesis using s Cons.prems that [of s e] by (simp add: pick_def)
  qed
  then show ?case using Cons.IH [OF Cons.prems(1) _ Cons.prems(3) t(2)] Cons.prems(2) by force
qed

lemma oldest_min:
  assumes "wf_map (mapping c)" "[] \<notin> fst ` set (mapping c)" "mapping c \<noteq> []"
  shows "\<exists>e. map_of (mapping c) (oldest c) = Some e \<and> (\<forall>p\<in>set (mapping c). st_time e \<le> st_time (snd p))"
proof -
  obtain p n where n: "mapping c = p # n" using assms(3) by (cases "mapping c") auto
  then have "oldest c = foldl (pick (mapping c)) (fst p) n" by (simp add: oldest_pick pick_def)
  moreover obtain e' where "map_of (mapping c) (foldl (pick (mapping c)) (fst p) n) = Some e'"
      "st_time e' \<le> st_time (snd p)" "\<forall>q\<in>set n. st_time e' \<le> st_time (snd q)"
    using foldl_pick_min [OF assms(1) _ assms(2), of n "fst p" "snd p"] n by auto
  ultimately show ?thesis using n by auto
qed

text \<open>What the loop of \<open>Set\<close> keeps of the cache it starts from.\<close>

definition shrinks :: "'e cache \<Rightarrow> 'e cache \<Rightarrow> bool" where
  "shrinks c c' \<longleftrightarrow> nextCleanup c' = nextCleanup c \<and> duration c' = duration c
     \<and> maxEntries c' = maxEntries c \<and> maxWeight c' = maxWeight c
     \<and> set (mapping c') \<subseteq> set (mapping c)"

lemma shrinks_refl [simp]: "shrinks c c"
  by (simp add: shrinks_def)

lemma shrinks_trans: "shrinks a b \<Longrightarrow> shrinks b c \<Longrightarrow> shrinks a c"
  by (auto simp: shrinks_def)

lemma shrinks_remove: "shrinks c (remove k c)"
  by (auto simp: shrinks_def mapping_remove mdel_mem)

lemma shrinks_removeOlderThan: "wf_map (mapping c) \<Longrightarrow> shrinks c (removeOlderThan x c)"
  by (auto simp: shrinks_def removeOlderThan_mapping)

lemma shrinks_lookup:
  "shrinks c c' \<Longrightarrow> wf_map (mapping c) \<Longrightarrow> wf_map (mapping c') \<Longrightarrow>
     map_of (mapping c') k = None \<or> map_of (mapping c') k = map_of (mapping c) k"
  by (cases "map_of (mapping c') k") (auto simp: shrinks_def dest!: map_of_SomeD)

lemma accounted_empty_not_over: "accounted c \<Longrightarrow> mapping c = [] \<Longrightarrow> \<not> over c"
  by (simp add: accounted_def over_def total_def)

lemma evict_total:
  "accounted c \<Longrightarrow> \<exists>c'. evict c = Some c' \<and> cache_inv c' \<and> shrinks c c'"
proof (induction "length (mapping c)" arbitrary: c rule: less_induct)
  case less
  show ?case
  proof (cases "over c")
    case True
    then have ne: "mapping c \<noteq> []" using less.prems accounted_empty_not_over by blast
    have "length (mapping (remove (oldest c) c)) < length (mapping c)"
      using length_mdel [OF oldest_mem [OF ne]] by (simp add: mapping_remove)
    then obtain c' where "evict (remove (oldest c) c) = Some c'" "cache_inv c'" "shrinks (remove (oldest c) c) c'"
      using less.hyps accounted_remove [OF less.prems] by blast
    then show ?thesis using True shrinks_trans [OF shrinks_remove]
      by (subst evict.simps) auto
  next
    case False
    then show ?thesis using less.prems by (subst evict.simps) (simp add: cache_inv_def)
  qed
qed

text \<open>\<open>e\<close> is stored under \<open>k\<close>, is newer than the rest, and fits alone.\<close>

definition newest :: "string \<Rightarrow> 'e stored \<Rightarrow> 'e cache \<Rightarrow> bool" where
  "newest k e c \<longleftrightarrow> (k, e) \<in> set (mapping c) \<and> [] \<notin> fst ` set (mapping c)
     \<and> (\<forall>p\<in>set (mapping c). fst p \<noteq> k \<longrightarrow> st_time (snd p) < st_time e)
     \<and> 1 \<le> maxEntries c \<and> st_weight e \<le> maxWeight c"

lemma newest_alone: "accounted c \<Longrightarrow> newest k e c \<Longrightarrow> \<forall>p\<in>set (mapping c). fst p = k \<Longrightarrow> \<not> over c"
proof -
  assume a: "accounted c" "newest k e c" "\<forall>p\<in>set (mapping c). fst p = k"
  then have "mapping c = [(k, e)]"
    by (cases "mapping c"; cases "tl (mapping c)") (auto simp: accounted_def newest_def)
  then show ?thesis using a by (simp add: over_def accounted_def newest_def total_def)
qed

lemma evict_newest:
  "accounted c \<Longrightarrow> newest k e c \<Longrightarrow> evict c = Some c' \<Longrightarrow> (k, e) \<in> set (mapping c')"
proof (induction "length (mapping c)" arbitrary: c rule: less_induct)
  case less
  show ?case
  proof (cases "over c")
    case True
    then have ne: "mapping c \<noteq> []" using less.prems(1) accounted_empty_not_over by blast
    have wf: "wf_map (mapping c)" and "[] \<notin> fst ` set (mapping c)"
      using less.prems by (auto simp: accounted_def newest_def)
    then obtain o' where o': "map_of (mapping c) (oldest c) = Some o'"
        "\<forall>p\<in>set (mapping c). st_time o' \<le> st_time (snd p)"
      using oldest_min ne by blast
    obtain p where p: "p \<in> set (mapping c)" "fst p \<noteq> k"
      using newest_alone [OF less.prems(1,2)] True by blast
    have "oldest c \<noteq> k"
    proof
      assume "oldest c = k"
      then have "o' = e"
        using o'(1) map_of_is_SomeI [OF wf, of k e] less.prems(2) by (simp add: newest_def)
      then show False using o'(2) p less.prems(2) by (fastforce simp: newest_def)
    qed
    then have "newest k e (remove (oldest c) c)"
      using less.prems(2) by (auto simp: newest_def mapping_remove mdel_mem)
    moreover have "length (mapping (remove (oldest c) c)) < length (mapping c)"
      using length_mdel [OF oldest_mem [OF ne]] by (simp add: mapping_remove)
    moreover have "evict (remove (oldest c) c) = Some c'"
      using less.prems(3) True by (subst (asm) evict.simps) simp
    ultimately show ?thesis using less.hyps accounted_remove [OF less.prems(1)] by blast
  next
    case False
    then show ?thesis using less.prems(2,3) by (subst (asm) evict.simps) (simp add: newest_def)
  qed
qed

section \<open>The operations\<close>

lemma accounted_nextCleanup [simp]: "accounted (c\<lparr>nextCleanup := n\<rparr>) = accounted c"
  by (simp add: accounted_def)

lemma accounted_wf [simp]: "accounted c \<Longrightarrow> wf_map (mapping c)"
  by (simp add: accounted_def)

lemma accounted_clean [inv_intros]: "accounted c \<Longrightarrow> accounted (clean now c)"
  by (simp add: clean_def accounted_removeOlderThan)

lemma clean_mapping:
  "wf_map (mapping c) \<Longrightarrow>
     mapping (clean now c) = (if nextCleanup c < now
        then filter (\<lambda>p. now - duration c \<le> st_time (snd p)) (mapping c) else mapping c)"
  by (simp add: clean_def removeOlderThan_mapping)

lemma clean_params [simp]:
  "duration (clean now c) = duration c" "maxEntries (clean now c) = maxEntries c"
  "maxWeight (clean now c) = maxWeight c"
  "nextCleanup (clean now c) = (if nextCleanup c < now then now + seconds 5 else nextCleanup c)"
  by (simp_all add: clean_def)

lemma total_filter_le:
  "\<forall>p\<in>set m. 0 \<le> st_weight (snd p) \<Longrightarrow> total (filter P m) \<le> total m"
  by (induction m) (auto simp: total_def)

lemma cache_inv_clean [inv_intros]:
  assumes "cache_inv c"
  shows "cache_inv (clean now c)"
proof -
  have a: "accounted c" "\<forall>p\<in>set (mapping c). 0 \<le> st_weight (snd p)"
    using assms by (auto simp: cache_inv_def accounted_def)
  have b: "accounted (clean now c)" by (rule accounted_clean [OF a(1)])
  have "int (length (mapping (clean now c))) \<le> int (length (mapping c))"
    using a by (simp add: clean_mapping)
  moreover have "total (mapping (clean now c)) \<le> total (mapping c)"
    using a by (simp add: clean_mapping total_filter_le)
  ultimately show ?thesis using assms a b by (auto simp: cache_inv_def over_def accounted_def)
qed

text \<open>The state in which \<open>Set\<close> enters its loop.\<close>

definition stored_in :: "int \<times> int \<Rightarrow> string \<Rightarrow> 'e \<Rightarrow> int \<Rightarrow> 'e cache \<Rightarrow> 'e cache" where
  "stored_in = (\<lambda>(now1, now2) key val weight c0.
     let c = remove key c0;
         c1 = c\<lparr>mapping := mput key \<lparr>st_entry = val, st_time = now1, st_weight = weight\<rparr> (mapping c),
                cweight := i64 (cweight c + weight)\<rparr>
     in if over c1 then removeOlderThan (now2 - duration c1) c1 else c1)"

lemma Set_cases:
  "Set t key val weight c =
     (if weight > maxWeight c then Some (remove key c) else evict (stored_in t key val weight c))"
  by (cases t) (simp add: Set_def stored_in_def Let_def)

lemma not_over_remove: "accounted c \<Longrightarrow> \<not> over c \<Longrightarrow> \<not> over (remove k c)"
proof (cases "map_of (mapping c) k")
  case (Some v)
  assume a: "accounted c" and o: "\<not> over c"
  then have "0 \<le> st_weight v" using map_of_SomeD [OF Some] by (auto simp: accounted_def)
  then have "total (mdel k (mapping c)) \<le> total (mapping c)"
    using total_mdel [OF _ Some] a by (simp add: accounted_def)
  moreover have "length (mdel k (mapping c)) \<le> length (mapping c)" by (simp add: mdel_code)
  ultimately show ?thesis
    using a o accounted_remove [OF a, of k] by (simp add: over_def accounted_def mapping_remove)
qed (simp add: remove_def)

lemma accounted_stored_in:
  assumes "cache_inv c" "0 \<le> weight" "weight \<le> maxWeight c"
  shows "accounted (stored_in t key val weight c)"
proof -
  let ?c = "remove key c"
  have a: "accounted ?c" "\<not> over ?c"
    using assms accounted_remove not_over_remove by (auto simp: cache_inv_def)
  have n: "map_of (mapping ?c) key = None" by (simp add: mapping_remove map_of_mdel)
  have "cweight ?c + weight < 2 ^ 63" "0 \<le> cweight ?c"
    using a assms(2,3) total_nonneg [of "mapping ?c"] by (auto simp: over_def accounted_def)
  then have "accounted (?c\<lparr>mapping := mput key \<lparr>st_entry = val, st_time = now, st_weight = weight\<rparr> (mapping ?c),
                cweight := i64 (cweight ?c + weight)\<rparr>)" for now
    using a assms(2) n by (auto simp: accounted_def total_mput_new dest!: mput_mem)
  then show ?thesis
    by (cases t) (auto simp: stored_in_def Let_def intro: accounted_removeOlderThan)
qed

lemma stored_in_params [simp]:
  "nextCleanup (stored_in t key val weight c) = nextCleanup c" "duration (stored_in t key val weight c) = duration c"
  "maxEntries (stored_in t key val weight c) = maxEntries c" "maxWeight (stored_in t key val weight c) = maxWeight c"
  by (cases t; simp add: stored_in_def Let_def)+

lemma stored_in_mem:
  "accounted c \<Longrightarrow> p \<in> set (mapping (stored_in (now1, now2) key val weight c)) \<Longrightarrow>
     p = (key, \<lparr>st_entry = val, st_time = now1, st_weight = weight\<rparr>) \<or> (p \<in> set (mapping c) \<and> fst p \<noteq> key)"
  using accounted_wf [OF accounted_remove, of c key]
  by (auto simp: stored_in_def Let_def removeOlderThan_mapping mapping_remove mdel_mem
      split: if_splits dest!: mput_mem)

lemma stored_in_new:
  assumes "accounted c" "now2 \<le> now1 + duration c"
  shows "(key, \<lparr>st_entry = val, st_time = now1, st_weight = weight\<rparr>)
    \<in> set (mapping (stored_in (now1, now2) key val weight c))"
proof -
  have "wf_map (mapping (remove key c))" by (simp add: accounted_remove [OF assms(1)])
  moreover have "(key, v) \<in> set (mput key v m)" for v :: "'a stored" and m
    by (induction m) (auto simp: mput_code)
  ultimately show ?thesis
    using assms(2) by (auto simp: stored_in_def Let_def removeOlderThan_mapping)
qed

lemma Set_total:
  assumes "cache_inv c" "0 \<le> weight"
  shows "\<exists>c'. Set t key val weight c = Some c' \<and> cache_inv c'"
proof (cases "weight > maxWeight c")
  case True
  then show ?thesis
    using assms accounted_remove not_over_remove by (auto simp: Set_cases cache_inv_def)
next
  case False
  then show ?thesis
    using evict_total accounted_stored_in [OF assms] by (simp add: Set_cases) blast
qed

lemma Set_mem:
  assumes "cache_inv c" "0 \<le> weight" "Set (now1, now2) key val weight c = Some c'" "p \<in> set (mapping c')"
  shows "p = (key, \<lparr>st_entry = val, st_time = now1, st_weight = weight\<rparr>) \<or> (p \<in> set (mapping c) \<and> fst p \<noteq> key)"
proof (cases "weight > maxWeight c")
  case True
  then show ?thesis using assms(3,4) by (auto simp: Set_cases mapping_remove mdel_mem)
next
  case False
  have "p \<in> set (mapping (stored_in (now1, now2) key val weight c))"
    using evict_total [OF accounted_stored_in [OF assms(1,2)]] False assms(3,4)
    by (fastforce simp: Set_cases shrinks_def)
  then show ?thesis using stored_in_mem [of c p now1 now2 key val weight] assms(1) by (simp add: cache_inv_def)
qed

lemma Set_params:
  assumes "cache_inv c" "0 \<le> weight" "Set t key val weight c = Some c'"
  shows "nextCleanup c' = nextCleanup c" "duration c' = duration c"
    "maxEntries c' = maxEntries c" "maxWeight c' = maxWeight c"
proof -
  have "weight \<le> maxWeight c \<Longrightarrow> shrinks (stored_in t key val weight c) c'"
    using evict_total [OF accounted_stored_in [OF assms(1,2)], of t key val] assms(3) by (auto simp: Set_cases)
  then show "nextCleanup c' = nextCleanup c" "duration c' = duration c"
    "maxEntries c' = maxEntries c" "maxWeight c' = maxWeight c"
    using assms(3) by (auto simp: Set_cases shrinks_def split: if_splits)
qed

section \<open>The cache keeps its contract\<close>

text \<open>What the cache gives back for a key.\<close>

definition cached :: "'e cache \<Rightarrow> string \<Rightarrow> 'e option" where
  "cached c k = (if cache_inv c then map_option st_entry (map_of (mapping c) k) else None)"

text \<open>The operations with the duty of the callers: an entry that does not weigh less than nothing.\<close>

definition put_checked :: "(int \<times> int) \<times> nat \<Rightarrow> string \<Rightarrow> 'e \<Rightarrow> 'e cache \<Rightarrow> 'e cache option" where
  "put_checked = (\<lambda>(t, weight) k v c. if cache_inv c then Set t k v (int weight) c else None)"

definition get_checked :: "int \<Rightarrow> string \<Rightarrow> 'e cache \<Rightarrow> 'e option \<times> 'e cache" where
  "get_checked now k c = (if cache_inv c then Get now k c else (None, c))"

lemma map_of_subset:
  "wf_map m \<Longrightarrow> wf_map m' \<Longrightarrow> set m' \<subseteq> set m \<Longrightarrow> map_of m' k = None \<or> map_of m' k = map_of m k"
  by (cases "map_of m' k") (auto dest!: map_of_SomeD)

lemma cache_inv_wf [simp]: "cache_inv c \<Longrightarrow> wf_map (mapping c)"
  by (simp add: cache_inv_def)

lemma Get_lookup:
  assumes "cache_inv c" "Get now k c = (r, c')"
  shows "cache_inv c'" "r = map_option st_entry (map_of (mapping c') k)"
    "map_of (mapping c') j = None \<or> map_of (mapping c') j = map_of (mapping c) j"
proof -
  have c': "c' = clean now c" using assms(2) by (auto simp: Get_def Let_def)
  then show i: "cache_inv c'" using assms(1) by (simp add: cache_inv_clean)
  show "r = map_option st_entry (map_of (mapping c') k)" using assms(2) by (auto simp: Get_def Let_def)
  have "set (mapping c') \<subseteq> set (mapping c)" using c' assms(1) by (auto simp: clean_mapping)
  then show "map_of (mapping c') j = None \<or> map_of (mapping c') j = map_of (mapping c) j"
    using map_of_subset i assms(1) by (metis cache_inv_wf)
qed

lemma Set_lookup:
  assumes "cache_inv c" "0 \<le> weight" "Set (now1, now2) key val weight c = Some c'"
  shows "map_of (mapping c') j = None \<or> map_of (mapping c') j
    = (if j = key then Some \<lparr>st_entry = val, st_time = now1, st_weight = weight\<rparr> else map_of (mapping c) j)"
proof (cases "map_of (mapping c') j")
  case (Some e)
  from Set_mem [OF assms map_of_SomeD [OF Some]] show ?thesis using Some assms(1) by auto
qed simp

interpretation cc: lossy_cache cached get_checked put_checked
proof unfold_locales
  fix t k and s s' :: "'a cache" and r j
  assume g: "get_checked t k s = (r, s')"
  show "r = cached s' k"
    using g Get_lookup(1,2) [of s t k r s'] by (auto simp: get_checked_def cached_def split: if_splits)
  show "cached s' j = None \<or> cached s' j = cached s j"
    using g Get_lookup(1) [of s t k r s'] Get_lookup(3) [of s t k r s' j]
    by (auto simp: get_checked_def cached_def split: if_splits)
next
  fix x k v and s s' :: "'a cache" and j
  assume p: "put_checked x k v s = Some s'"
  obtain now1 now2 w where x: "x = ((now1, now2), w)" by (metis prod.exhaust)
  have s: "cache_inv s" "Set (now1, now2) k v (int w) s = Some s'"
    using p x by (auto simp: put_checked_def split: if_splits)
  show "cached s' k = None \<or> cached s' k = Some v"
    using Set_lookup [OF s(1) _ s(2), of k] by (auto simp: cached_def)
  show "j \<noteq> k \<Longrightarrow> cached s' j = None \<or> cached s' j = cached s j"
    using Set_lookup [OF s(1) _ s(2), of j] s(1) by (auto simp: cached_def)
qed

section \<open>Runs of the cache\<close>

text \<open>
  Every sequence of operations after \<open>NewCache\<close>, each at a time not before the previous one (the
  mutex orders them). The first argument is the clock.
\<close>

inductive cache_run :: "int \<Rightarrow> int \<Rightarrow> int \<Rightarrow> int \<Rightarrow> 'e cache \<Rightarrow> bool" for dur maxE maxW :: int where
  run_new: "cache_run dur maxE maxW now (NewCache dur maxE maxW now)"
| run_get: "cache_run dur maxE maxW t c \<Longrightarrow> t \<le> now \<Longrightarrow> cache_run dur maxE maxW now (snd (Get now key c))"
| run_set: "cache_run dur maxE maxW t c \<Longrightarrow> t \<le> now1 \<Longrightarrow> now1 \<le> now2 \<Longrightarrow> 0 \<le> weight \<Longrightarrow>
     Set (now1, now2) key val weight c = Some c' \<Longrightarrow> cache_run dur maxE maxW now2 c'"

definition valid_caps :: "int \<Rightarrow> int \<Rightarrow> int \<Rightarrow> bool" where
  "valid_caps dur maxE maxW \<longleftrightarrow> 0 \<le> dur \<and> 0 \<le> maxE \<and> 0 \<le> maxW \<and> maxW < 2 ^ 62"

definition run_inv :: "int \<Rightarrow> int \<Rightarrow> int \<Rightarrow> int \<Rightarrow> 'e cache \<Rightarrow> bool" where
  "run_inv dur maxE maxW t c \<longleftrightarrow> cache_inv c \<and> duration c = dur \<and> maxEntries c = maxE \<and> maxWeight c = maxW
     \<and> nextCleanup c \<le> t + seconds 5
     \<and> (\<forall>p\<in>set (mapping c). nextCleanup c - seconds 5 - dur \<le> st_time (snd p))"

lemma run_inv_new: "valid_caps dur maxE maxW \<Longrightarrow> run_inv dur maxE maxW now (NewCache dur maxE maxW now)"
  by (auto simp: run_inv_def NewCache_def cache_inv_def accounted_def over_def total_def valid_caps_def)

lemma seconds_pos [simp]: "0 < seconds 5" by (simp add: seconds_def)

lemma run_inv_clean: "run_inv dur maxE maxW t c \<Longrightarrow> t \<le> now \<Longrightarrow> run_inv dur maxE maxW now (clean now c)"
  using seconds_pos by (auto simp: run_inv_def clean_mapping intro: cache_inv_clean)

lemma run_inv_set:
  assumes "run_inv dur maxE maxW t c" "t \<le> now1" "now1 \<le> now2" "0 \<le> weight" "0 \<le> dur"
    "Set (now1, now2) key val weight c = Some c'"
  shows "run_inv dur maxE maxW now2 c'"
proof -
  have i: "cache_inv c" using assms(1) by (simp add: run_inv_def)
  have "cache_inv c'" using Set_total [OF i assms(4), of "(now1, now2)" key val] assms(6) by auto
  moreover have "nextCleanup c' - seconds 5 - dur \<le> st_time (snd p)" if "p \<in> set (mapping c')" for p
    using Set_mem [OF i assms(4,6) that] Set_params [OF i assms(4,6)] assms(1,2,5)
    by (auto simp: run_inv_def)
  ultimately show ?thesis
    using Set_params [OF i assms(4,6)] assms(1,2,3) by (auto simp: run_inv_def)
qed

lemma cache_run_inv:
  assumes "cache_run dur maxE maxW t c" "valid_caps dur maxE maxW"
  shows "run_inv dur maxE maxW t c"
  using assms
proof (induction rule: cache_run.induct)
  case (run_get t c now key)
  then show ?case by (simp add: Get_def Let_def run_inv_clean)
next
  case (run_set t c now1 now2 weight key val c')
  then show ?case using run_inv_set by (auto simp: valid_caps_def)
qed (rule run_inv_new)

section \<open>Properties\<close>

text \<open>C12: in every run of the cache, \<open>Set\<close> returns (its eviction loop ends) whatever the map
  iteration order gives as the oldest, and after it neither cap is exceeded, the weight the cache
  counts in 64 bits being the exact sum of the weights of its entries.\<close>

theorem Set_returns_bounded:
  assumes "cache_run dur maxE maxW t c" "valid_caps dur maxE maxW" "0 \<le> weight"
  shows "\<exists>c'. Set (now1, now2) key val weight c = Some c'
    \<and> int (length (mapping c')) \<le> maxE \<and> cweight c' \<le> maxW \<and> cweight c' = total (mapping c')"
proof -
  have r: "run_inv dur maxE maxW t c" by (rule cache_run_inv [OF assms(1,2)])
  then have i: "cache_inv c" by (simp add: run_inv_def)
  obtain c' where c': "Set (now1, now2) key val weight c = Some c'" "cache_inv c'"
    using Set_total [OF i assms(3), of "(now1, now2)" key val] by blast
  have "maxEntries c' = maxE" "maxWeight c' = maxW"
    using Set_params(3,4) [OF i assms(3) c'(1)] r by (simp_all add: run_inv_def)
  moreover have "\<not> over c'" "cweight c' = total (mapping c')"
    using c'(2) unfolding cache_inv_def accounted_def by blast+
  ultimately show ?thesis using c'(1) by (auto simp: over_def)
qed

theorem Set_returns_bounded_witness:
  "\<exists>c'. Set (7, 8) ''a'' True 3 (NewCache 10 1 5 0) = Some c'
    \<and> int (length (mapping c')) \<le> 1 \<and> cweight c' \<le> 5 \<and> cweight c' = total (mapping c')"
  by (rule Set_returns_bounded [OF run_new]) (simp_all add: valid_caps_def)

text \<open>C13: in every run, what \<open>Get\<close> returns is what was stored under the key, and it was stored at
  most the configured duration and five seconds ago: the clean-up that is only tried every five seconds never
  lets an entry live longer than that.\<close>

theorem Get_fresh:
  assumes "cache_run dur maxE maxW t c" "valid_caps dur maxE maxW" "t \<le> now"
    and "fst (Get now key c) = Some val"
  shows "\<exists>e. map_of (mapping c) key = Some e \<and> st_entry e = val \<and> now - st_time e \<le> dur + seconds 5"
proof -
  have r: "run_inv dur maxE maxW now (clean now c)"
    using cache_run_inv [OF assms(1,2)] run_inv_clean assms(3) by blast
  have i: "cache_inv c" using cache_run_inv [OF assms(1,2)] by (simp add: run_inv_def)
  obtain e where e: "map_of (mapping (clean now c)) key = Some e" "st_entry e = val"
    using assms(4) by (auto simp: Get_def Let_def)
  have "now - st_time e \<le> dur + seconds 5"
  proof -
    have "nextCleanup (clean now c) - seconds 5 - dur \<le> st_time e"
      using r map_of_SomeD [OF e(1)] by (force simp only: run_inv_def snd_conv)
    then show ?thesis by (auto simp: seconds_def split: if_splits)
  qed
  moreover have "map_of (mapping c) key = Some e"
    using Get_lookup(3) [OF i, of now key _ "clean now c" key] e(1) by (simp add: Get_def Let_def)
  ultimately show ?thesis using e(2) by blast
qed

theorem Get_fresh_witness:
  "\<exists>e. map_of (mapping (the (Set (7, 8) ''a'' True 3 (NewCache 10 1 5 0)))) ''a'' = Some e \<and> st_entry e = True
     \<and> 9 - st_time e \<le> 10 + seconds 5"
proof -
  have s: "Set (7, 8) ''a'' True 3 (NewCache 10 1 5 0)
    = Some \<lparr>mapping = [(''a'', \<lparr>st_entry = True, st_time = 7, st_weight = 3\<rparr>)], cweight = 3,
            nextCleanup = seconds 5, duration = 10, maxEntries = 1, maxWeight = 5\<rparr>"
    by (simp add: Set_def NewCache_def remove_def over_def mput_code evict.simps)
  show ?thesis unfolding s option.sel
    by (rule Get_fresh [OF run_set [OF run_new _ _ _ s]])
      (simp_all add: valid_caps_def Get_def clean_def seconds_def)
qed

text \<open>An entry that is not heavier than the cache can be got back after \<open>Set\<close>, as long as it has not
  expired when \<open>Set\<close> looks for expired entries and is newer than every other: only older entries are
  evicted for it. It is then served until it expires.\<close>

theorem Set_then_Get:
  assumes "cache_run dur maxE maxW t c" "valid_caps dur maxE maxW" "1 \<le> maxE"
    and "0 \<le> weight" "weight \<le> maxW" "key \<noteq> ''''" "'''' \<notin> fst ` set (mapping c)"
    and "\<forall>p\<in>set (mapping c). st_time (snd p) < now1" "now2 \<le> now1 + dur" "now \<le> now1 + dur"
  shows "\<exists>c'. Set (now1, now2) key val weight c = Some c' \<and> fst (Get now key c') = Some val"
proof -
  let ?e = "\<lparr>st_entry = val, st_time = now1, st_weight = weight\<rparr>"
  let ?s = "stored_in (now1, now2) key val weight c"
  have r: "cache_inv c" "duration c = dur" "maxEntries c = maxE" "maxWeight c = maxW"
    using cache_run_inv [OF assms(1,2)] by (simp_all add: run_inv_def)
  have a: "accounted ?s" using accounted_stored_in [OF r(1) assms(4)] r(4) assms(5) by simp
  have "newest key ?e ?s"
    unfolding newest_def
  proof (intro conjI ballI impI notI)
    show "(key, ?e) \<in> set (mapping ?s)" using stored_in_new [of c now2 now1 key val weight] r assms(9)
      by (simp add: cache_inv_def)
    show "'''' \<in> fst ` set (mapping ?s) \<Longrightarrow> False"
      using stored_in_mem [of c _ now1 now2 key val weight] r(1) assms(6,7) by (force simp: cache_inv_def)
    show "p \<in> set (mapping ?s) \<Longrightarrow> fst p \<noteq> key \<Longrightarrow> st_time (snd p) < st_time ?e" for p
      using stored_in_mem [of c p now1 now2 key val weight] r(1) assms(8) by (auto simp: cache_inv_def)
  qed (use r assms(3,5) in simp_all)
  moreover obtain c' where c': "evict ?s = Some c'" "cache_inv c'" "shrinks ?s c'" using evict_total [OF a] by blast
  ultimately have "(key, ?e) \<in> set (mapping c')" using evict_newest [OF a] by blast
  moreover have "duration c' = dur" using c'(3) r by (simp add: shrinks_def)
  ultimately have "(key, ?e) \<in> set (mapping (clean now c'))" using c'(2) assms(10) by (simp add: clean_mapping)
  then have "map_of (mapping (clean now c')) key = Some ?e"
    using map_of_is_SomeI cache_inv_clean [OF c'(2)] by (metis cache_inv_wf)
  moreover have "Set (now1, now2) key val weight c = Some c'" using c'(1) r assms(5) by (simp add: Set_cases)
  ultimately show ?thesis by (simp add: Get_def Let_def)
qed

theorem Set_then_Get_witness:
  "\<exists>c'. Set (7, 8) ''a'' True 3 (NewCache 10 1 5 0) = Some c' \<and> fst (Get 17 ''a'' c') = Some True"
  by (rule Set_then_Get [OF run_new]) (simp_all add: valid_caps_def NewCache_def)

end
