(* ===== verification/Api.thy ===== *)
theory Api
  imports Values
begin

text \<open>
  \<open>api/v1alpha1\<close>: the resources of KuboCD as the Go structs declare them. A \<open>*T\<close> is an option, an
  \<open>apiextensionsv1.JSON\<close> is its raw text, a \<open>metav1.Duration\<close> is a number of nanoseconds, and of the
  Kubernetes metadata the fields that the code reads are kept. The structs of Flux that the code only
  copies (a reference to a secret, a verification) are values.
\<close>

section \<open>Common types\<close>

record NamespacedName =
  Namespace :: string
  Name :: string

definition nn_String :: "NamespacedName \<Rightarrow> string" where
  "nn_String n = Namespace n @ '':'' @ Name n"

definition nn_IsNil :: "NamespacedName \<Rightarrow> bool" where
  "nn_IsNil n \<longleftrightarrow> Namespace n = '''' \<and> Name n = ''''"

text \<open>\<open>types.NamespacedName\<close> of Kubernetes prints with a slash.\<close>

definition key_String :: "NamespacedName \<Rightarrow> string" where
  "key_String n = Namespace n @ ''/'' @ Name n"

definition FlattenNamespacedNames :: "NamespacedName list \<Rightarrow> string" where
  "FlattenNamespacedNames nsa = Join '','' (map nn_String nsa)"

datatype Kind = KindConnection | KindClusterConnection | KindContract | KindClusterContract

type_synonym JSON = string
type_synonym Duration = int

record OwnerReference =
  or_APIVersion :: string
  or_Kind :: string
  or_Name :: string
  or_UID :: string
  or_Controller :: bool

record ObjectMeta =
  om_Name :: string
  om_Namespace :: string
  om_UID :: string
  om_Generation :: int
  om_ResourceVersion :: string
  om_Labels :: "(string \<times> string) list"
  om_Annotations :: "(string \<times> string) list"
  om_Finalizers :: "string list"
  om_OwnerReferences :: "OwnerReference list"
  om_DeletionTimestamp :: "int option"

record OciAddOn =
  oa_Provider :: string
  oa_SecretRef :: "string option"
  oa_Verify :: "gval option"
  oa_ServiceAccountName :: string
  oa_CertSecretRef :: "string option"
  oa_ProxySecretRef :: "string option"
  oa_Ignore :: "string option"
  oa_Insecure :: bool
  oa_Suspend :: bool

definition zero_OciAddOn :: OciAddOn where
  "zero_OciAddOn = \<lparr>oa_Provider = '''', oa_SecretRef = None, oa_Verify = None, oa_ServiceAccountName = '''',
     oa_CertSecretRef = None, oa_ProxySecretRef = None, oa_Ignore = None, oa_Insecure = False, oa_Suspend = False\<rparr>"

section \<open>Config\<close>

record PackageRedirectSpec =
  pr_OldPrefix :: string
  pr_NewPrefix :: string
  pr_OciAddOn :: OciAddOn
  pr_Interval :: Duration
  pr_Timeout :: "Duration option"

record ImageRedirectSpec =
  ir_OldPrefix :: string
  ir_NewPrefix :: string
  ir_ImagePullPolicy :: string
  ir_ImagePullSecrets :: "string list"

record OnFailureStrategySpec =
  os_Name :: string
  os_Strategy :: "JSON option"

record ConfigSpec =
  cs_PackageRedirects :: "PackageRedirectSpec list"
  cs_ImageRedirects :: "ImageRedirectSpec list"
  cs_ClusterRoles :: "string list"
  cs_DefaultContexts :: "NamespacedName list"
  cs_DefaultNamespaceContexts :: "string list"
  cs_OnFailureStrategies :: "OnFailureStrategySpec list"
  cs_DefaultOnFailureStrategy :: string
  cs_DefaultHelmTimeout :: "Duration option"
  cs_DefaultHelmInterval :: "Duration option"
  cs_DefaultPackageInterval :: "Duration option"
  cs_SpecPatch :: "JSON option"

record Config =
  cf_meta :: ObjectMeta
  cf_Spec :: ConfigSpec

section \<open>Release\<close>

record PackageSourceSpec =
  ps_Repository :: string
  ps_Tag :: string
  ps_OciAddOn :: OciAddOn
  ps_Interval :: Duration
  ps_Timeout :: "Duration option"

record ModuleOverrideSpec =
  mo_Module :: string
  mo_SpecPatch :: "JSON option"
  mo_OnFailureStrategy :: string
  mo_Timeout :: "Duration option"
  mo_Interval :: "Duration option"

record ReleaseDebug =
  rd_DumpContext :: bool
  rd_DumpParameters :: bool

record ReleaseSpec =
  rs_Description :: string
  rs_Package :: PackageSourceSpec
  rs_Contexts :: "NamespacedName list"
  rs_Suspended :: bool
  rs_Protected :: "bool option"
  rs_Parameters :: "JSON option"
  rs_ModuleOverrides :: "ModuleOverrideSpec list"
  rs_CreateNamespace :: bool
  rs_TargetNamespace :: string
  rs_Roles :: "string list"
  rs_Dependencies :: "string list"
  rs_SkipDefaultContext :: bool
  rs_Debug :: "ReleaseDebug option"

datatype ReleasePhase =
    ReleasePhaseNone | ReleasePhaseReady | ReleasePhaseError | ReleasePhaseWaitOci
  | ReleasePhaseWaitHelmRepo | ReleasePhaseWaitHelmReleases | ReleasePhaseWaitOutputConnections
  | ReleasePhaseWaitDependencies | ReleasePhaseWaitInputConnections | ReleasePhaseSuspended
  | ReleasePhaseWaitConditions

datatype ConditionStatus = ConditionTrue | ConditionFalse | ConditionUnknown | ConditionUnset

record HelmReleaseState =
  hs_Ready :: ConditionStatus
  hs_Status :: string

datatype ConnectionPhase = ConnectionPhaseNone | ConnectionPhaseReady | ConnectionPhaseError

record InputConnectionReference =
  ic_Kind :: Kind
  ic_Name :: string
  ic_Namespace :: string

record ReleaseOutputConnection =
  oc_Kind :: Kind
  oc_Name :: string
  oc_Namespace :: string
  oc_Phase :: ConnectionPhase
  oc_Message :: string

record ReleaseStatus =
  st_Phase :: ReleasePhase
  st_PrintContexts :: string
  st_PrintDescription :: string
  st_Context :: "JSON option"
  st_Parameters :: "JSON option"
  st_Usage :: "(string \<times> string) list"
  st_Protected :: bool
  st_PrintProtected :: string
  st_HelmReleaseStates :: "(string \<times> HelmReleaseState) list"
  st_ReadyReleases :: string
  st_OutputConnectionByName :: "(string \<times> ReleaseOutputConnection) list"
  st_ReadyOutputConnections :: string
  st_Dependencies :: "string list"
  st_Roles :: "string list"
  st_Message :: string
  st_WatchedInputConnections :: "InputConnectionReference list"
  st_EffectiveInputConnections :: "InputConnectionReference list"

record Release =
  rl_meta :: ObjectMeta
  rl_Spec :: ReleaseSpec
  rl_Status :: ReleaseStatus

section \<open>Context\<close>

record ContextSpec =
  xs_Description :: string
  xs_Abstract :: bool
  xs_Parents :: "NamespacedName list"
  xs_Protected :: bool
  xs_Context :: "JSON option"

datatype ContextPhase = ContextPhaseNone | ContextPhaseReady | ContextPhaseError

record ContextStatus =
  xt_Phase :: ContextPhase
  xt_Parents :: string
  xt_Context :: "JSON option"

record Context =
  cx_meta :: ObjectMeta
  cx_Spec :: ContextSpec
  cx_Status :: ContextStatus

section \<open>Connections and contracts\<close>

text \<open>
  \<open>Connection\<close> and \<open>ClusterConnection\<close> differ by their parent reference; the code reads both through
  \<open>ConnectionFacade\<close>.
\<close>

record ParentReleaseRef =
  pf_Name :: string
  pf_Namespace :: string

record ConnectionSpec =
  ns_Contract :: string
  ns_Priority :: int
  ns_Values :: "JSON option"
  ns_OutputName :: string
  ns_Description :: string

record ConnectionStatus =
  nt_Phase :: ConnectionPhase
  nt_Parent :: string
  nt_Message :: string
  nt_ContractGeneration :: int
  nt_ContractKind :: "Kind option"
  nt_ContractDisplay :: string

record Connection =
  cn_meta :: ObjectMeta
  cn_Spec :: ConnectionSpec
  cn_Status :: ConnectionStatus

record ClusterConnectionSpec =
  ks_ParentRelease :: "ParentReleaseRef option"
  ks_Contract :: string
  ks_Priority :: int
  ks_Values :: "JSON option"
  ks_OutputName :: string
  ks_Description :: string

record ClusterConnectionStatus =
  kt_Phase :: ConnectionPhase
  kt_Parent :: string
  kt_Message :: string
  kt_ContractGeneration :: int

record ClusterConnection =
  kn_meta :: ObjectMeta
  kn_Spec :: ClusterConnectionSpec
  kn_Status :: ClusterConnectionStatus

datatype ConnectionFacade = CConnection Connection | CClusterConnection ClusterConnection

fun cnx_GetKind :: "ConnectionFacade \<Rightarrow> Kind" where
  "cnx_GetKind (CConnection _) = KindConnection"
| "cnx_GetKind (CClusterConnection _) = KindClusterConnection"

fun cnx_meta :: "ConnectionFacade \<Rightarrow> ObjectMeta" where
  "cnx_meta (CConnection c) = cn_meta c"
| "cnx_meta (CClusterConnection c) = kn_meta c"

fun cnx_GetValuesRaw :: "ConnectionFacade \<Rightarrow> JSON option" where
  "cnx_GetValuesRaw (CConnection c) = ns_Values (cn_Spec c)"
| "cnx_GetValuesRaw (CClusterConnection c) = ks_Values (kn_Spec c)"

fun cnx_GetContract :: "ConnectionFacade \<Rightarrow> string" where
  "cnx_GetContract (CConnection c) = ns_Contract (cn_Spec c)"
| "cnx_GetContract (CClusterConnection c) = ks_Contract (kn_Spec c)"

fun cnx_GetOutputName :: "ConnectionFacade \<Rightarrow> string" where
  "cnx_GetOutputName (CConnection c) = ns_OutputName (cn_Spec c)"
| "cnx_GetOutputName (CClusterConnection c) = ks_OutputName (kn_Spec c)"

fun cnx_GetPriority :: "ConnectionFacade \<Rightarrow> int" where
  "cnx_GetPriority (CConnection c) = ns_Priority (cn_Spec c)"
| "cnx_GetPriority (CClusterConnection c) = ks_Priority (kn_Spec c)"

fun cnx_GetStatusPhase :: "ConnectionFacade \<Rightarrow> ConnectionPhase" where
  "cnx_GetStatusPhase (CConnection c) = nt_Phase (cn_Status c)"
| "cnx_GetStatusPhase (CClusterConnection c) = kt_Phase (kn_Status c)"

datatype ContractPhase = ContractPhaseNone | ContractPhaseReady | ContractPhaseError

record ContractSpec =
  ts_Schema :: "JSON option"
  ts_Description :: string

record ContractStatus =
  tt_Phase :: ContractPhase
  tt_Message :: string

text \<open>\<open>Contract\<close> and \<open>ClusterContract\<close> have the same fields: one record, and the kind beside it.\<close>

record Contract =
  ct_Kind :: Kind
  ct_meta :: ObjectMeta
  ct_Spec :: ContractSpec
  ct_Status :: ContractStatus

definition contract_GetSchemaRaw :: "Contract \<Rightarrow> JSON option" where
  "contract_GetSchemaRaw c = ts_Schema (ct_Spec c)"

definition contract_GetStatusPhase :: "Contract \<Rightarrow> ContractPhase" where
  "contract_GetStatusPhase c = tt_Phase (ct_Status c)"

section \<open>Replication\<close>

record ReplicationSource =
  so_Kind :: string
  so_Name :: string

record ReplicationDestination =
  de_Namespace :: string
  de_Name :: string

record ReplicationSpec =
  re_Source :: ReplicationSource
  re_Destination :: ReplicationDestination

datatype ReplicationPhase = ReplicationPhaseNone | ReplicationPhaseReady | ReplicationPhaseError

record ReplicatedResource =
  rr_Kind :: string
  rr_Namespace :: string
  rr_Name :: string

record ReplicationStatus =
  rt_Phase :: ReplicationPhase
  rt_Message :: string
  rt_DestinationName :: string
  rt_Destination :: "ReplicatedResource option"

record Replication =
  rp_meta :: ObjectMeta
  rp_Spec :: ReplicationSpec
  rp_Status :: ReplicationStatus

section \<open>A Release for examples\<close>

definition sample_release :: Release where
  "sample_release =
     \<lparr>rl_meta = \<lparr>om_Name = ''r'', om_Namespace = ''n'', om_UID = '''', om_Generation = 1, om_ResourceVersion = '''',
        om_Labels = [], om_Annotations = [], om_Finalizers = [], om_OwnerReferences = [], om_DeletionTimestamp = None\<rparr>,
      rl_Spec = \<lparr>rs_Description = '''', rs_Package = \<lparr>ps_Repository = ''q.io/p'', ps_Tag = ''1'', ps_OciAddOn = zero_OciAddOn,
          ps_Interval = 0, ps_Timeout = None\<rparr>, rs_Contexts = [\<lparr>Namespace = ''n'', Name = ''c''\<rparr>], rs_Suspended = False, rs_Protected = None,
        rs_Parameters = None, rs_ModuleOverrides = [], rs_CreateNamespace = False, rs_TargetNamespace = '''', rs_Roles = [],
        rs_Dependencies = [], rs_SkipDefaultContext = False, rs_Debug = None\<rparr>,
      rl_Status = \<lparr>st_Phase = ReleasePhaseNone, st_PrintContexts = '''', st_PrintDescription = '''', st_Context = None,
        st_Parameters = None, st_Usage = [], st_Protected = False, st_PrintProtected = '''', st_HelmReleaseStates = [],
        st_ReadyReleases = '''', st_OutputConnectionByName = [], st_ReadyOutputConnections = '''', st_Dependencies = [],
        st_Roles = [], st_Message = '''', st_WatchedInputConnections = [], st_EffectiveInputConnections = []\<rparr>\<rparr>"

end
