(* ===== verification/ConfigStore.thy ===== *)
theory ConfigStore
  imports Api "HOL-Library.Word" "HOL-Library.Multiset"
begin

text \<open>
  \<open>internal/configstore\<close>: the configuration that the Config resources set, published as a whole and
  numbered. \<open>yaml.Unmarshal\<close> into a map is the parameter \<open>unmarshal\<close>, which gives \<open>None\<close> for a nil map.
  The readers return copies in Go; values are immutable here, so a copy is the value.
\<close>

section \<open>The configuration\<close>

record configuration =
  version :: "64 word"
  clusterRoles :: "(string \<times> bool) list"
  packageRedirects :: "PackageRedirectSpec list"
  imageRedirects :: "ImageRedirectSpec list"
  defaultContexts :: "NamespacedName list"
  defaultNamespaceContexts :: "string list"
  defaultOnFailureStrategy :: string
  onFailureStrategyByName :: "(string \<times> gmap option) list"
  defaultHelmTimeout :: Duration
  defaultHelmInterval :: Duration
  defaultPackageInterval :: Duration
  specPatch :: "JSON option"

datatype config_error =
    StrategyUnmarshal string string
  | DefaultStrategyTwice string string
  | DefaultStrategyUndefined string

definition minutes :: "int \<Rightarrow> Duration" where
  "minutes n = n * 60000000000"

definition empty_configuration :: configuration where
  "empty_configuration =
     \<lparr>version = 0, clusterRoles = [], packageRedirects = [], imageRedirects = [], defaultContexts = [],
      defaultNamespaceContexts = [], defaultOnFailureStrategy = '''', onFailureStrategyByName = [],
      defaultHelmTimeout = 0, defaultHelmInterval = 0, defaultPackageInterval = 0, specPatch = None\<rparr>"

definition initial_configuration :: configuration where
  "initial_configuration = empty_configuration
     \<lparr>defaultHelmTimeout := minutes 2, defaultHelmInterval := minutes 30, defaultPackageInterval := minutes 30\<rparr>"

definition addStrategy ::
  "(JSON \<Rightarrow> (string, gmap option) result) \<Rightarrow> configuration \<Rightarrow> OnFailureStrategySpec \<Rightarrow> (config_error, configuration) result" where
  "addStrategy unmarshal cfg strategy =
     (case os_Strategy strategy of
        None \<Rightarrow> Ok cfg
      | Some raw \<Rightarrow>
          (case unmarshal raw of
             Inl e \<Rightarrow> Err (StrategyUnmarshal (os_Name strategy) e)
           | Inr v \<Rightarrow> Ok (cfg\<lparr>onFailureStrategyByName := mput (os_Name strategy) v (onFailureStrategyByName cfg)\<rparr>)))"

definition setDefaultStrategy :: "string \<Rightarrow> configuration \<Rightarrow> (config_error, configuration) result" where
  "setDefaultStrategy name cfg =
     (if name = '''' then Ok cfg
      else if defaultOnFailureStrategy cfg \<noteq> '''' \<and> defaultOnFailureStrategy cfg \<noteq> name
      then Err (DefaultStrategyTwice (defaultOnFailureStrategy cfg) name)
      else Ok (cfg\<lparr>defaultOnFailureStrategy := name\<rparr>))"

definition or_else :: "'a option \<Rightarrow> 'a \<Rightarrow> 'a" where
  "or_else x d = (case x of None \<Rightarrow> d | Some v \<Rightarrow> v)"

definition setDefaults :: "ConfigSpec \<Rightarrow> configuration \<Rightarrow> configuration" where
  "setDefaults spec cfg = cfg
     \<lparr>defaultHelmTimeout := or_else (cs_DefaultHelmTimeout spec) (defaultHelmTimeout cfg),
      defaultHelmInterval := or_else (cs_DefaultHelmInterval spec) (defaultHelmInterval cfg),
      defaultPackageInterval := or_else (cs_DefaultPackageInterval spec) (defaultPackageInterval cfg),
      specPatch := (case cs_SpecPatch spec of None \<Rightarrow> specPatch cfg | Some p \<Rightarrow> Some p)\<rparr>"

text \<open>One turn of the loop over the Configs.\<close>

definition addConfig ::
  "(JSON \<Rightarrow> (string, gmap option) result) \<Rightarrow> configuration \<Rightarrow> Config \<Rightarrow> (config_error, configuration) result" where
  "addConfig unmarshal cfg config =
     (let spec = cf_Spec config;
          cfg1 = cfg\<lparr>clusterRoles := fold (\<lambda>role m. mput role True m) (cs_ClusterRoles spec) (clusterRoles cfg),
                     packageRedirects := packageRedirects cfg @ cs_PackageRedirects spec,
                     imageRedirects := imageRedirects cfg @ cs_ImageRedirects spec,
                     defaultContexts := defaultContexts cfg @ cs_DefaultContexts spec,
                     defaultNamespaceContexts := defaultNamespaceContexts cfg @ cs_DefaultNamespaceContexts spec\<rparr>
      in rbind (rfold (addStrategy unmarshal) cfg1 (cs_OnFailureStrategies spec)) (\<lambda>cfg2.
         rbind (setDefaultStrategy (cs_DefaultOnFailureStrategy spec) cfg2) (\<lambda>cfg3.
         Ok (setDefaults spec cfg3))))"

definition defaultNs :: "string \<Rightarrow> NamespacedName \<Rightarrow> NamespacedName" where
  "defaultNs ns n = (if Namespace n = '''' then n\<lparr>Namespace := ns\<rparr> else n)"

definition config_name :: "Config \<Rightarrow> string" where
  "config_name c = om_Name (cf_meta c)"

definition newConfiguration ::
  "(JSON \<Rightarrow> (string, gmap option) result) \<Rightarrow> Config list \<Rightarrow> string \<Rightarrow> (config_error, configuration) result" where
  "newConfiguration unmarshal items defaultNamespace =
     rbind (rfold (addConfig unmarshal) initial_configuration (sort_key config_name items)) (\<lambda>cfg.
       let cfg1 = cfg\<lparr>defaultContexts := map (defaultNs defaultNamespace) (defaultContexts cfg)\<rparr>
       in if defaultOnFailureStrategy cfg1 \<noteq> ''''
             \<and> (case map_of (onFailureStrategyByName cfg1) (defaultOnFailureStrategy cfg1) of
                   Some (Some _) \<Rightarrow> False | _ \<Rightarrow> True)
          then Err (DefaultStrategyUndefined (defaultOnFailureStrategy cfg1))
          else Ok cfg1)"

section \<open>The store\<close>

text \<open>The state of the store is the configuration published last, \<open>New\<close> publishing the zero value.\<close>

definition New :: configuration where
  "New = empty_configuration"

definition AddConfigs ::
  "(JSON \<Rightarrow> (string, gmap option) result) \<Rightarrow> Config list \<times> string \<Rightarrow> configuration
     \<Rightarrow> (config_error, unit) result \<times> configuration" where
  "AddConfigs unmarshal = (\<lambda>(configs, ns) current.
     (case newConfiguration unmarshal configs ns of
        Inl e \<Rightarrow> (Err e, current)
      | Inr cfg \<Rightarrow> (Ok (), cfg\<lparr>version := version current + 1\<rparr>)))"

text \<open>\<open>listed\<close> is what the API server answers to the listing of the Configs of the namespace.\<close>

definition Init ::
  "(JSON \<Rightarrow> (string, gmap option) result) \<Rightarrow> ('e, Config list) result \<Rightarrow> string \<Rightarrow> configuration
     \<Rightarrow> ('e + config_error, unit) result \<times> configuration" where
  "Init unmarshal listed ns current =
     (case listed of
        Inl e \<Rightarrow> (Err (Inl e), current)
      | Inr configs \<Rightarrow>
          (case AddConfigs unmarshal (configs, ns) current of
             (Inl e, s) \<Rightarrow> (Err (Inr e), s) | (Inr _, s) \<Rightarrow> (Ok (), s)))"

section \<open>The readers\<close>

definition IsClusterRole :: "configuration \<Rightarrow> string \<Rightarrow> bool" where
  "IsClusterRole cfg role = (case map_of (clusterRoles cfg) role of Some b \<Rightarrow> b | None \<Rightarrow> False)"

fun packageRedirect :: "string \<Rightarrow> PackageRedirectSpec list \<Rightarrow> PackageRedirectSpec option \<times> string" where
  "packageRedirect oldUrl [] = (None, oldUrl)"
| "packageRedirect oldUrl (redirect # rest) =
     (if HasPrefix oldUrl (pr_OldPrefix redirect)
      then if pr_NewPrefix redirect = '''' then (Some redirect, oldUrl)
           else (Some redirect, pr_NewPrefix redirect @ drop (length (pr_OldPrefix redirect)) oldUrl)
      else packageRedirect oldUrl rest)"

definition GetPackageRedirect :: "configuration \<Rightarrow> string \<Rightarrow> PackageRedirectSpec option \<times> string" where
  "GetPackageRedirect cfg oldUrl = packageRedirect oldUrl (packageRedirects cfg)"

definition GetOnFailureStrategy :: "configuration \<Rightarrow> string \<Rightarrow> gmap option" where
  "GetOnFailureStrategy cfg name =
     DeepCopyMap (case map_of (onFailureStrategyByName cfg) name of None \<Rightarrow> None | Some v \<Rightarrow> v)"

definition GetDefaultOnFailureStrategy :: "configuration \<Rightarrow> gmap option" where
  "GetDefaultOnFailureStrategy cfg =
     (if defaultOnFailureStrategy cfg = '''' then None
      else DeepCopyMap (case map_of (onFailureStrategyByName cfg) (defaultOnFailureStrategy cfg) of
                          None \<Rightarrow> None | Some v \<Rightarrow> v))"

section \<open>The contract of a numbered publication\<close>

text \<open>
  What the readers of a store rely on: a failed publication changes nothing, a successful one gives the
  next number. The history of a store is then its count of successes.
\<close>

locale numbered_store =
  fixes number :: "'c \<Rightarrow> 64 word"
    and publish :: "'x \<Rightarrow> 'c \<Rightarrow> ('e, unit) result \<times> 'c"
  assumes failed_keeps: "publish x c = (Inl e, c') \<Longrightarrow> c' = c"
    and done_counts: "publish x c = (Inr u, c') \<Longrightarrow> number c' = number c + 1"
begin

definition history :: "'x list \<Rightarrow> 'c \<Rightarrow> 'c" where
  "history xs c = fold (\<lambda>x c. snd (publish x c)) xs c"

primrec successes :: "'x list \<Rightarrow> 'c \<Rightarrow> nat" where
  "successes [] c = 0"
| "successes (x # xs) c =
     (case publish x c of (Inl _, c') \<Rightarrow> successes xs c' | (Inr _, c') \<Rightarrow> Suc (successes xs c'))"

lemma number_history: "number (history xs c) = number c + of_nat (successes xs c)"
proof (induction xs arbitrary: c)
  case Nil
  then show ?case by (simp add: history_def)
next
  case (Cons x xs)
  obtain r c' where p: "publish x c = (r, c')" by (cases "publish x c")
  have h: "history (x # xs) c = history xs c'" by (simp add: history_def p)
  show ?case
  proof (cases r)
    case (Inl e)
    then show ?thesis using h p Cons.IH [of c'] failed_keeps [of x c e c'] by simp
  next
    case (Inr u)
    then show ?thesis using h p Cons.IH [of c'] done_counts [of x c u c'] by simp
  qed
qed

lemma same_number_same_store:
  "length xs < 2 ^ 64 \<Longrightarrow> number (history xs c) = number c \<Longrightarrow> history xs c = c"
proof -
  assume l: "length xs < 2 ^ 64" and n: "number (history xs c) = number c"
  have le: "successes xs c \<le> length xs"
    by (induction xs arbitrary: c) (auto split: prod.split sum.split simp: le_SucI)
  have "(of_nat (successes xs c) :: 64 word) = 0" using n number_history [of xs c] by simp
  then have "2 ^ 64 dvd successes xs c" by (simp add: word_of_nat_eq_0_iff)
  then have z: "successes xs c = 0" using le l dvd_imp_le [of "2 ^ 64" "successes xs c"] by (cases "successes xs c") auto
  show "history xs c = c"
    using z
  proof (induction xs arbitrary: c)
    case (Cons x xs)
    then show ?case
      by (cases "publish x c"; cases "fst (publish x c)")
        (auto simp: history_def dest: failed_keeps split: sum.splits)
  qed (simp add: history_def)
qed

end

interpretation cfg: numbered_store version "AddConfigs unmarshal" for unmarshal
  by unfold_locales (auto simp: AddConfigs_def split: prod.splits sum.splits)

section \<open>Lemmas on the construction\<close>

lemma rfold_addStrategy_frame:
  assumes "rfold (addStrategy unmarshal) cfg ss = Inr cfg'"
  shows "\<exists>m. cfg' = cfg\<lparr>onFailureStrategyByName := m\<rparr>"
  by (rule rfold_inv [OF assms, where P = "\<lambda>c. \<exists>m. c = cfg\<lparr>onFailureStrategyByName := m\<rparr>"])
    (auto simp: addStrategy_def split: option.splits sum.splits intro: exI [of _ "onFailureStrategyByName cfg"])

lemma setDefaultStrategy_frame:
  "setDefaultStrategy name cfg = Inr cfg' \<Longrightarrow> \<exists>d. cfg' = cfg\<lparr>defaultOnFailureStrategy := d\<rparr>"
  by (auto simp: setDefaultStrategy_def split: if_splits intro: exI [of _ "defaultOnFailureStrategy cfg"])

text \<open>What one Config adds to the lists, and to the single values.\<close>

lemma addConfig_effect:
  assumes "addConfig unmarshal cfg config = Inr cfg'"
  shows "packageRedirects cfg' = packageRedirects cfg @ cs_PackageRedirects (cf_Spec config)"
    and "imageRedirects cfg' = imageRedirects cfg @ cs_ImageRedirects (cf_Spec config)"
    and "defaultContexts cfg' = defaultContexts cfg @ cs_DefaultContexts (cf_Spec config)"
    and "defaultNamespaceContexts cfg' = defaultNamespaceContexts cfg @ cs_DefaultNamespaceContexts (cf_Spec config)"
    and "clusterRoles cfg' = fold (\<lambda>role m. mput role True m) (cs_ClusterRoles (cf_Spec config)) (clusterRoles cfg)"
    and "defaultHelmTimeout cfg' = or_else (cs_DefaultHelmTimeout (cf_Spec config)) (defaultHelmTimeout cfg)"
    and "defaultHelmInterval cfg' = or_else (cs_DefaultHelmInterval (cf_Spec config)) (defaultHelmInterval cfg)"
    and "defaultPackageInterval cfg' = or_else (cs_DefaultPackageInterval (cf_Spec config)) (defaultPackageInterval cfg)"
  using assms
  by (auto simp: addConfig_def Let_def rbind_Inr setDefaults_def
      dest!: rfold_addStrategy_frame setDefaultStrategy_frame)

lemma fold_roles:
  "map_of (fold (\<lambda>role m. mput role True m) roles m) r = (if r \<in> set roles then Some True else map_of m r)"
  by (induction roles arbitrary: m) auto

lemma rfold_addConfig_effect:
  assumes "rfold (addConfig unmarshal) cfg cs = Inr cfg'"
  shows "packageRedirects cfg' = packageRedirects cfg @ concat (map (cs_PackageRedirects \<circ> cf_Spec) cs)"
    and "imageRedirects cfg' = imageRedirects cfg @ concat (map (cs_ImageRedirects \<circ> cf_Spec) cs)"
    and "defaultContexts cfg' = defaultContexts cfg @ concat (map (cs_DefaultContexts \<circ> cf_Spec) cs)"
    and "defaultNamespaceContexts cfg' = defaultNamespaceContexts cfg @ concat (map (cs_DefaultNamespaceContexts \<circ> cf_Spec) cs)"
    and "map_of (clusterRoles cfg') r = (if \<exists>c\<in>set cs. r \<in> set (cs_ClusterRoles (cf_Spec c)) then Some True
            else map_of (clusterRoles cfg) r)"
    and "defaultHelmTimeout cfg' = foldl (\<lambda>d c. or_else (cs_DefaultHelmTimeout (cf_Spec c)) d) (defaultHelmTimeout cfg) cs"
  using assms
  by (induction cs arbitrary: cfg; auto split: sum.splits simp: addConfig_effect fold_roles)+

definition default_name :: "Config \<Rightarrow> string" where
  "default_name c = cs_DefaultOnFailureStrategy (cf_Spec c)"

lemma addConfig_default:
  assumes "addConfig unmarshal cfg c = Inr cfg'"
  shows "defaultOnFailureStrategy cfg' = (if default_name c = '''' then defaultOnFailureStrategy cfg else default_name c)"
    and "defaultOnFailureStrategy cfg \<noteq> '''' \<Longrightarrow> defaultOnFailureStrategy cfg' = defaultOnFailureStrategy cfg"
  using assms
  by (auto simp: addConfig_def Let_def rbind_Inr setDefaults_def setDefaultStrategy_def default_name_def
      dest!: rfold_addStrategy_frame split: if_splits)

lemma rfold_addConfig_default:
  assumes "rfold (addConfig unmarshal) cfg cs = Inr cfg'"
  shows "(defaultOnFailureStrategy cfg \<noteq> '''' \<longrightarrow> defaultOnFailureStrategy cfg' = defaultOnFailureStrategy cfg)
     \<and> (\<forall>c\<in>set cs. default_name c \<noteq> '''' \<longrightarrow> default_name c = defaultOnFailureStrategy cfg')"
  using assms
proof (induction cs arbitrary: cfg)
  case (Cons c cs)
  then obtain cfg1 where c: "addConfig unmarshal cfg c = Inr cfg1" "rfold (addConfig unmarshal) cfg1 cs = Inr cfg'"
    by (auto split: sum.splits)
  show ?case using Cons.IH [OF c(2)] addConfig_default [OF c(1)] by auto
qed simp

lemma sort_key_unique:
  assumes "mset xs = mset ys" "distinct (map f xs)"
  shows "sort_key f xs = sort_key f ys"
proof (rule properties_for_sort_key)
  show "mset (sort_key f ys) = mset xs" using assms(1) by simp
  show "filter (\<lambda>x. f k = f x) (sort_key f ys) = filter (\<lambda>x. f k = f x) xs" if "k \<in> set (sort_key f ys)" for k
  proof -
    have d: "distinct (map f ys)" using assms by (metis mset_map mset_eq_imp_distinct_iff)
    have one: "filter (\<lambda>x. f k = f x) zs = [k]" if "distinct (map f zs)" "k \<in> set zs" for zs
      using that by (induction zs) (auto simp: filter_empty_conv image_iff intro!: sym [of _ k])
    have "k \<in> set xs" "k \<in> set ys" using that mset_eq_setD [OF assms(1)] by auto
    then show ?thesis using one [OF assms(2)] one [OF d] by (simp add: filter_sort)
  qed
qed simp

section \<open>Properties\<close>

text \<open>The Config of the witnesses: a role and a default strategy.\<close>

definition sample_config :: "string \<Rightarrow> string \<Rightarrow> Config" where
  "sample_config name strategy =
     \<lparr>cf_meta = \<lparr>om_Name = name, om_Namespace = ''kubocd'', om_UID = '''', om_Generation = 1,
        om_ResourceVersion = '''', om_Labels = [], om_Annotations = [], om_Finalizers = [],
        om_OwnerReferences = [], om_DeletionTimestamp = None\<rparr>,
      cf_Spec = \<lparr>cs_PackageRedirects = [], cs_ImageRedirects = [], cs_ClusterRoles = [name @ ''-role''],
        cs_DefaultContexts = [\<lparr>Namespace = '''', Name = name\<rparr>], cs_DefaultNamespaceContexts = [],
        cs_OnFailureStrategies = [], cs_DefaultOnFailureStrategy = strategy, cs_DefaultHelmTimeout = None,
        cs_DefaultHelmInterval = None, cs_DefaultPackageInterval = None, cs_SpecPatch = None\<rparr>\<rparr>"

definition the_cfg :: "(config_error, configuration) result \<Rightarrow> configuration" where
  "the_cfg r = (case r of Inl _ \<Rightarrow> empty_configuration | Inr c \<Rightarrow> c)"

text \<open>C8: the configuration does not depend on the order in which the API server lists the Configs (whose
  names differ, as they are in one namespace), the error included.\<close>

theorem newConfiguration_order_independent:
  assumes "mset items = mset items'" "distinct (map config_name items)"
  shows "newConfiguration unmarshal items ns = newConfiguration unmarshal items' ns"
  unfolding newConfiguration_def using sort_key_unique [OF assms] by simp

theorem newConfiguration_order_independent_witness:
  "newConfiguration Inl [sample_config ''b'' '''', sample_config ''a'' ''s''] ''ns''
     = newConfiguration Inl [sample_config ''a'' ''s'', sample_config ''b'' ''''] ''ns''"
  by (rule newConfiguration_order_independent) (simp_all add: sample_config_def config_name_def)

text \<open>C7: what the configuration holds when it is built: the redirects and contexts of all Configs in the
  order of the names of the Configs, with the default namespace filled in; a role exactly when a Config
  lists it; one default strategy that no Config contradicts and that is defined; and the timeout of the last
  Config that sets one, else two minutes.\<close>

theorem newConfiguration_spec:
  assumes "newConfiguration unmarshal items ns = Ok cfg"
  shows "(packageRedirects cfg = concat (map (cs_PackageRedirects \<circ> cf_Spec) (sort_key config_name items)))
    \<and> (imageRedirects cfg = concat (map (cs_ImageRedirects \<circ> cf_Spec) (sort_key config_name items)))
    \<and> (defaultContexts cfg = map (defaultNs ns) (concat (map (cs_DefaultContexts \<circ> cf_Spec) (sort_key config_name items))))
    \<and> (IsClusterRole cfg r \<longleftrightarrow> (\<exists>c\<in>set items. r \<in> set (cs_ClusterRoles (cf_Spec c))))
    \<and> (\<forall>c\<in>set items. default_name c \<noteq> '''' \<longrightarrow> default_name c = defaultOnFailureStrategy cfg)
    \<and> (defaultOnFailureStrategy cfg \<noteq> '''' \<longrightarrow> (\<exists>v. GetDefaultOnFailureStrategy cfg = Some v))
    \<and> (defaultHelmTimeout cfg
      = foldl (\<lambda>d c. or_else (cs_DefaultHelmTimeout (cf_Spec c)) d) (minutes 2) (sort_key config_name items))"
proof -
  obtain c0 where r: "rfold (addConfig unmarshal) initial_configuration (sort_key config_name items) = Inr c0"
    and c: "cfg = c0\<lparr>defaultContexts := map (defaultNs ns) (defaultContexts c0)\<rparr>"
      "defaultOnFailureStrategy c0 \<noteq> '''' \<longrightarrow>
       (\<exists>v. map_of (onFailureStrategyByName c0) (defaultOnFailureStrategy c0) = Some (Some v))"
    using assms by (auto simp: newConfiguration_def rbind_Inr Let_def split: if_splits option.splits)
  note e = rfold_addConfig_effect [OF r]
  have 1: "packageRedirects cfg = concat (map (cs_PackageRedirects \<circ> cf_Spec) (sort_key config_name items))"
    "imageRedirects cfg = concat (map (cs_ImageRedirects \<circ> cf_Spec) (sort_key config_name items))"
    "defaultContexts cfg = map (defaultNs ns) (concat (map (cs_DefaultContexts \<circ> cf_Spec) (sort_key config_name items)))"
    "defaultHelmTimeout cfg
      = foldl (\<lambda>d c. or_else (cs_DefaultHelmTimeout (cf_Spec c)) d) (minutes 2) (sort_key config_name items)"
    using e c(1) by (simp_all add: initial_configuration_def empty_configuration_def)
  moreover have "IsClusterRole cfg r \<longleftrightarrow> (\<exists>c\<in>set items. r \<in> set (cs_ClusterRoles (cf_Spec c)))"
    using e(5) [of r] c(1) by (simp add: IsClusterRole_def initial_configuration_def empty_configuration_def)
  moreover have "\<forall>c\<in>set items. default_name c \<noteq> '''' \<longrightarrow> default_name c = defaultOnFailureStrategy cfg"
    using rfold_addConfig_default [OF r] c(1) by simp
  moreover have "defaultOnFailureStrategy cfg \<noteq> '''' \<longrightarrow> (\<exists>v. GetDefaultOnFailureStrategy cfg = Some v)"
    using c by (auto simp: GetDefaultOnFailureStrategy_def DeepCopyMap_def)
  ultimately show ?thesis by blast
qed

theorem newConfiguration_spec_witness:
  "IsClusterRole (the_cfg (newConfiguration Inl [sample_config ''b'' '''', sample_config ''a'' ''''] ''ns'')) ''a-role''"
proof -
  have n: "newConfiguration Inl [sample_config ''b'' '''', sample_config ''a'' ''''] ''ns'' =
    Ok (the_cfg (newConfiguration Inl [sample_config ''b'' '''', sample_config ''a'' ''''] ''ns''))"
    by (simp add: newConfiguration_def sample_config_def config_name_def addConfig_def setDefaultStrategy_def
        setDefaults_def initial_configuration_def empty_configuration_def the_cfg_def)
  show ?thesis using newConfiguration_spec [OF n, of "''a-role''"]
    by (simp add: sample_config_def)
qed

text \<open>C9: a store that has taken any sequence of publications, fewer than 2 to the 64, and shows the version it
  had before shows the configuration it had before: the failed ones changed nothing and the version never
  stands for two configurations.\<close>

theorem version_identifies_configuration:
  assumes "length xs < 2 ^ 64"
    and "version (fold (\<lambda>x c. snd (AddConfigs unmarshal x c)) xs cfg) = version cfg"
  shows "fold (\<lambda>x c. snd (AddConfigs unmarshal x c)) xs cfg = cfg"
  using cfg.same_number_same_store [OF assms(1), of unmarshal cfg] assms(2)
  by (simp add: cfg.history_def)

text \<open>A package redirect is the first, in the order of the Configs, whose old prefix starts the URL, and the
  rewritten URL is the new prefix followed by the rest; without a match the URL is kept.\<close>

theorem GetPackageRedirect_first:
  "case GetPackageRedirect cfg url of
     (None, u) \<Rightarrow> u = url \<and> (\<forall>r\<in>set (packageRedirects cfg). \<not> HasPrefix url (pr_OldPrefix r))
   | (Some r, u) \<Rightarrow>
       (\<exists>before rest tail. packageRedirects cfg = before @ r # rest
          \<and> (\<forall>b\<in>set before. \<not> HasPrefix url (pr_OldPrefix b))
          \<and> url = pr_OldPrefix r @ tail
          \<and> u = (if pr_NewPrefix r = '''' then pr_OldPrefix r else pr_NewPrefix r) @ tail)"
proof -
  have "case packageRedirect url rs of
     (None, u) \<Rightarrow> u = url \<and> (\<forall>r\<in>set rs. \<not> HasPrefix url (pr_OldPrefix r))
   | (Some r, u) \<Rightarrow>
       (\<exists>before rest tail. rs = before @ r # rest
          \<and> (\<forall>b\<in>set before. \<not> HasPrefix url (pr_OldPrefix b))
          \<and> url = pr_OldPrefix r @ tail
          \<and> u = (if pr_NewPrefix r = '''' then pr_OldPrefix r else pr_NewPrefix r) @ tail)" for rs
  proof (induction rs)
    case (Cons r rs)
    show ?case
    proof (cases "HasPrefix url (pr_OldPrefix r)")
      case True
      then obtain tail where "url = pr_OldPrefix r @ tail" by (auto simp: HasPrefix_def prefix_def)
      then show ?thesis using True
        by (simp, intro exI [of _ "[]"] exI [of _ rs] exI [of _ tail]) auto
    next
      case False
      show ?thesis
      proof (cases "packageRedirect url rs")
        case (Pair p u)
        show ?thesis
        proof (cases p)
          case (Some q)
          then obtain before rest tail where "rs = before @ q # rest"
            "\<forall>b\<in>set before. \<not> HasPrefix url (pr_OldPrefix b)" "url = pr_OldPrefix q @ tail"
            "u = (if pr_NewPrefix q = '''' then pr_OldPrefix q else pr_NewPrefix q) @ tail"
            using Cons.IH Pair by auto
          then show ?thesis using False Pair Some
            by (simp, intro exI [of _ "r # before"] exI [of _ rest] exI [of _ tail]) auto
        qed (use False Pair Cons.IH in auto)
      qed
    qed
  qed simp
  then show ?thesis by (simp only: GetPackageRedirect_def)
qed

theorem GetPackageRedirect_first_witness:
  "case GetPackageRedirect (empty_configuration\<lparr>packageRedirects :=
        [\<lparr>pr_OldPrefix = ''q/'', pr_NewPrefix = ''r/'', pr_OciAddOn = zero_OciAddOn, pr_Interval = 0, pr_Timeout = None\<rparr>]\<rparr>) ''q/x'' of
     (None, u) \<Rightarrow> False | (Some r, u) \<Rightarrow> u = ''r/x''"
  using GetPackageRedirect_first [where cfg = "empty_configuration\<lparr>packageRedirects :=
        [\<lparr>pr_OldPrefix = ''q/'', pr_NewPrefix = ''r/'', pr_OciAddOn = zero_OciAddOn, pr_Interval = 0, pr_Timeout = None\<rparr>]\<rparr>" and url = "''q/x''"]
  by (auto simp: GetPackageRedirect_def HasPrefix_def split: prod.splits option.splits)

theorem version_identifies_configuration_witness:
  "fold (\<lambda>x c. snd (AddConfigs Inl x c)) [([sample_config ''a'' ''s''], ''ns'')] New = New"
proof -
  have "newConfiguration Inl [sample_config ''a'' ''s''] ''ns'' = Err (DefaultStrategyUndefined ''s'')"
    by (simp add: newConfiguration_def sample_config_def config_name_def addConfig_def setDefaultStrategy_def
        setDefaults_def initial_configuration_def empty_configuration_def)
  then show ?thesis
    by (intro version_identifies_configuration) (simp_all add: AddConfigs_def)
qed

end
