(* ===== verification/RoleStore.thy ===== *)
theory RoleStore
  imports ConfigStore
begin

text \<open>
  \<open>internal/rolestore\<close>: the roles that the ready Releases provide, and the check of the dependencies of a
  Release against them and against the cluster roles of the configuration.
\<close>

section \<open>State and operations\<close>

type_synonym roleStore = "(string \<times> string list) list"

definition New_roleStore :: roleStore where
  "New_roleStore = []"

definition isDependencyOK :: "configuration \<Rightarrow> string \<Rightarrow> roleStore \<Rightarrow> bool" where
  "isDependencyOK cfg dependency store \<longleftrightarrow>
     IsClusterRole cfg dependency
     \<or> list_ex (\<lambda>(rel, roles). list_ex (\<lambda>r. r = dependency) roles) store"

fun MissingDependency :: "configuration \<Rightarrow> string list \<Rightarrow> roleStore \<Rightarrow> string" where
  "MissingDependency cfg [] store = ''''"
| "MissingDependency cfg (dependency # rest) store =
     (if \<not> isDependencyOK cfg dependency store then dependency else MissingDependency cfg rest store)"

definition RegisterRelease :: "NamespacedName \<Rightarrow> string list \<Rightarrow> roleStore \<Rightarrow> roleStore" where
  "RegisterRelease n roles store = mput (key_String n) roles store"

definition UnRegisterRelease :: "NamespacedName \<Rightarrow> roleStore \<Rightarrow> roleStore" where
  "UnRegisterRelease n store = mdel (key_String n) store"

section \<open>The contract of a role registry\<close>

text \<open>
  What the reconciliation of a Release relies on: the registry holds for each Release the roles it was
  last registered with, and the check answers whether every dependency is fulfilled by one of them or by
  the cluster.
\<close>

locale role_registry =
  fixes provided :: "'s \<Rightarrow> 'n \<Rightarrow> string set"
    and register :: "'n \<Rightarrow> string list \<Rightarrow> 's \<Rightarrow> 's"
    and unregister :: "'n \<Rightarrow> 's \<Rightarrow> 's"
    and cluster :: "'c \<Rightarrow> string \<Rightarrow> bool"
    and missing :: "'c \<Rightarrow> string list \<Rightarrow> 's \<Rightarrow> string"
    and good :: "'s \<Rightarrow> bool"
  assumes register_provided: "good s \<Longrightarrow> provided (register n rs s) m = (if m = n then set rs else provided s m)"
    and unregister_provided: "good s \<Longrightarrow> provided (unregister n s) m = (if m = n then {} else provided s m)"
    and register_good: "good s \<Longrightarrow> good (register n rs s)"
    and unregister_good: "good s \<Longrightarrow> good (unregister n s)"
    and missing_iff: "good s \<Longrightarrow> '''' \<notin> set ds \<Longrightarrow>
      missing c ds s = '''' \<longleftrightarrow> (\<forall>d\<in>set ds. cluster c d \<or> (\<exists>n. d \<in> provided s n))"
begin

lemma register_monotone:
  "good s \<Longrightarrow> '''' \<notin> set ds \<Longrightarrow> provided s n \<subseteq> set rs \<Longrightarrow> missing c ds s = '''' \<Longrightarrow>
     missing c ds (register n rs s) = ''''"
  using missing_iff [of s ds c] missing_iff [OF register_good, of s ds c] register_provided
  by (metis subsetD)

lemma unregister_blocks:
  "good s \<Longrightarrow> '''' \<notin> set ds \<Longrightarrow> d \<in> set ds \<Longrightarrow> \<not> cluster c d \<Longrightarrow> (\<forall>m. m \<noteq> n \<longrightarrow> d \<notin> provided s m) \<Longrightarrow>
     missing c ds (unregister n s) \<noteq> ''''"
  using missing_iff [OF unregister_good, of s ds c] unregister_provided by (metis empty_iff)

end

definition roles_of :: "roleStore \<Rightarrow> string \<Rightarrow> string set" where
  "roles_of s k = (case map_of s k of None \<Rightarrow> {} | Some rs \<Rightarrow> set rs)"

lemma isDependencyOK_iff:
  "wf_map s \<Longrightarrow> isDependencyOK cfg d s \<longleftrightarrow> IsClusterRole cfg d \<or> (\<exists>k. d \<in> roles_of s k)"
proof -
  assume wf: "wf_map s"
  have "list_ex (\<lambda>(rel, roles). list_ex (\<lambda>r. r = d) roles) s \<longleftrightarrow> (\<exists>k rs. (k, rs) \<in> set s \<and> d \<in> set rs)"
    by (auto simp: list_ex_iff)
  also have "\<dots> \<longleftrightarrow> (\<exists>k. d \<in> roles_of s k)"
  proof
    assume "\<exists>k rs. (k, rs) \<in> set s \<and> d \<in> set rs"
    then obtain k rs where "map_of s k = Some rs" "d \<in> set rs" using wf by (metis map_of_is_SomeI)
    then have "d \<in> roles_of s k" by (simp add: roles_of_def)
    then show "\<exists>k. d \<in> roles_of s k" ..
  qed (auto simp: roles_of_def dest: map_of_mem split: option.splits)
  finally show ?thesis by (simp add: isDependencyOK_def)
qed

lemma MissingDependency_split:
  "'''' \<notin> set ds \<Longrightarrow>
   (MissingDependency cfg ds s = '''' \<and> (\<forall>d\<in>set ds. isDependencyOK cfg d s))
   \<or> (\<exists>before rest. ds = before @ MissingDependency cfg ds s # rest \<and> (\<forall>d\<in>set before. isDependencyOK cfg d s)
        \<and> \<not> isDependencyOK cfg (MissingDependency cfg ds s) s)"
proof (induction ds)
  case (Cons d ds)
  show ?case
  proof (cases "isDependencyOK cfg d s")
    case True
    from Cons consider "MissingDependency cfg ds s = '''' \<and> (\<forall>d\<in>set ds. isDependencyOK cfg d s)"
      | before rest where "ds = before @ MissingDependency cfg ds s # rest" "\<forall>d\<in>set before. isDependencyOK cfg d s"
        "\<not> isDependencyOK cfg (MissingDependency cfg ds s) s"
      by auto
    then show ?thesis
    proof cases
      case 1
      then show ?thesis using True by simp
    next
      case 2
      then show ?thesis using True
        by (intro disjI2 exI [of _ "d # before"] exI [of _ rest]) auto
    qed
  qed (auto intro: exI [of _ "[]"])
qed simp

interpretation rs: role_registry roles_of "\<lambda>k rs s. mput k rs s" "\<lambda>k s. mdel k s"
  IsClusterRole MissingDependency "\<lambda>s. wf_map s"
proof unfold_locales
  fix s :: roleStore and ds :: "string list" and c
  assume a: "wf_map s" "'''' \<notin> set ds"
  show "MissingDependency c ds s = '''' \<longleftrightarrow> (\<forall>d\<in>set ds. IsClusterRole c d \<or> (\<exists>n. d \<in> roles_of s n))"
    using MissingDependency_split [OF a(2), of c s] isDependencyOK_iff [OF a(1)] a(2)
    by (metis in_set_conv_decomp)
qed (auto simp: roles_of_def)

section \<open>Properties\<close>

text \<open>Names that the API server accepts have no slash, so their printed form identifies them.\<close>

definition k8s_key :: "NamespacedName \<Rightarrow> bool" where
  "k8s_key n \<longleftrightarrow> CHR ''/'' \<notin> set (Namespace n) \<and> CHR ''/'' \<notin> set (Name n)"

lemma key_String_inj: "k8s_key n \<Longrightarrow> k8s_key m \<Longrightarrow> key_String n = key_String m \<longleftrightarrow> n = m"
proof -
  assume a: "k8s_key n" "k8s_key m"
  have s: "Split (CHR ''/'') (key_String x) = [Namespace x, Name x]" if "k8s_key x" for x
    using that by (simp add: key_String_def k8s_key_def Split_append_sep Split_no_sep)
  show ?thesis
  proof
    assume "key_String n = key_String m"
    then have "[Namespace n, Name n] = [Namespace m, Name m]" using s [OF a(1)] s [OF a(2)] by simp
    then show "n = m" by (simp add: NamespacedName.equality)
  qed simp
qed

lemma RegisterRelease_roles:
  "k8s_key n \<Longrightarrow> k8s_key m \<Longrightarrow>
     roles_of (RegisterRelease n rs s) (key_String m) = (if m = n then set rs else roles_of s (key_String m))"
  by (auto simp: RegisterRelease_def roles_of_def key_String_inj)

text \<open>An empty name among the dependencies is taken for the answer that none is missing, and hides the rest.\<close>

lemma MissingDependency_empty_name:
  "MissingDependency New ['''', ''dns''] [] = '''' \<and> \<not> isDependencyOK New ''dns'' []"
  by (simp add: isDependencyOK_def IsClusterRole_def New_def empty_configuration_def)

text \<open>With non-empty names of dependencies, the check reports the first dependency that neither the
  cluster roles nor a registered Release fulfils, and reports none exactly when all are fulfilled.\<close>

theorem MissingDependency_first:
  assumes "'''' \<notin> set ds" "wf_map s"
  shows "(MissingDependency cfg ds s = '''' \<and> (\<forall>d\<in>set ds. IsClusterRole cfg d \<or> (\<exists>k. d \<in> roles_of s k)))
   \<or> (\<exists>before rest. ds = before @ MissingDependency cfg ds s # rest
        \<and> (\<forall>d\<in>set before. IsClusterRole cfg d \<or> (\<exists>k. d \<in> roles_of s k))
        \<and> \<not> IsClusterRole cfg (MissingDependency cfg ds s)
        \<and> (\<forall>k. MissingDependency cfg ds s \<notin> roles_of s k))"
  using MissingDependency_split [OF assms(1), of cfg s] unfolding isDependencyOK_iff [OF assms(2)] by blast

theorem MissingDependency_first_witness:
  "MissingDependency New [''net'', ''dns''] [(''a/b'', [''net''])] = ''dns''"
  using MissingDependency_first [of "[''net'', ''dns'']" "[(''a/b'', [''net''])]" New]
  by (simp add: isDependencyOK_def IsClusterRole_def New_def empty_configuration_def)

text \<open>When a Release that alone provides a role is unregistered, every Release that depends on the role and
  not on a cluster role of that name is blocked, whatever the other Releases did before.\<close>

theorem UnRegisterRelease_blocks:
  assumes "wf_map s" "'''' \<notin> set ds" "d \<in> set ds" "\<not> IsClusterRole cfg d"
    and "\<forall>k. k \<noteq> key_String n \<longrightarrow> d \<notin> roles_of s k"
  shows "MissingDependency cfg ds (UnRegisterRelease n s) \<noteq> ''''"
  unfolding UnRegisterRelease_def by (rule rs.unregister_blocks [OF assms])

theorem UnRegisterRelease_blocks_witness:
  "MissingDependency New [''net''] (UnRegisterRelease \<lparr>Namespace = ''a'', Name = ''b''\<rparr> [(''a/b'', [''net''])]) \<noteq> ''''"
  by (rule UnRegisterRelease_blocks [where d = "''net''"])
    (simp_all add: IsClusterRole_def New_def empty_configuration_def key_String_def roles_of_def)

end
