(* ===== verification/K8s.thy ===== *)
theory K8s
  imports Api
begin

text \<open>
  What the controllers share (\<open>internal/controller/common.go\<close>): how a failed request to the API server is
  described without quoting the server, and the merge of a JSON document into a map. The API server itself is
  a parameter of the controllers, the record \<open>client\<close>, whose documented behaviour is the locale \<open>api_server\<close>.
\<close>

section \<open>Errors of the API server\<close>

record api_status =
  as_Reason :: string
  as_Message :: string
  as_Causes :: "string list"

text \<open>\<open>Request\<close>: an error that is not an answer of the API server, with its text.\<close>

datatype api_err = Request string | Status api_status

fun IsNotFound :: "api_err \<Rightarrow> bool" where
  "IsNotFound (Request _) = False"
| "IsNotFound (Status s) = (as_Reason s = ''NotFound'')"

section \<open>The JSON names of the fields of the Go types\<close>

text \<open>A Go type as reflection shows it: the fields of a struct with their \<open>json\<close> tag and whether they are embedded.\<close>

datatype gotype = Struct "(string \<times> bool \<times> gotype) list" | Pointer gotype | Other

definition jsonName :: "string \<Rightarrow> string" where
  "jsonName tag = takeWhile (\<lambda>c. c \<noteq> CHR '','') tag"

fun addJSONNames :: "gotype \<Rightarrow> string list" where
  "addJSONNames Other = []"
| "addJSONNames (Pointer t) = addJSONNames t"
| "addJSONNames (Struct fl) =
     concat (map (\<lambda>(tag, anonymous, t).
       if jsonName tag = '''' \<and> anonymous then addJSONNames t
       else if jsonName tag \<noteq> '''' \<and> jsonName tag \<noteq> ''-'' then [jsonName tag] else []) fl)"

definition is_section :: "string \<Rightarrow> bool" where
  "is_section s \<longleftrightarrow> s = ''metadata'' \<or> s = ''spec'' \<or> s = ''status''"

text \<open>The object types given, each as the list of its fields; a section and a name of a field of it.\<close>

definition declaredFields :: "(string \<times> bool \<times> gotype) list list \<Rightarrow> (string \<times> string list) list" where
  "declaredFields objects =
     foldl (foldl (\<lambda>sections (tag, anonymous, t).
        let section = jsonName tag
        in if \<not> is_section section then sections
           else mput section ((case map_of sections section of None \<Rightarrow> [] | Some ns \<Rightarrow> ns) @ addJSONNames t) sections))
       [] objects"

section \<open>Describing an error\<close>

definition apiWithheld :: string where
  "apiWithheld = ''message withheld, as it can quote the object''"

definition apiReasons :: "string list" where
  "apiReasons = [''Unauthorized'', ''Forbidden'', ''NotFound'', ''AlreadyExists'', ''Conflict'', ''Gone'',
     ''Invalid'', ''ServerTimeout'', ''StorageReadError'', ''Timeout'', ''TooManyRequests'', ''BadRequest'',
     ''MethodNotAllowed'', ''NotAcceptable'', ''RequestEntityTooLarge'', ''UnsupportedMediaType'',
     ''InternalError'', ''Expired'', ''ServiceUnavailable'']"

definition is_letter :: "char \<Rightarrow> bool" where
  "is_letter c \<longleftrightarrow> (CHR ''a'' \<le> c \<and> c \<le> CHR ''z'') \<or> (CHR ''A'' \<le> c \<and> c \<le> CHR ''Z'')"

text \<open>The expression \<open>^([A-Za-z][A-Za-z0-9]*)([.*)?$\<close> and its first group, the bracket escaped in Go.\<close>

definition apiFieldName :: "string \<Rightarrow> string" where
  "apiFieldName segment =
     (let name = takeWhile (\<lambda>c. is_letter c \<or> is_digit c) segment;
          rest = dropWhile (\<lambda>c. is_letter c \<or> is_digit c) segment
      in if name \<noteq> [] \<and> is_letter (hd name)
            \<and> (rest = [] \<or> hd rest = CHR ''['' \<and> CHR 0x0A \<notin> set rest)
         then name else '''')"

definition apiField :: "(string \<times> string list) list \<Rightarrow> string \<Rightarrow> string" where
  "apiField sections path =
     (let segments = Split (CHR ''.'') path; section = apiFieldName (hd segments)
      in case map_of sections section of
           None \<Rightarrow> ''''
         | Some declared \<Rightarrow>
             if length segments > 1 \<and> apiFieldName (segments ! 1) \<in> set declared
             then section @ ''.'' @ apiFieldName (segments ! 1) else section)"

definition apiError :: "(string \<times> string list) list \<Rightarrow> api_err \<Rightarrow> string" where
  "apiError sections err =
     (case err of
        Request _ \<Rightarrow> ''the request to the API server failed, '' @ apiWithheld
      | Status s \<Rightarrow>
          (let reason = (if as_Reason s \<in> set apiReasons then as_Reason s else ''Unknown'');
               fnames = foldl (\<lambda>fs cause. let f = apiField sections cause
                                          in if f \<noteq> '''' \<and> f \<notin> set fs then fs @ [f] else fs) [] (as_Causes s);
               fnames = sort fnames
           in if fnames \<noteq> []
              then ''the API server answered '' @ reason @ '' for '' @ Join '', '' fnames @ '', '' @ apiWithheld
              else ''the API server answered '' @ reason @ '', '' @ apiWithheld))"

definition ClientError :: "(string \<times> string list) list \<Rightarrow> api_err \<Rightarrow> string" where
  "ClientError sections err = apiError sections err"

text \<open>\<open>Merge\<close>: an addon of \<open>null\<close> unmarshals to a nil map, which merges as an empty one.\<close>

definition Merge :: "(JSON \<Rightarrow> (string, gmap option) result) \<Rightarrow> gmap \<Rightarrow> JSON option \<Rightarrow> (string, gmap) result" where
  "Merge unmarshal base addon =
     (case addon of
        None \<Rightarrow> Ok base
      | Some raw \<Rightarrow> (case unmarshal raw of Inl e \<Rightarrow> Err e
                     | Inr inc \<Rightarrow> Ok (MergeMaps base (case inc of None \<Rightarrow> [] | Some m \<Rightarrow> m))))"

section \<open>The state of a reconciliation\<close>

text \<open>The state of the API server and the events that the controller recorded.\<close>

definition nn :: "string \<Rightarrow> string \<Rightarrow> NamespacedName" where
  "nn ns name = \<lparr>Namespace = ns, Name = name\<rparr>"

record 's world =
  w_api :: 's
  w_events :: "(string \<times> string \<times> string) list"

definition call :: "('s \<Rightarrow> 'a \<times> 's) \<Rightarrow> 's world \<Rightarrow> 'a \<times> 's world" where
  "call f w = (case f (w_api w) of (x, s) \<Rightarrow> (x, w\<lparr>w_api := s\<rparr>))"

definition Event :: "string \<Rightarrow> string \<Rightarrow> string \<Rightarrow> 's world \<Rightarrow> 's world" where
  "Event kind reason message w = w\<lparr>w_events := w_events w @ [(kind, reason, message)]\<rparr>"

lemma call_iff: "call f w = (x, w') \<longleftrightarrow> f (w_api w) = (x, w_api w') \<and> w' = w\<lparr>w_api := w_api w'\<rparr>"
  by (auto simp: call_def split: prod.splits)

lemma Event_api [simp]: "w_api (Event a b c w) = w_api w"
  by (simp add: Event_def)

section \<open>The client of the API server\<close>

text \<open>Of an object, its kind and its key; \<open>'s\<close> is the state of the server, whatever it is.\<close>

type_synonym objkey = "string \<times> NamespacedName"

record ('s, 'o) client =
  cl_Get :: "objkey \<Rightarrow> 's \<Rightarrow> (api_err, 'o) result \<times> 's"
  cl_Create :: "'o \<Rightarrow> 's \<Rightarrow> (api_err, unit) result \<times> 's"
  cl_Update :: "'o \<Rightarrow> 's \<Rightarrow> (api_err, unit) result \<times> 's"
  cl_Delete :: "'o \<Rightarrow> 's \<Rightarrow> (api_err, unit) result \<times> 's"

text \<open>
  The documented behaviour the controllers rely on. \<open>view\<close> is what the server holds. A read returns what is held,
  and NotFound only when nothing is held. A write that succeeds holds the object written, up to the fields that
  the server fills in (\<open>same\<close>). A write that fails may still have been applied, as when the answer was lost.
\<close>

locale api_server =
  fixes C :: "('s, 'o) client"
    and view :: "'s \<Rightarrow> objkey \<Rightarrow> 'o option"
    and keyOf :: "'o \<Rightarrow> objkey"
    and same :: "'o \<Rightarrow> 'o \<Rightarrow> bool"
  assumes get_view: "cl_Get C k s = (r, s') \<Longrightarrow> view s' = view s"
    and get_ok: "cl_Get C k s = (Inr ob, s') \<Longrightarrow> view s k = Some ob \<and> keyOf ob = k"
    and get_gone: "cl_Get C k s = (Inl e, s') \<Longrightarrow> IsNotFound e \<Longrightarrow> view s k = None"
    and create_ok: "cl_Create C ob s = (Inr u, s') \<Longrightarrow>
      view s (keyOf ob) = None \<and> (\<exists>ob'. same ob ob' \<and> view s' = (view s)(keyOf ob \<mapsto> ob'))"
    and create_err: "cl_Create C ob s = (Inl e, s') \<Longrightarrow>
      view s' = view s \<or> view s (keyOf ob) = None \<and> (\<exists>ob'. same ob ob' \<and> view s' = (view s)(keyOf ob \<mapsto> ob'))"
    and update_ok: "cl_Update C ob s = (Inr u, s') \<Longrightarrow>
      view s (keyOf ob) \<noteq> None \<and> (\<exists>ob'. same ob ob' \<and> view s' = (view s)(keyOf ob \<mapsto> ob'))"
    and update_err: "cl_Update C ob s = (Inl e, s') \<Longrightarrow>
      view s' = view s \<or> view s (keyOf ob) \<noteq> None \<and> (\<exists>ob'. same ob ob' \<and> view s' = (view s)(keyOf ob \<mapsto> ob'))"
    and delete_ok: "cl_Delete C ob s = (Inr u, s') \<Longrightarrow> view s' = (view s)(keyOf ob := None)"
    and delete_err: "cl_Delete C ob s = (Inl e, s') \<Longrightarrow>
      view s' = (view s)(keyOf ob := None) \<or> view s' = view s \<and> (IsNotFound e \<longrightarrow> view s (keyOf ob) = None)"
begin

lemma create_frame: "cl_Create C ob s = (r, s') \<Longrightarrow> k \<noteq> keyOf ob \<Longrightarrow> view s' k = view s k"
  using create_ok [of ob s _ s'] create_err [of ob s _ s'] by (cases r) auto

lemma update_frame: "cl_Update C ob s = (r, s') \<Longrightarrow> k \<noteq> keyOf ob \<Longrightarrow> view s' k = view s k"
  using update_ok [of ob s _ s'] update_err [of ob s _ s'] by (cases r) auto

lemma delete_frame: "cl_Delete C ob s = (r, s') \<Longrightarrow> k \<noteq> keyOf ob \<Longrightarrow> view s' k = view s k"
  using delete_ok [of ob s _ s'] delete_err [of ob s _ s'] by (cases r) auto

text \<open>A deletion that succeeds, or that finds nothing, leaves nothing.\<close>

lemma delete_done:
  "cl_Delete C ob s = (r, s') \<Longrightarrow> (case r of Inl e \<Rightarrow> IsNotFound e | Inr _ \<Rightarrow> True) \<Longrightarrow> view s' (keyOf ob) = None"
  using delete_ok [of ob s _ s'] delete_err [of ob s _ s'] by (cases r) auto

end

section \<open>A server with faults\<close>

text \<open>
  A server that satisfies the contract: a map of objects, and a list that says for each request to come
  whether it fails, and then whether a write is applied all the same.
\<close>

datatype fault = Fine | Fails api_err | Lost api_err

type_synonym 'o mem = "(objkey \<times> 'o) list \<times> fault list"

definition next_fault :: "fault list \<Rightarrow> fault \<times> fault list" where
  "next_fault fs = (case fs of [] \<Rightarrow> (Fine, []) | f # fs \<Rightarrow> (f, fs))"

definition status_err :: "string \<Rightarrow> api_err" where
  "status_err reason = Status \<lparr>as_Reason = reason, as_Message = '''', as_Causes = []\<rparr>"

definition hide_notfound :: "api_err \<Rightarrow> api_err" where
  "hide_notfound e = (if IsNotFound e then status_err ''Timeout'' else e)"

text \<open>An object is held under its own key.\<close>

definition mem_at :: "('o \<Rightarrow> objkey) \<Rightarrow> (objkey \<times> 'o) list \<Rightarrow> objkey \<Rightarrow> 'o option" where
  "mem_at key m k = (case map_of m k of Some ob \<Rightarrow> if key ob = k then Some ob else None | None \<Rightarrow> None)"

definition mem_get :: "('o \<Rightarrow> objkey) \<Rightarrow> objkey \<Rightarrow> 'o mem \<Rightarrow> (api_err, 'o) result \<times> 'o mem" where
  "mem_get key k = (\<lambda>(m, fs). case next_fault fs of
     (Fine, fs') \<Rightarrow> (case mem_at key m k of
         Some ob \<Rightarrow> (Ok ob, (m, fs')) | None \<Rightarrow> (Err (status_err ''NotFound''), (m, fs')))
   | (Fails e, fs') \<Rightarrow> (Err (hide_notfound e), (m, fs'))
   | (Lost e, fs') \<Rightarrow> (Err (hide_notfound e), (m, fs')))"

text \<open>A write: the reason of a refusal, and the map after it.\<close>

definition mem_write ::
  "('o \<Rightarrow> (objkey \<times> 'o) list \<Rightarrow> string option) \<Rightarrow> ('o \<Rightarrow> (objkey \<times> 'o) list \<Rightarrow> (objkey \<times> 'o) list)
     \<Rightarrow> 'o \<Rightarrow> 'o mem \<Rightarrow> (api_err, unit) result \<times> 'o mem" where
  "mem_write refuse apply ob = (\<lambda>(m, fs). case next_fault fs of
     (Fails e, fs') \<Rightarrow> (Err (hide_notfound e), (m, fs'))
   | (f, fs') \<Rightarrow> (case refuse ob m of
         Some reason \<Rightarrow> (Err (status_err reason), (m, fs'))
       | None \<Rightarrow> ((case f of Lost e \<Rightarrow> Err (hide_notfound e) | _ \<Rightarrow> Ok ()), (apply ob m, fs'))))"

definition mem_client :: "('o \<Rightarrow> objkey) \<Rightarrow> ('o mem, 'o) client" where
  "mem_client key =
     \<lparr>cl_Get = mem_get key,
      cl_Create = mem_write (\<lambda>ob m. if mem_at key m (key ob) \<noteq> None then Some ''AlreadyExists'' else None) (\<lambda>ob m. mput (key ob) ob m),
      cl_Update = mem_write (\<lambda>ob m. if mem_at key m (key ob) \<noteq> None then None else Some ''NotFound'') (\<lambda>ob m. mput (key ob) ob m),
      cl_Delete = mem_write (\<lambda>ob m. if mem_at key m (key ob) \<noteq> None then None else Some ''NotFound'') (\<lambda>ob m. mdel (key ob) m)\<rparr>"

definition mem_view :: "('o \<Rightarrow> objkey) \<Rightarrow> 'o mem \<Rightarrow> objkey \<Rightarrow> 'o option" where
  "mem_view key s = mem_at key (fst s)"

lemma mem_at_key: "mem_at key m k = Some ob \<Longrightarrow> key ob = k"
  by (auto simp: mem_at_def split: option.splits if_splits)

lemma mem_at_write [simp]:
  "mem_at key (mput (key ob) ob m) = (mem_at key m)(key ob \<mapsto> ob)"
  "mem_at key (mdel k m) = (mem_at key m)(k := None)"
  by (auto simp: fun_eq_iff mem_at_def)

lemma hide_notfound [simp]: "\<not> IsNotFound (hide_notfound e)"
  by (simp add: hide_notfound_def status_err_def)

lemma status_err_IsNotFound [simp]: "IsNotFound (status_err r) \<longleftrightarrow> r = ''NotFound''"
  by (simp add: status_err_def)

interpretation mem: api_server "mem_client key" "mem_view key" key "(=)" for key :: "'o \<Rightarrow> objkey"
  by unfold_locales
    (auto simp: mem_client_def mem_get_def mem_write_def mem_view_def dest: mem_at_key
      split: prod.splits fault.splits option.splits if_splits)

section \<open>What an error message can hold\<close>

text \<open>The names that are known from the Go types: a section, or a field declared in it.\<close>

definition known_field :: "(string \<times> string list) list \<Rightarrow> string \<Rightarrow> bool" where
  "known_field sections f \<longleftrightarrow>
     (\<exists>(section, declared)\<in>set sections. f = section \<or> (\<exists>d\<in>set declared. f = section @ ''.'' @ d))"

lemma apiField_known: "apiField sections path \<noteq> '''' \<Longrightarrow> known_field sections (apiField sections path)"
  by (fastforce simp: apiField_def known_field_def Let_def dest: map_of_mem split: option.splits if_splits)

lemma apiError_fields:
  defines "step \<equiv> \<lambda>sections fs cause.
     let f = apiField sections cause in if f \<noteq> '''' \<and> f \<notin> set fs then fs @ [f] else fs"
  shows "distinct fs \<Longrightarrow> \<forall>f\<in>set fs. known_field sections f \<Longrightarrow>
    distinct (foldl (step sections) fs cs) \<and> (\<forall>f\<in>set (foldl (step sections) fs cs). known_field sections f)"
proof (induction cs arbitrary: fs)
  case (Cons c cs)
  have "distinct (step sections fs c)" "\<forall>f\<in>set (step sections fs c). known_field sections f"
    using Cons.prems apiField_known by (auto simp: step_def Let_def)
  from Cons.IH [OF this] show ?case by simp
qed simp

text \<open>C10: whatever the API server or the network answers, the message that the controllers report is built
  from fixed text, one of the reasons of the API server, and names of fields that the Go types declare,
  in order and each once: no text of the answer, of the object or of a webhook gets into it.\<close>

theorem apiError_discloses_nothing:
  "apiError sections err = ''the request to the API server failed, '' @ apiWithheld
   \<or> (\<exists>reason fs. (reason \<in> set apiReasons \<or> reason = ''Unknown'')
        \<and> sorted fs \<and> distinct fs \<and> (\<forall>f\<in>set fs. known_field sections f)
        \<and> apiError sections err = ''the API server answered '' @ reason
             @ (if fs = [] then '''' else '' for '' @ Join '', '' fs) @ '', '' @ apiWithheld)"
proof (cases err)
  case (Request t)
  then show ?thesis by (simp add: apiError_def)
next
  case (Status s)
  define fs where "fs = foldl (\<lambda>fs cause. let f = apiField sections cause
     in if f \<noteq> '''' \<and> f \<notin> set fs then fs @ [f] else fs) [] (as_Causes s)"
  define reason where "reason = (if as_Reason s \<in> set apiReasons then as_Reason s else ''Unknown'')"
  have fs: "distinct fs" "\<forall>f\<in>set fs. known_field sections f"
    using apiError_fields [of "[]" sections "as_Causes s"] by (simp_all add: fs_def)
  have "apiError sections err = ''the API server answered '' @ reason
      @ (if sort fs = [] then '''' else '' for '' @ Join '', '' (sort fs)) @ '', '' @ apiWithheld"
    by (simp add: Status apiError_def Let_def fs_def reason_def)
  moreover have "reason \<in> set apiReasons \<or> reason = ''Unknown''" by (simp add: reason_def)
  ultimately show ?thesis using fs by (intro disjI2 exI [of _ reason] exI [of _ "sort fs"]) simp
qed

theorem apiError_discloses_nothing_witness:
  "\<exists>reason fs. (reason \<in> set apiReasons \<or> reason = ''Unknown'')
      \<and> sorted fs \<and> distinct fs \<and> (\<forall>f\<in>set fs. known_field [(''spec'', [''timeout''])] f)
      \<and> apiError [(''spec'', [''timeout''])]
          (Status \<lparr>as_Reason = ''s3cret'', as_Message = ''s3cret'', as_Causes = [''spec.timeout[s3cret]'', ''data.s3cret'']\<rparr>)
        = ''the API server answered '' @ reason @ (if fs = [] then '''' else '' for '' @ Join '', '' fs) @ '', '' @ apiWithheld"
proof -
  have "apiError [(''spec'', [''timeout''])]
      (Status \<lparr>as_Reason = ''s3cret'', as_Message = ''s3cret'', as_Causes = [''spec.timeout[s3cret]'', ''data.s3cret'']\<rparr>)
    \<noteq> ''the request to the API server failed, '' @ apiWithheld"
    by (simp add: apiError_def Let_def del: foldl_Cons)
  then show ?thesis
    using apiError_discloses_nothing [of "[(''spec'', [''timeout''])]"
      "Status \<lparr>as_Reason = ''s3cret'', as_Message = ''s3cret'', as_Causes = [''spec.timeout[s3cret]'', ''data.s3cret'']\<rparr>"]
    by blast
qed

end
