(* ===== verification/ReplicationController.thy ===== *)
theory ReplicationController
  imports K8s
begin

text \<open>
  \<open>internal/controller/replication_controller.go\<close>: the controller that copies a Secret or a ConfigMap to
  another namespace. One reconciliation is run to its end, its requests to the API server in the order of the
  code, each of which may fail. The events it records are kept with the state of the server.
\<close>

section \<open>Secrets, ConfigMaps and the state\<close>

text \<open>A Secret has a type, a ConfigMap has binary data; a nil map is \<open>None\<close>, as \<open>reflect.DeepEqual\<close> tells it from
  an empty one. \<open>ko_Server\<close> stands for the fields that the API server fills in.\<close>

record kobj =
  ko_Kind :: string
  ko_Key :: NamespacedName
  ko_Labels :: "(string \<times> string) list option"
  ko_Annotations :: "(string \<times> string) list option"
  ko_Type :: string
  ko_Data :: "(string \<times> string) list option"
  ko_BinaryData :: "(string \<times> string) list option"
  ko_Server :: string

definition ko_objkey :: "kobj \<Rightarrow> objkey" where
  "ko_objkey ob = (ko_Kind ob, ko_Key ob)"

definition same_content :: "kobj \<Rightarrow> kobj \<Rightarrow> bool" where
  "same_content a b \<longleftrightarrow> a\<lparr>ko_Server := ''''\<rparr> = b\<lparr>ko_Server := ''''\<rparr>"

section \<open>Markers and metadata\<close>

definition KindSecret :: string where "KindSecret = ''Secret''"
definition KindConfigMap :: string where "KindConfigMap = ''ConfigMap''"
definition ReplicationAnnotation :: string where
  "ReplicationAnnotation = ''kubocd.kubotal.io/replication''"
definition ReplicationSourceAnnotation :: string where
  "ReplicationSourceAnnotation = ''kubocd.kubotal.io/replication-source''"
definition LastAppliedConfigAnnotation :: string where
  "LastAppliedConfigAnnotation = ''kubectl.kubernetes.io/last-applied-configuration''"
definition FinalizerName :: string where
  "FinalizerName = ''kubocd.kubotal.io/finalizer''"
definition ReplicationReconcilePeriod :: Duration where
  "ReplicationReconcilePeriod = 120000000000"

definition ResourceKey :: "string \<Rightarrow> string \<Rightarrow> string \<Rightarrow> string" where
  "ResourceKey namespace kind name = namespace @ ''/'' @ kind @ ''/'' @ name"

definition replicationDestination :: "Replication \<Rightarrow> NamespacedName" where
  "replicationDestination rp =
     nn (de_Namespace (re_Destination (rp_Spec rp)))
        (if de_Name (re_Destination (rp_Spec rp)) = '''' then so_Name (re_Source (rp_Spec rp))
         else de_Name (re_Destination (rp_Spec rp)))"

definition ReplicationResourceKeys :: "Replication \<Rightarrow> string list" where
  "ReplicationResourceKeys rp =
     [ResourceKey (om_Namespace (rp_meta rp)) (so_Kind (re_Source (rp_Spec rp))) (so_Name (re_Source (rp_Spec rp))),
      ResourceKey (Namespace (replicationDestination rp)) (so_Kind (re_Source (rp_Spec rp))) (Name (replicationDestination rp))]"

definition replicationOwner :: "Replication \<Rightarrow> string" where
  "replicationOwner rp = om_Namespace (rp_meta rp) @ ''/'' @ om_Name (rp_meta rp)"

definition nilget :: "(string \<times> string) list option \<Rightarrow> string \<Rightarrow> string option" where
  "nilget m k = (case m of None \<Rightarrow> None | Some m \<Rightarrow> map_of m k)"

definition isReplicatedBy :: "kobj \<Rightarrow> Replication \<Rightarrow> bool" where
  "isReplicatedBy ob rp \<longleftrightarrow>
     (case nilget (ko_Annotations ob) ReplicationAnnotation of None \<Rightarrow> '''' | Some v \<Rightarrow> v) = replicationOwner rp"

definition setReplicatedMetadata :: "Replication \<Rightarrow> kobj \<Rightarrow> kobj \<Rightarrow> kobj" where
  "setReplicatedMetadata rp source destination =
     (let labels = foldl (\<lambda>m (key, v). mput key v m) [] (case ko_Labels source of None \<Rightarrow> [] | Some m \<Rightarrow> m);
          annotations = foldl (\<lambda>m (key, v). if key = LastAppliedConfigAnnotation then m else mput key v m)
                          [] (case ko_Annotations source of None \<Rightarrow> [] | Some m \<Rightarrow> m);
          annotations = mput ReplicationAnnotation (replicationOwner rp) annotations;
          annotations = mput ReplicationSourceAnnotation
            (om_Namespace (rp_meta rp) @ ''/'' @ so_Kind (re_Source (rp_Spec rp)) @ ''/'' @ so_Name (re_Source (rp_Spec rp)))
            annotations
      in destination\<lparr>ko_Labels := (if labels = [] then None else Some labels), ko_Annotations := Some annotations\<rparr>)"

text \<open>\<open>reflect.DeepEqual\<close> on maps of strings.\<close>

definition DeepEqual :: "(string \<times> string) list option \<Rightarrow> (string \<times> string) list option \<Rightarrow> bool" where
  "DeepEqual a b =
     (case (a, b) of
        (None, None) \<Rightarrow> True
      | (Some m, Some n) \<Rightarrow> list_all (\<lambda>k. map_of m k = map_of n k) (keys m @ keys n)
      | _ \<Rightarrow> False)"

definition sameMetadata :: "kobj \<Rightarrow> kobj \<Rightarrow> bool" where
  "sameMetadata current target \<longleftrightarrow> DeepEqual (ko_Labels current) (ko_Labels target)
     \<and> DeepEqual (ko_Annotations current) (ko_Annotations target)"

section \<open>Errors\<close>

datatype repl_error =
    UnableToFetch string NamespacedName string
  | UnableToFetchSource string NamespacedName string
  | UnableToCreate string NamespacedName string
  | UnableToUpdate string NamespacedName string
  | UnableToDelete string NamespacedName string
  | SourceMissing string NamespacedName
  | SameAsSource NamespacedName
  | InvalidSourceKind string
  | AlreadyReplicated string NamespacedName string
  | TypeDiffers NamespacedName string string
  | ReadFailed string | FinalizerAddFailed string | FinalizerRemoveFailed string | StatusFailed string

definition quoted :: "NamespacedName \<Rightarrow> string" where
  "quoted n = [CHR 0x27] @ Namespace n @ ''/'' @ Name n @ [CHR 0x27]"

fun Error :: "repl_error \<Rightarrow> string" where
  "Error (UnableToFetch k n e) = ''unable to fetch '' @ k @ '' '' @ quoted n @ '': '' @ e"
| "Error (UnableToFetchSource k n e) = ''unable to fetch source '' @ k @ '' '' @ quoted n @ '': '' @ e"
| "Error (UnableToCreate k n e) = ''unable to create '' @ k @ '' '' @ quoted n @ '': '' @ e"
| "Error (UnableToUpdate k n e) = ''unable to update '' @ k @ '' '' @ quoted n @ '': '' @ e"
| "Error (UnableToDelete k n e) = ''unable to delete '' @ k @ '' '' @ quoted n @ '': '' @ e"
| "Error (SourceMissing k n) = ''source '' @ k @ '' '' @ quoted n @ '' does not exists''"
| "Error (SameAsSource n) = ''destination '' @ quoted n @ '' is the same as the source''"
| "Error (InvalidSourceKind k) = ''invalid source kind '' @ [CHR 0x27] @ k @ [CHR 0x27] @ ''. Must be ''
     @ [CHR 0x27] @ KindSecret @ [CHR 0x27] @ '' or '' @ [CHR 0x27] @ KindConfigMap @ [CHR 0x27]"
| "Error (AlreadyReplicated k n owner) = ''existing '' @ k @ '' '' @ quoted n @ '' is already replicated by ''
     @ [CHR 0x27] @ owner @ [CHR 0x27]"
| "Error (TypeDiffers n d s) = ''existing '' @ KindSecret @ '' '' @ quoted n @ '' is of type '' @ [CHR 0x27] @ d
     @ [CHR 0x27] @ '' while source is of type '' @ [CHR 0x27] @ s @ [CHR 0x27]"
| "Error (ReadFailed e) = ''could not read the Replication: '' @ e"
| "Error (FinalizerAddFailed e) = ''could not add the finalizer to the Replication: '' @ e"
| "Error (FinalizerRemoveFailed e) = ''could not remove the finalizer of the Replication: '' @ e"
| "Error (StatusFailed e) = ''could not update the Replication status: '' @ e"

definition checkDestinationOwnership :: "string \<Rightarrow> kobj \<Rightarrow> Replication \<Rightarrow> repl_error option" where
  "checkDestinationOwnership kind destination rp =
     (case nilget (ko_Annotations destination) ReplicationAnnotation of
        None \<Rightarrow> None
      | Some owner \<Rightarrow>
          if owner \<noteq> replicationOwner rp then Some (AlreadyReplicated kind (ko_Key destination) owner) else None)"

section \<open>Deleting and copying\<close>

text \<open>The describer of errors is \<open>apiError\<close> on the fields that the Go types declare, the argument \<open>descr\<close>.\<close>

definition rr_key :: "ReplicatedResource \<Rightarrow> NamespacedName" where
  "rr_key rr = nn (rr_Namespace rr) (rr_Name rr)"

definition deleteReplicated ::
  "(api_err \<Rightarrow> string) \<Rightarrow> ('s, kobj) client \<Rightarrow> ReplicatedResource option \<Rightarrow> Replication \<Rightarrow> 's world
     \<Rightarrow> (repl_error, unit) result \<times> 's world" where
  "deleteReplicated descr C replicated rp w =
     (case replicated of
        None \<Rightarrow> (Ok (), w)
      | Some rr \<Rightarrow>
          if rr_Kind rr \<noteq> KindSecret \<and> rr_Kind rr \<noteq> KindConfigMap then (Ok (), w)
          else (case call (cl_Get C (rr_Kind rr, rr_key rr)) w of
            (Inl e, w1) \<Rightarrow>
              if IsNotFound e then (Ok (), w1) else (Err (UnableToFetch (rr_Kind rr) (rr_key rr) (descr e)), w1)
          | (Inr ob, w1) \<Rightarrow>
              if \<not> isReplicatedBy ob rp then (Ok (), w1)
              else (case call (cl_Delete C ob) w1 of
                (r, w2) \<Rightarrow>
                  if (case r of Inl e \<Rightarrow> IsNotFound e | Inr _ \<Rightarrow> True)
                  then (Ok (), Event ''Normal'' ''Replication'' (''Deleted '' @ rr_Kind rr @ '' '' @ quoted (rr_key rr)) w2)
                  else (Err (UnableToDelete (rr_Kind rr) (rr_key rr) (case r of Inl e \<Rightarrow> descr e | Inr _ \<Rightarrow> '''')), w2))))"

text \<open>The outcome of a copy: whether a retry is worth it, the error, the Replication with its status, the state.\<close>

type_synonym 's outcome = "(bool \<times> repl_error option) \<times> Replication \<times> 's world"

definition set_Destination :: "ReplicatedResource option \<Rightarrow> Replication \<Rightarrow> Replication" where
  "set_Destination d rp = rp\<lparr>rp_Status := (rp_Status rp)\<lparr>rt_Destination := d\<rparr>\<rparr>"

definition sourceFetchError ::
  "(api_err \<Rightarrow> string) \<Rightarrow> ('s, kobj) client \<Rightarrow> Replication \<Rightarrow> string \<Rightarrow> NamespacedName \<Rightarrow> api_err \<Rightarrow> 's world \<Rightarrow> 's outcome" where
  "sourceFetchError descr C rp kind source err w =
     (if IsNotFound err
      then case deleteReplicated descr C (rt_Destination (rp_Status rp)) rp w of
             (Inl e, w1) \<Rightarrow> ((True, Some e), rp, w1)
           | (Inr _, w1) \<Rightarrow> ((False, Some (SourceMissing kind source)), set_Destination None rp, w1)
      else ((True, Some (UnableToFetchSource kind source (descr err))), rp, w))"

definition destinationFetchError :: "(api_err \<Rightarrow> string) \<Rightarrow> string \<Rightarrow> NamespacedName \<Rightarrow> api_err \<Rightarrow> repl_error" where
  "destinationFetchError descr kind destination err = UnableToFetch kind destination (descr err)"

definition replicateSecret ::
  "(api_err \<Rightarrow> string) \<Rightarrow> ('s, kobj) client \<Rightarrow> Replication \<Rightarrow> NamespacedName \<Rightarrow> NamespacedName \<Rightarrow> 's world \<Rightarrow> 's outcome" where
  "replicateSecret descr C rp source destination w =
     (case call (cl_Get C (KindSecret, source)) w of
        (Inl e, w1) \<Rightarrow> sourceFetchError descr C rp KindSecret source e w1
      | (Inr src, w1) \<Rightarrow>
          (case call (cl_Get C (KindSecret, destination)) w1 of
             (Inl e, w2) \<Rightarrow>
               if \<not> IsNotFound e then ((True, Some (destinationFetchError descr KindSecret destination e)), rp, w2)
               else let dst = setReplicatedMetadata rp src
                          \<lparr>ko_Kind = KindSecret, ko_Key = destination, ko_Labels = None, ko_Annotations = None,
                           ko_Type = ko_Type src, ko_Data = ko_Data src, ko_BinaryData = None, ko_Server = ''''\<rparr>
                    in (case call (cl_Create C dst) w2 of
                          (Inl e, w3) \<Rightarrow> ((True, Some (UnableToCreate KindSecret destination (descr e))), rp, w3)
                        | (Inr _, w3) \<Rightarrow> ((False, None), rp,
                             Event ''Normal'' ''Replication'' (''Created '' @ KindSecret @ '' '' @ quoted destination) w3))
           | (Inr dst, w2) \<Rightarrow>
               (case checkDestinationOwnership KindSecret dst rp of
                  Some e \<Rightarrow> ((False, Some e), rp, w2)
                | None \<Rightarrow>
                    if ko_Type dst \<noteq> ko_Type src
                    then ((False, Some (TypeDiffers destination (ko_Type dst) (ko_Type src))), rp, w2)
                    else let updated = setReplicatedMetadata rp src (dst\<lparr>ko_Data := ko_Data src\<rparr>)
                         in if DeepEqual (ko_Data dst) (ko_Data updated) \<and> sameMetadata dst updated
                            then ((False, None), rp, w2)
                            else (case call (cl_Update C updated) w2 of
                                    (Inl e, w3) \<Rightarrow> ((True, Some (UnableToUpdate KindSecret destination (descr e))), rp, w3)
                                  | (Inr _, w3) \<Rightarrow> ((False, None), rp,
                                      Event ''Normal'' ''Replication'' (''Updated '' @ KindSecret @ '' '' @ quoted destination) w3)))))"

definition replicateConfigMap ::
  "(api_err \<Rightarrow> string) \<Rightarrow> ('s, kobj) client \<Rightarrow> Replication \<Rightarrow> NamespacedName \<Rightarrow> NamespacedName \<Rightarrow> 's world \<Rightarrow> 's outcome" where
  "replicateConfigMap descr C rp source destination w =
     (case call (cl_Get C (KindConfigMap, source)) w of
        (Inl e, w1) \<Rightarrow> sourceFetchError descr C rp KindConfigMap source e w1
      | (Inr src, w1) \<Rightarrow>
          (case call (cl_Get C (KindConfigMap, destination)) w1 of
             (Inl e, w2) \<Rightarrow>
               if \<not> IsNotFound e then ((True, Some (destinationFetchError descr KindConfigMap destination e)), rp, w2)
               else let dst = setReplicatedMetadata rp src
                          \<lparr>ko_Kind = KindConfigMap, ko_Key = destination, ko_Labels = None, ko_Annotations = None,
                           ko_Type = '''', ko_Data = ko_Data src, ko_BinaryData = ko_BinaryData src, ko_Server = ''''\<rparr>
                    in (case call (cl_Create C dst) w2 of
                          (Inl e, w3) \<Rightarrow> ((True, Some (UnableToCreate KindConfigMap destination (descr e))), rp, w3)
                        | (Inr _, w3) \<Rightarrow> ((False, None), rp,
                             Event ''Normal'' ''Replication'' (''Created '' @ KindConfigMap @ '' '' @ quoted destination) w3))
           | (Inr dst, w2) \<Rightarrow>
               (case checkDestinationOwnership KindConfigMap dst rp of
                  Some e \<Rightarrow> ((False, Some e), rp, w2)
                | None \<Rightarrow>
                    let updated = setReplicatedMetadata rp src (dst\<lparr>ko_Data := ko_Data src, ko_BinaryData := ko_BinaryData src\<rparr>)
                    in if DeepEqual (ko_Data dst) (ko_Data updated) \<and> DeepEqual (ko_BinaryData dst) (ko_BinaryData updated)
                          \<and> sameMetadata dst updated
                       then ((False, None), rp, w2)
                       else (case call (cl_Update C updated) w2 of
                               (Inl e, w3) \<Rightarrow> ((True, Some (UnableToUpdate KindConfigMap destination (descr e))), rp, w3)
                             | (Inr _, w3) \<Rightarrow> ((False, None), rp,
                                 Event ''Normal'' ''Replication'' (''Updated '' @ KindConfigMap @ '' '' @ quoted destination) w3)))))"

definition target_of :: "Replication \<Rightarrow> ReplicatedResource" where
  "target_of rp = \<lparr>rr_Kind = so_Kind (re_Source (rp_Spec rp)), rr_Namespace = Namespace (replicationDestination rp),
     rr_Name = Name (replicationDestination rp)\<rparr>"

text \<open>The part of \<open>replicate\<close> after the orphan of a modified spec is removed.\<close>

definition replicate_to ::
  "(api_err \<Rightarrow> string) \<Rightarrow> ('s, kobj) client \<Rightarrow> Replication \<Rightarrow> 's world \<Rightarrow> 's outcome" where
  "replicate_to descr C rp w =
     (let sourceName = so_Name (re_Source (rp_Spec rp)); destination = replicationDestination rp;
          kind = so_Kind (re_Source (rp_Spec rp)); source = nn (om_Namespace (rp_meta rp)) sourceName
      in if Namespace destination = om_Namespace (rp_meta rp) \<and> Name destination = sourceName
         then ((False, Some (SameAsSource destination)), rp, w)
         else if kind \<noteq> KindSecret \<and> kind \<noteq> KindConfigMap then ((False, Some (InvalidSourceKind kind)), rp, w)
         else case (if kind = KindSecret then replicateSecret descr C rp source destination w
                    else replicateConfigMap descr C rp source destination w) of
           ((retryable, Some e), rp', w') \<Rightarrow> ((retryable, Some e), rp', w')
         | ((_, None), rp', w') \<Rightarrow> ((False, None), set_Destination (Some (target_of rp)) rp', w'))"

definition replicate ::
  "(api_err \<Rightarrow> string) \<Rightarrow> ('s, kobj) client \<Rightarrow> Replication \<Rightarrow> 's world \<Rightarrow> 's outcome" where
  "replicate descr C rp w =
     (if rt_Destination (rp_Status rp) \<noteq> None \<and> rt_Destination (rp_Status rp) \<noteq> Some (target_of rp)
      then case deleteReplicated descr C (rt_Destination (rp_Status rp)) rp w of
             (Inl e, w1) \<Rightarrow> ((True, Some e), rp, w1)
           | (Inr _, w1) \<Rightarrow> replicate_to descr C (set_Destination None rp) w1
      else replicate_to descr C rp w)"

section \<open>The reconciliation\<close>

record 's repl_client =
  rc_Get :: "NamespacedName \<Rightarrow> 's \<Rightarrow> (api_err, Replication) result \<times> 's"
  rc_Update :: "Replication \<Rightarrow> 's \<Rightarrow> (api_err, unit) result \<times> 's"
  rc_PatchStatus :: "Replication \<Rightarrow> Replication \<Rightarrow> 's \<Rightarrow> (api_err, unit) result \<times> 's"

definition ContainsFinalizer :: "Replication \<Rightarrow> bool" where
  "ContainsFinalizer rp \<longleftrightarrow> FinalizerName \<in> set (om_Finalizers (rp_meta rp))"

definition AddFinalizer :: "Replication \<Rightarrow> Replication" where
  "AddFinalizer rp = (if ContainsFinalizer rp then rp
     else rp\<lparr>rp_meta := (rp_meta rp)\<lparr>om_Finalizers := om_Finalizers (rp_meta rp) @ [FinalizerName]\<rparr>\<rparr>)"

definition RemoveFinalizer :: "Replication \<Rightarrow> Replication" where
  "RemoveFinalizer rp =
     rp\<lparr>rp_meta := (rp_meta rp)\<lparr>om_Finalizers := removeAll FinalizerName (om_Finalizers (rp_meta rp))\<rparr>\<rparr>"

definition setDestinationName :: "Replication \<Rightarrow> Replication" where
  "setDestinationName rp =
     rp\<lparr>rp_Status := (rp_Status rp)\<lparr>rt_DestinationName := Name (replicationDestination rp)\<rparr>\<rparr>"

text \<open>The status after \<open>replicate\<close>, and the event of a change of phase.\<close>

definition reportReplication ::
  "Replication \<Rightarrow> repl_error option \<Rightarrow> Replication \<Rightarrow> 's world \<Rightarrow> Replication \<times> 's world" where
  "reportReplication previous err rp w =
     (case err of
        Some e \<Rightarrow>
          (rp\<lparr>rp_Status := (rp_Status rp)\<lparr>rt_Phase := ReplicationPhaseError, rt_Message := Error e\<rparr>\<rparr>,
           if rt_Phase (rp_Status previous) \<noteq> ReplicationPhaseError \<or> rt_Message (rp_Status previous) \<noteq> Error e
           then Event ''Warning'' ''Status'' (Error e) w else w)
      | None \<Rightarrow>
          (rp\<lparr>rp_Status := (rp_Status rp)\<lparr>rt_Phase := ReplicationPhaseReady, rt_Message := ''''\<rparr>\<rparr>,
           if rt_Phase (rp_Status previous) \<noteq> ReplicationPhaseReady
           then Event ''Normal'' ''Status'' ''Replication ready'' w else w))"

text \<open>The delay before the next reconciliation, 0 for none, and the error that requeues.\<close>

definition reconcile2 ::
  "(api_err \<Rightarrow> string) \<Rightarrow> ('s, kobj) client \<Rightarrow> 's repl_client \<Rightarrow> NamespacedName \<Rightarrow> 's world
     \<Rightarrow> (repl_error, Duration) result \<times> 's world" where
  "reconcile2 descr C R req w =
     (case call (rc_Get R req) w of
        (Inl e, w1) \<Rightarrow> if IsNotFound e then (Ok 0, w1) else (Err (ReadFailed (descr e)), w1)
      | (Inr rp, w1) \<Rightarrow>
          if om_DeletionTimestamp (rp_meta rp) \<noteq> None
          then if \<not> ContainsFinalizer rp then (Ok 0, w1)
               else (case deleteReplicated descr C (rt_Destination (rp_Status rp)) rp w1 of
                       (Inl e, w2) \<Rightarrow> (Err e, w2)
                     | (Inr _, w2) \<Rightarrow>
                         (case call (rc_Update R (RemoveFinalizer rp)) w2 of
                            (Inl e, w3) \<Rightarrow> (Err (FinalizerRemoveFailed (descr e)), w3)
                          | (Inr _, w3) \<Rightarrow> (Ok 0, w3)))
          else if \<not> ContainsFinalizer rp
          then (case call (rc_Update R (AddFinalizer rp)) w1 of
                  (Inl e, w2) \<Rightarrow> (Err (FinalizerAddFailed (descr e)), w2)
                | (Inr _, w2) \<Rightarrow> (Ok 0, w2))
          else (case replicate descr C (setDestinationName rp) w1 of
                  ((retryable, err), rp1, w2) \<Rightarrow>
                    (case reportReplication rp err rp1 w2 of
                       (rp2, w3) \<Rightarrow>
                         (case (if rp_Status rp \<noteq> rp_Status rp2 then call (rc_PatchStatus R rp rp2) w3 else (Ok (), w3)) of
                            (Inl e, w4) \<Rightarrow> (Err (StatusFailed (descr e)), w4)
                          | (Inr _, w4) \<Rightarrow>
                              ((case err of
                                  Some e \<Rightarrow> if retryable then Err e else Ok 0
                                | None \<Rightarrow> if retryable then Ok 0 else Ok ReplicationReconcilePeriod), w4)))))"

section \<open>Lemmas on the metadata\<close>

lemma set_Destination_simps [simp]:
  "rp_meta (set_Destination d rp) = rp_meta rp" "rp_Spec (set_Destination d rp) = rp_Spec rp"
  "rt_Destination (rp_Status (set_Destination d rp)) = d"
  by (simp_all add: set_Destination_def)

lemma owner_nonempty [simp]: "replicationOwner rp \<noteq> ''''"
  by (simp add: replicationOwner_def)

lemma owner_eq:
  "rp_meta rp = rp_meta rp' \<Longrightarrow> replicationOwner rp = replicationOwner rp'"
  by (simp add: replicationOwner_def)

text \<open>An object that another Replication manages.\<close>

definition owned_by_other :: "Replication \<Rightarrow> kobj \<Rightarrow> bool" where
  "owned_by_other rp ob \<longleftrightarrow>
     (case nilget (ko_Annotations ob) ReplicationAnnotation of None \<Rightarrow> False | Some owner \<Rightarrow> owner \<noteq> replicationOwner rp)"

lemma isReplicatedBy_not_other: "isReplicatedBy ob rp \<Longrightarrow> \<not> owned_by_other rp ob"
  using owner_nonempty [of rp] by (auto simp: isReplicatedBy_def owned_by_other_def split: option.splits)

lemma checkDestinationOwnership_None:
  "checkDestinationOwnership kind ob rp = None \<longleftrightarrow> \<not> owned_by_other rp ob"
  by (auto simp: checkDestinationOwnership_def owned_by_other_def split: option.splits)

lemma DeepEqual_refl [simp]: "DeepEqual a a"
  by (simp add: DeepEqual_def list_all_iff split: option.split)

lemma sameMetadata_refl [simp]: "sameMetadata a a"
  by (simp add: sameMetadata_def)

lemma DeepEqual_nilget: "DeepEqual a b \<Longrightarrow> nilget a k = nilget b k"
proof (cases a; cases b)
  fix m n
  assume d: "DeepEqual a b" and m: "a = Some m" "b = Some n"
  have "map_of m k = map_of n k"
  proof (cases "k \<in> fst ` set m \<union> fst ` set n")
    case True
    then show ?thesis using d m by (auto simp: DeepEqual_def list_all_iff)
  next
    case False
    then show ?thesis by (metis UnI1 UnI2 map_of_eq_None_iff set_map)
  qed
  then show ?thesis using m by (simp add: nilget_def)
qed (auto simp: DeepEqual_def)

lemma setReplicatedMetadata_frame [simp]:
  "ko_Kind (setReplicatedMetadata rp src ob) = ko_Kind ob" "ko_Key (setReplicatedMetadata rp src ob) = ko_Key ob"
  "ko_Type (setReplicatedMetadata rp src ob) = ko_Type ob" "ko_Data (setReplicatedMetadata rp src ob) = ko_Data ob"
  "ko_BinaryData (setReplicatedMetadata rp src ob) = ko_BinaryData ob"
  "ko_objkey (setReplicatedMetadata rp src ob) = ko_objkey ob"
  by (simp_all add: setReplicatedMetadata_def Let_def ko_objkey_def)

text \<open>The metadata set do not depend on those of the destination.\<close>

lemma setReplicatedMetadata_meta:
  "ko_Labels (setReplicatedMetadata rp src a) = ko_Labels (setReplicatedMetadata rp src b)"
  "ko_Annotations (setReplicatedMetadata rp src a) = ko_Annotations (setReplicatedMetadata rp src b)"
  by (simp_all add: setReplicatedMetadata_def Let_def)

lemma setReplicatedMetadata_owner:
  "nilget (ko_Annotations (setReplicatedMetadata rp src ob)) ReplicationAnnotation = Some (replicationOwner rp)"
  by (simp add: setReplicatedMetadata_def Let_def nilget_def ReplicationAnnotation_def ReplicationSourceAnnotation_def)

text \<open>What a copy of a source is: its data, and the metadata that the controller sets for it.\<close>

definition copy_of :: "Replication \<Rightarrow> kobj \<Rightarrow> kobj \<Rightarrow> bool" where
  "copy_of rp src ob \<longleftrightarrow> DeepEqual (ko_Data ob) (ko_Data src)
     \<and> (ko_Kind ob = KindSecret \<longrightarrow> ko_Type ob = ko_Type src)
     \<and> (ko_Kind ob = KindConfigMap \<longrightarrow> DeepEqual (ko_BinaryData ob) (ko_BinaryData src))
     \<and> sameMetadata ob (setReplicatedMetadata rp src ob)"

lemma same_content_fields:
  assumes "same_content a b"
  shows "ko_Kind b = ko_Kind a" "ko_Key b = ko_Key a" "ko_Labels b = ko_Labels a" "ko_Annotations b = ko_Annotations a"
    "ko_Type b = ko_Type a" "ko_Data b = ko_Data a" "ko_BinaryData b = ko_BinaryData a"
  using assms by (cases a; cases b; simp add: same_content_def)+

lemma copy_of_same:
  assumes "copy_of rp src a" "same_content a b"
  shows "copy_of rp src b"
  using assms(1) same_content_fields [OF assms(2)] setReplicatedMetadata_meta [of rp src b a]
  by (simp add: copy_of_def sameMetadata_def)

text \<open>What a step leaves alone: the objects of the other Replications.\<close>

definition spares :: "Replication \<Rightarrow> (objkey \<Rightarrow> kobj option) \<Rightarrow> (objkey \<Rightarrow> kobj option) \<Rightarrow> bool" where
  "spares rp v v' \<longleftrightarrow> (\<forall>k ob. v k = Some ob \<longrightarrow> owned_by_other rp ob \<longrightarrow> v' k = Some ob)"

lemma spares_refl [simp]: "spares rp v v"
  by (simp add: spares_def)

lemma spares_trans: "spares rp u v \<Longrightarrow> spares rp v x \<Longrightarrow> spares rp u x"
  by (auto simp: spares_def)

lemma spares_meta: "rp_meta rp = rp_meta rp' \<Longrightarrow> spares rp = spares rp'"
  unfolding spares_def owned_by_other_def using owner_eq [of rp rp'] by presburger

lemma spares_upd: "v k = None \<or> (\<exists>ob. v k = Some ob \<and> \<not> owned_by_other rp ob) \<Longrightarrow> spares rp v (v(k := x))"
  by (auto simp: spares_def)

text \<open>The two copies have one shape: how a new object is made, what refuses an existing one, what it is updated
  to, and when it is up to date.\<close>

definition copy_resource ::
  "(api_err \<Rightarrow> string) \<Rightarrow> ('s, kobj) client \<Rightarrow> string \<Rightarrow> Replication \<Rightarrow> (kobj \<Rightarrow> kobj) \<Rightarrow> (kobj \<Rightarrow> kobj \<Rightarrow> repl_error option)
     \<Rightarrow> (kobj \<Rightarrow> kobj \<Rightarrow> kobj) \<Rightarrow> (kobj \<Rightarrow> kobj \<Rightarrow> bool) \<Rightarrow> NamespacedName \<Rightarrow> NamespacedName \<Rightarrow> 's world \<Rightarrow> 's outcome" where
  "copy_resource descr C kind rp new refuse updated uptodate source destination w =
     (case call (cl_Get C (kind, source)) w of
        (Inl e, w1) \<Rightarrow> sourceFetchError descr C rp kind source e w1
      | (Inr src, w1) \<Rightarrow>
          (case call (cl_Get C (kind, destination)) w1 of
             (Inl e, w2) \<Rightarrow>
               if \<not> IsNotFound e then ((True, Some (destinationFetchError descr kind destination e)), rp, w2)
               else (case call (cl_Create C (new src)) w2 of
                       (Inl e, w3) \<Rightarrow> ((True, Some (UnableToCreate kind destination (descr e))), rp, w3)
                     | (Inr _, w3) \<Rightarrow> ((False, None), rp,
                          Event ''Normal'' ''Replication'' (''Created '' @ kind @ '' '' @ quoted destination) w3))
           | (Inr dst, w2) \<Rightarrow>
               (case checkDestinationOwnership kind dst rp of
                  Some e \<Rightarrow> ((False, Some e), rp, w2)
                | None \<Rightarrow>
                    (case refuse src dst of
                       Some e \<Rightarrow> ((False, Some e), rp, w2)
                     | None \<Rightarrow>
                         if uptodate dst (updated src dst) then ((False, None), rp, w2)
                         else (case call (cl_Update C (updated src dst)) w2 of
                                 (Inl e, w3) \<Rightarrow> ((True, Some (UnableToUpdate kind destination (descr e))), rp, w3)
                               | (Inr _, w3) \<Rightarrow> ((False, None), rp,
                                   Event ''Normal'' ''Replication'' (''Updated '' @ kind @ '' '' @ quoted destination) w3))))))"

definition new_secret :: "Replication \<Rightarrow> NamespacedName \<Rightarrow> kobj \<Rightarrow> kobj" where
  "new_secret rp destination src = setReplicatedMetadata rp src
     \<lparr>ko_Kind = KindSecret, ko_Key = destination, ko_Labels = None, ko_Annotations = None,
      ko_Type = ko_Type src, ko_Data = ko_Data src, ko_BinaryData = None, ko_Server = ''''\<rparr>"

definition new_configMap :: "Replication \<Rightarrow> NamespacedName \<Rightarrow> kobj \<Rightarrow> kobj" where
  "new_configMap rp destination src = setReplicatedMetadata rp src
     \<lparr>ko_Kind = KindConfigMap, ko_Key = destination, ko_Labels = None, ko_Annotations = None,
      ko_Type = '''', ko_Data = ko_Data src, ko_BinaryData = ko_BinaryData src, ko_Server = ''''\<rparr>"

lemma replicateSecret_copy:
  "replicateSecret descr C rp source destination =
     copy_resource descr C KindSecret rp (new_secret rp destination)
       (\<lambda>src dst. if ko_Type dst \<noteq> ko_Type src then Some (TypeDiffers destination (ko_Type dst) (ko_Type src)) else None)
       (\<lambda>src dst. setReplicatedMetadata rp src (dst\<lparr>ko_Data := ko_Data src\<rparr>))
       (\<lambda>dst u. DeepEqual (ko_Data dst) (ko_Data u) \<and> sameMetadata dst u) source destination"
  by (rule ext) (simp add: replicateSecret_def copy_resource_def new_secret_def Let_def split: prod.split sum.split option.split)

lemma replicateConfigMap_copy:
  "replicateConfigMap descr C rp source destination =
     copy_resource descr C KindConfigMap rp (new_configMap rp destination) (\<lambda>src dst. None)
       (\<lambda>src dst. setReplicatedMetadata rp src (dst\<lparr>ko_Data := ko_Data src, ko_BinaryData := ko_BinaryData src\<rparr>))
       (\<lambda>dst u. DeepEqual (ko_Data dst) (ko_Data u) \<and> DeepEqual (ko_BinaryData dst) (ko_BinaryData u) \<and> sameMetadata dst u)
       source destination"
  by (rule ext) (simp add: replicateConfigMap_def copy_resource_def new_configMap_def Let_def split: prod.split sum.split option.split)

lemma kinds_differ: "KindSecret \<noteq> KindConfigMap"
  by (simp add: KindSecret_def KindConfigMap_def)

lemma copy_of_new:
  "copy_of rp src (new_secret rp d src)" "copy_of rp src (new_configMap rp d src)"
  using kinds_differ
  by (auto simp: copy_of_def sameMetadata_def new_secret_def new_configMap_def setReplicatedMetadata_def Let_def)

lemma copy_of_ownership: "copy_of rp src ob \<Longrightarrow> checkDestinationOwnership kind ob rp = None"
  using DeepEqual_nilget [of "ko_Annotations ob" "ko_Annotations (setReplicatedMetadata rp src ob)" ReplicationAnnotation]
    setReplicatedMetadata_owner [of rp src ob]
  by (simp add: copy_of_def sameMetadata_def checkDestinationOwnership_def)

lemma copy_of_uptodate:
  assumes "copy_of rp src ob"
  shows "DeepEqual (ko_Data ob) (ko_Data (setReplicatedMetadata rp src (ob\<lparr>ko_Data := ko_Data src\<rparr>)))
      \<and> sameMetadata ob (setReplicatedMetadata rp src (ob\<lparr>ko_Data := ko_Data src\<rparr>))"
    and "DeepEqual (ko_Data ob) (ko_Data (setReplicatedMetadata rp src (ob\<lparr>ko_Data := ko_Data src, ko_BinaryData := ko_BinaryData src\<rparr>)))
      \<and> sameMetadata ob (setReplicatedMetadata rp src (ob\<lparr>ko_Data := ko_Data src, ko_BinaryData := ko_BinaryData src\<rparr>))"
  using assms by (simp_all add: copy_of_def sameMetadata_def setReplicatedMetadata_def Let_def)

text \<open>The destination holds a copy of the source.\<close>

definition in_sync :: "Replication \<Rightarrow> (objkey \<Rightarrow> kobj option) \<Rightarrow> bool" where
  "in_sync rp v \<longleftrightarrow>
     (\<exists>src ob. v (so_Kind (re_Source (rp_Spec rp)), nn (om_Namespace (rp_meta rp)) (so_Name (re_Source (rp_Spec rp)))) = Some src
        \<and> v (so_Kind (re_Source (rp_Spec rp)), replicationDestination rp) = Some ob \<and> copy_of rp src ob)"

lemma set_Destination_frame [simp]:
  "target_of (set_Destination d rp) = target_of rp"
  "replicationDestination (set_Destination d rp) = replicationDestination rp"
  "replicationOwner (set_Destination d rp) = replicationOwner rp"
  "set_Destination a (set_Destination b rp) = set_Destination a rp"
  "setReplicatedMetadata (set_Destination d rp) = setReplicatedMetadata rp"
  "copy_of (set_Destination d rp) = copy_of rp" "in_sync (set_Destination d rp) = in_sync rp"
proof -
  show c: "setReplicatedMetadata (set_Destination d rp) = setReplicatedMetadata rp"
    by (simp add: fun_eq_iff setReplicatedMetadata_def Let_def replicationOwner_def)
  show "copy_of (set_Destination d rp) = copy_of rp" by (simp add: fun_eq_iff copy_of_def c)
  then show "in_sync (set_Destination d rp) = in_sync rp"
    by (simp add: fun_eq_iff in_sync_def replicationDestination_def)
qed (simp_all add: set_Destination_def target_of_def replicationDestination_def replicationOwner_def)

section \<open>What the reconciliation promises\<close>

locale repl_server = api_server C view ko_objkey same_content
  for C :: "('s, kobj) client" and view :: "'s \<Rightarrow> objkey \<Rightarrow> kobj option" +
  fixes R :: "'s repl_client"
  assumes rc_get_view: "rc_Get R n s = (r, s') \<Longrightarrow> view s' = view s"
    and rc_update_view: "rc_Update R rp s = (u, s') \<Longrightarrow> view s' = view s"
    and rc_patch_view: "rc_PatchStatus R old rp s = (u, s') \<Longrightarrow> view s' = view s"
    and view_keys: "view s k = Some ob \<Longrightarrow> ko_objkey ob = k"
begin

lemma call_get_ok:
  "call (cl_Get C k) w = (Inr ob, w') \<Longrightarrow>
     view (w_api w') = view (w_api w) \<and> view (w_api w) k = Some ob \<and> ko_objkey ob = k \<and> w_events w' = w_events w"
  using get_ok [of k "w_api w"] get_view [of k "w_api w"]
  by (cases w; cases w') (auto simp: call_def split: prod.splits)

lemma call_get_err:
  "call (cl_Get C k) w = (Inl e, w') \<Longrightarrow>
     view (w_api w') = view (w_api w) \<and> (IsNotFound e \<longrightarrow> view (w_api w) k = None)"
  using get_gone [of k "w_api w"] get_view [of k "w_api w"]
  by (cases w; cases w') (auto simp: call_def split: prod.splits)

lemma deleteReplicated_post:
  assumes "deleteReplicated descr C replicated rp w = (r, w')"
  shows "spares rp (view (w_api w)) (view (w_api w'))"
    and "replicated = Some rr \<Longrightarrow> k \<noteq> (rr_Kind rr, rr_key rr) \<Longrightarrow> view (w_api w') k = view (w_api w) k"
    and "replicated = None \<Longrightarrow> w' = w \<and> r = Inr ()"
    and "r = Inr u \<Longrightarrow> replicated = Some rr \<Longrightarrow> rr_Kind rr = KindSecret \<or> rr_Kind rr = KindConfigMap \<Longrightarrow>
      view (w_api w') (rr_Kind rr, rr_key rr) = Some ob \<Longrightarrow> \<not> isReplicatedBy ob rp"
proof -
  consider "view (w_api w') = view (w_api w)"
    | x k' ob' where "replicated = Some x" "k' = (rr_Kind x, rr_key x)" "view (w_api w) k' = Some ob'" "isReplicatedBy ob' rp"
      "\<forall>k. k \<noteq> k' \<longrightarrow> view (w_api w') k = view (w_api w) k" "view (w_api w') k' = None \<or> view (w_api w') k' = view (w_api w) k'"
  proof (cases replicated)
    case None
    then show ?thesis using assms that(1) by (simp add: deleteReplicated_def)
  next
    case (Some x)
    obtain r1 w1 where g: "call (cl_Get C (rr_Kind x, rr_key x)) w = (r1, w1)" by fastforce
    show ?thesis
    proof (cases r1)
      case (Inl e)
      then show ?thesis using assms Some g call_get_err [of _ w e w1] that(1)
        by (auto simp: deleteReplicated_def split: if_splits)
    next
      case (Inr ob')
      then have v: "view (w_api w1) = view (w_api w)" "view (w_api w) (rr_Kind x, rr_key x) = Some ob'"
          "ko_objkey ob' = (rr_Kind x, rr_key x)"
        using g call_get_ok by auto
      obtain r2 w2 where d: "call (cl_Delete C ob') w1 = (r2, w2)" by fastforce
      have c: "cl_Delete C ob' (w_api w1) = (r2, w_api w2)" using d by (simp add: call_iff)
      have "view (w_api w2) (ko_objkey ob') = None \<or> view (w_api w2) = view (w_api w1)"
        using delete_ok [of ob' "w_api w1"] delete_err [of ob' "w_api w1"] c by (cases r2) force+
      then show ?thesis
        using assms Some g Inr d v delete_frame [OF c] that
        by (auto simp: deleteReplicated_def split: if_splits sum.splits)
    qed
  qed
  note cs = this
  show "spares rp (view (w_api w)) (view (w_api w'))"
    unfolding spares_def
  proof (intro allI impI)
    fix k ob
    assume k: "view (w_api w) k = Some ob" "owned_by_other rp ob"
    from cs show "view (w_api w') k = Some ob"
    proof cases
      case (2 x k' ob')
      then have "k \<noteq> k'" using k isReplicatedBy_not_other by auto
      then show ?thesis using 2(5) k(1) by metis
    qed (simp add: k)
  qed
  show "replicated = Some rr \<Longrightarrow> k \<noteq> (rr_Kind rr, rr_key rr) \<Longrightarrow> view (w_api w') k = view (w_api w) k"
    using cs by cases (metis option.inject, metis option.inject)
  show "replicated = None \<Longrightarrow> w' = w \<and> r = Inr ()" using assms by (simp add: deleteReplicated_def)
  assume a: "r = Inr u" "replicated = Some rr" "rr_Kind rr = KindSecret \<or> rr_Kind rr = KindConfigMap"
    "view (w_api w') (rr_Kind rr, rr_key rr) = Some ob"
  obtain r1 w1 where g: "call (cl_Get C (rr_Kind rr, rr_key rr)) w = (r1, w1)" by fastforce
  show "\<not> isReplicatedBy ob rp"
  proof (cases r1)
    case (Inl e)
    then show ?thesis using assms a g call_get_err [of _ w e w1]
      by (auto simp: deleteReplicated_def split: if_splits)
  next
    case (Inr ob')
    then have v: "view (w_api w1) = view (w_api w)" "view (w_api w) (rr_Kind rr, rr_key rr) = Some ob'"
        "ko_objkey ob' = (rr_Kind rr, rr_key rr)"
      using g call_get_ok by auto
    obtain r2 w2 where d: "call (cl_Delete C ob') w1 = (r2, w2)" by fastforce
    then have "cl_Delete C ob' (w_api w1) = (r2, w_api w2)" by (simp add: call_iff)
    then show ?thesis
      using assms a g Inr v d delete_done [of ob' "w_api w1" r2 "w_api w2"]
      by (auto simp: deleteReplicated_def split: if_splits)
  qed
qed


lemma sourceFetchError_post:
  assumes "sourceFetchError descr C rp kind source e w = ((retry, err), rp', w')"
  shows "spares rp (view (w_api w)) (view (w_api w'))" "err \<noteq> None" "rp_meta rp' = rp_meta rp"
    "rt_Destination (rp_Status rp) = Some rr \<Longrightarrow> k \<noteq> (rr_Kind rr, rr_key rr) \<Longrightarrow> view (w_api w') k = view (w_api w) k"
    "rt_Destination (rp_Status rp) = None \<Longrightarrow> view (w_api w') = view (w_api w)"
proof -
  obtain r1 w1 where d: "deleteReplicated descr C (rt_Destination (rp_Status rp)) rp w = (r1, w1)" by fastforce
  have w': "w' = w1 \<or> w' = w" and s: "err \<noteq> None" "rp_meta rp' = rp_meta rp"
    using assms d by (auto simp: sourceFetchError_def split: if_splits sum.splits)
  from s show "err \<noteq> None" "rp_meta rp' = rp_meta rp" .
  show "spares rp (view (w_api w)) (view (w_api w'))"
    using w' deleteReplicated_post(1) [OF d] by auto
  show "rt_Destination (rp_Status rp) = Some rr \<Longrightarrow> k \<noteq> (rr_Kind rr, rr_key rr) \<Longrightarrow> view (w_api w') k = view (w_api w) k"
    using w' deleteReplicated_post(2) [OF d] by metis
  show "rt_Destination (rp_Status rp) = None \<Longrightarrow> view (w_api w') = view (w_api w)"
    using w' deleteReplicated_post(3) [OF d] by metis
qed

text \<open>A creation where nothing is held, and an update of an object that is not of another Replication.\<close>

lemma create_post:
  assumes "call (cl_Create C ob) w = (r, w')" "view (w_api w) (ko_objkey ob) = None"
  shows "spares rp (view (w_api w)) (view (w_api w'))"
    and "k \<noteq> ko_objkey ob \<Longrightarrow> view (w_api w') k = view (w_api w) k"
    and "r = Inr u \<Longrightarrow> \<exists>ob'. same_content ob ob' \<and> view (w_api w') (ko_objkey ob) = Some ob'"
proof -
  have c: "cl_Create C ob (w_api w) = (r, w_api w')" using assms(1) by (simp add: call_iff)
  show f: "k \<noteq> ko_objkey ob \<Longrightarrow> view (w_api w') k = view (w_api w) k" for k using create_frame [OF c] .
  show "spares rp (view (w_api w)) (view (w_api w'))"
    unfolding spares_def using f assms(2) by (metis option.distinct(1))
  show "r = Inr u \<Longrightarrow> \<exists>ob'. same_content ob ob' \<and> view (w_api w') (ko_objkey ob) = Some ob'"
    using create_ok [of ob "w_api w" u "w_api w'"] c by auto
qed

lemma update_post:
  assumes "call (cl_Update C ob) w = (r, w')" "view (w_api w) (ko_objkey ob) = Some old" "\<not> owned_by_other rp old"
  shows "spares rp (view (w_api w)) (view (w_api w'))"
    and "k \<noteq> ko_objkey ob \<Longrightarrow> view (w_api w') k = view (w_api w) k"
    and "r = Inr u \<Longrightarrow> \<exists>ob'. same_content ob ob' \<and> view (w_api w') (ko_objkey ob) = Some ob'"
proof -
  have c: "cl_Update C ob (w_api w) = (r, w_api w')" using assms(1) by (simp add: call_iff)
  show f: "k \<noteq> ko_objkey ob \<Longrightarrow> view (w_api w') k = view (w_api w) k" for k using update_frame [OF c] .
  show "spares rp (view (w_api w)) (view (w_api w'))"
    unfolding spares_def using f assms(2,3) by (metis option.inject)
  show "r = Inr u \<Longrightarrow> \<exists>ob'. same_content ob ob' \<and> view (w_api w') (ko_objkey ob) = Some ob'"
    using update_ok [of ob "w_api w" u "w_api w'"] c by auto
qed

text \<open>What \<open>replicateSecret\<close> and \<open>replicateConfigMap\<close> promise.\<close>

definition copy_post ::
  "string \<Rightarrow> Replication \<Rightarrow> NamespacedName \<Rightarrow> NamespacedName \<Rightarrow> 's world \<Rightarrow> 's outcome \<Rightarrow> bool" where
  "copy_post kind rp source destination w out =
     (case out of ((retry, err), rp', w') \<Rightarrow>
        spares rp (view (w_api w)) (view (w_api w')) \<and> rp_meta rp' = rp_meta rp
        \<and> (err = None \<longrightarrow> rp' = rp \<and> (\<forall>k. k \<noteq> (kind, destination) \<longrightarrow> view (w_api w') k = view (w_api w) k)
             \<and> (\<exists>src ob. view (w_api w) (kind, source) = Some src \<and> view (w_api w') (kind, destination) = Some ob
                  \<and> copy_of rp src ob)))"

lemma copy_resource_post:
  assumes new: "\<And>src. ko_objkey (new src) = (kind, destination) \<and> copy_of rp src (new src)"
    and upd: "\<And>src dst. ko_objkey dst = (kind, destination) \<Longrightarrow> refuse src dst = None \<Longrightarrow>
      ko_objkey (updated src dst) = (kind, destination) \<and> copy_of rp src (updated src dst)
      \<and> (uptodate dst (updated src dst) \<longrightarrow> copy_of rp src dst)"
  shows "copy_post kind rp source destination w
    (copy_resource descr C kind rp new refuse updated uptodate source destination w)"
proof -
  obtain r1 w1 where g1: "call (cl_Get C (kind, source)) w = (r1, w1)" by fastforce
  show ?thesis
  proof (cases r1)
    case (Inl e)
    obtain retry err rp' w' where o: "sourceFetchError descr C rp kind source e w1 = ((retry, err), rp', w')"
      by (metis prod.exhaust)
    with sourceFetchError_post [OF o] show ?thesis
      using call_get_err [of "(kind, source)" w e w1] g1 Inl by (auto simp: copy_post_def copy_resource_def)
  next
    case (Inr src)
    have v1: "view (w_api w1) = view (w_api w)" "view (w_api w) (kind, source) = Some src"
      using call_get_ok [of "(kind, source)" w src w1] g1 Inr by auto
    obtain r2 w2 where g2: "call (cl_Get C (kind, destination)) w1 = (r2, w2)" by fastforce
    show ?thesis
    proof (cases r2)
      case Inl2: (Inl e)
      have v2: "view (w_api w2) = view (w_api w)" "IsNotFound e \<longrightarrow> view (w_api w) (kind, destination) = None"
        using call_get_err [of "(kind, destination)" w1 e w2] g2 Inl2 v1(1) by auto
      obtain r3 w3 where c3: "call (cl_Create C (new src)) w2 = (r3, w3)" by fastforce
      note p = create_post [OF c3, unfolded conjunct1 [OF new] v2(1)]
      show ?thesis using g1 Inr g2 Inl2 c3 v1 v2 p copy_of_same [OF conjunct2 [OF new]]
        by (cases "IsNotFound e"; cases r3) (fastforce simp: copy_post_def copy_resource_def)+
    next
      case Inr2: (Inr dst)
      have v2: "view (w_api w2) = view (w_api w)" "view (w_api w) (kind, destination) = Some dst"
          "ko_objkey dst = (kind, destination)"
        using call_get_ok [of "(kind, destination)" w1 dst w2] g2 Inr2 v1(1) by auto
      show ?thesis
      proof (cases "owned_by_other rp dst \<or> refuse src dst \<noteq> None")
        case True
        then show ?thesis using g1 Inr g2 Inr2 v2(1) checkDestinationOwnership_None [of kind dst rp]
          by (auto simp: copy_post_def copy_resource_def split: option.splits)
      next
        case False
        then have own: "checkDestinationOwnership kind dst rp = None" "\<not> owned_by_other rp dst" "refuse src dst = None"
          by (simp_all add: checkDestinationOwnership_None)
        note u = upd [OF v2(3) own(3)]
        obtain r3 w3 where c3: "call (cl_Update C (updated src dst)) w2 = (r3, w3)" by fastforce
        note p = update_post [OF c3, unfolded conjunct1 [OF u] v2(1), OF v2(2) own(2)]
        show ?thesis using g1 Inr g2 Inr2 own c3 v1 v2 p u copy_of_same [of rp src "updated src dst"]
          by (cases "uptodate dst (updated src dst)"; cases r3) (fastforce simp: copy_post_def copy_resource_def Let_def)+
      qed
    qed
  qed
qed

lemma replicateSecret_post:
  "copy_post KindSecret rp source destination w (replicateSecret descr C rp source destination w)"
  unfolding replicateSecret_copy
proof (rule copy_resource_post)
  fix src dst
  show "ko_objkey (new_secret rp destination src) = (KindSecret, destination) \<and> copy_of rp src (new_secret rp destination src)"
    by (simp add: copy_of_new) (simp add: new_secret_def ko_objkey_def)
  assume "ko_objkey dst = (KindSecret, destination)"
    "(if ko_Type dst \<noteq> ko_Type src then Some (TypeDiffers destination (ko_Type dst) (ko_Type src)) else None) = None"
  then show "ko_objkey (setReplicatedMetadata rp src (dst\<lparr>ko_Data := ko_Data src\<rparr>)) = (KindSecret, destination)
      \<and> copy_of rp src (setReplicatedMetadata rp src (dst\<lparr>ko_Data := ko_Data src\<rparr>))
      \<and> (DeepEqual (ko_Data dst) (ko_Data (setReplicatedMetadata rp src (dst\<lparr>ko_Data := ko_Data src\<rparr>)))
          \<and> sameMetadata dst (setReplicatedMetadata rp src (dst\<lparr>ko_Data := ko_Data src\<rparr>)) \<longrightarrow> copy_of rp src dst)"
    using kinds_differ by (auto simp: ko_objkey_def copy_of_def sameMetadata_def setReplicatedMetadata_def Let_def split: if_splits)
qed

lemma replicateConfigMap_post:
  "copy_post KindConfigMap rp source destination w (replicateConfigMap descr C rp source destination w)"
  unfolding replicateConfigMap_copy
proof (rule copy_resource_post)
  fix src dst
  show "ko_objkey (new_configMap rp destination src) = (KindConfigMap, destination) \<and> copy_of rp src (new_configMap rp destination src)"
    by (simp add: copy_of_new) (simp add: new_configMap_def ko_objkey_def)
  let ?u = "setReplicatedMetadata rp src (dst\<lparr>ko_Data := ko_Data src, ko_BinaryData := ko_BinaryData src\<rparr>)"
  assume "ko_objkey dst = (KindConfigMap, destination)"
  then show "ko_objkey ?u = (KindConfigMap, destination) \<and> copy_of rp src ?u
      \<and> (DeepEqual (ko_Data dst) (ko_Data ?u) \<and> DeepEqual (ko_BinaryData dst) (ko_BinaryData ?u) \<and> sameMetadata dst ?u
         \<longrightarrow> copy_of rp src dst)"
    using kinds_differ by (auto simp: ko_objkey_def copy_of_def sameMetadata_def setReplicatedMetadata_def Let_def)
qed


lemma replicate_to_post:
  assumes "replicate_to descr C rp w = ((retry, err), rp', w')"
  shows "spares rp (view (w_api w)) (view (w_api w'))" "rp_meta rp' = rp_meta rp"
    and "err = None \<Longrightarrow> rp' = set_Destination (Some (target_of rp)) rp \<and> in_sync rp (view (w_api w'))"
proof -
  let ?k = "so_Kind (re_Source (rp_Spec rp))" and ?d = "replicationDestination rp"
  let ?s = "nn (om_Namespace (rp_meta rp)) (so_Name (re_Source (rp_Spec rp)))"
  obtain retry1 err1 rp1 w1 where c:
    "(if ?k = KindSecret then replicateSecret descr C rp ?s ?d w else replicateConfigMap descr C rp ?s ?d w)
       = ((retry1, err1), rp1, w1)" by (metis prod.exhaust)
  have p: "copy_post ?k rp ?s ?d w ((retry1, err1), rp1, w1)" if "?k = KindSecret \<or> ?k = KindConfigMap"
    using that replicateSecret_post [of rp ?s ?d w descr] replicateConfigMap_post [of rp ?s ?d w descr] c kinds_differ
    by (cases "?k = KindSecret") auto
  show "spares rp (view (w_api w)) (view (w_api w'))" "rp_meta rp' = rp_meta rp"
    using assms c p by (auto simp: replicate_to_def Let_def copy_post_def split: if_splits option.splits)
  assume "err = None"
  then have n: "err1 = None" "?k = KindSecret \<or> ?k = KindConfigMap" "\<not> (Namespace ?d = om_Namespace (rp_meta rp) \<and> Name ?d = so_Name (re_Source (rp_Spec rp)))"
    "rp' = set_Destination (Some (target_of rp)) rp1" "w' = w1"
    using assms c by (auto simp: replicate_to_def Let_def split: if_splits option.splits)
  have ne: "(?k, ?s) \<noteq> (?k, ?d)" using n(3) by (cases ?d) (auto simp: nn_def)
  obtain src ob where "view (w_api w) (?k, ?s) = Some src" "view (w_api w1) (?k, ?d) = Some ob" "copy_of rp src ob"
      "view (w_api w1) (?k, ?s) = view (w_api w) (?k, ?s)" "rp1 = rp"
    using p [OF n(2)] n(1) ne by (auto simp: copy_post_def)
  then show "rp' = set_Destination (Some (target_of rp)) rp \<and> in_sync rp (view (w_api w'))"
    using n by (auto simp: in_sync_def)
qed

lemma replicate_post:
  assumes "replicate descr C rp w = ((retry, err), rp', w')"
  shows "spares rp (view (w_api w)) (view (w_api w'))"
    and "err = None \<Longrightarrow> rp' = set_Destination (Some (target_of rp)) rp \<and> in_sync rp (view (w_api w'))"
proof -
  obtain r1 w1 where d: "deleteReplicated descr C (rt_Destination (rp_Status rp)) rp w = (r1, w1)" by fastforce
  let ?rp = "set_Destination None rp"
  show "spares rp (view (w_api w)) (view (w_api w'))"
    using assms d deleteReplicated_post(1) [OF d] replicate_to_post(1) [of descr ?rp w1]
      replicate_to_post(1) [of descr rp w] spares_meta [of ?rp rp]
    by (auto simp: replicate_def split: if_splits sum.splits intro: spares_trans)
  show "err = None \<Longrightarrow> rp' = set_Destination (Some (target_of rp)) rp \<and> in_sync rp (view (w_api w'))"
    using assms d replicate_to_post(3) [of descr ?rp w1] replicate_to_post(3) [of descr rp w]
    by (auto simp: replicate_def split: if_splits sum.splits)
qed

lemma reconcile2_spares:
  assumes "reconcile2 descr C R req w = (out, w')" "fst (rc_Get R req (w_api w)) = Inr rp"
  shows "spares rp (view (w_api w)) (view (w_api w'))"
proof -
  obtain w1 where g: "call (rc_Get R req) w = (Inr rp, w1)"
    using assms(2) by (cases "rc_Get R req (w_api w)") (simp add: call_def)
  have v1: "view (w_api w1) = view (w_api w)" using g rc_get_view by (auto simp: call_iff)
  obtain r2 w2 where d: "deleteReplicated descr C (rt_Destination (rp_Status rp)) rp w1 = (r2, w2)" by fastforce
  obtain retry err rp3 w3 where p: "replicate descr C (setDestinationName rp) w1 = ((retry, err), rp3, w3)"
    by (metis prod.exhaust)
  obtain rp4 w4 where q: "reportReplication rp err rp3 w3 = (rp4, w4)" by fastforce
  have v4: "view (w_api w4) = view (w_api w3)"
    using q by (auto simp: reportReplication_def split: option.splits if_splits)
  have s: "spares rp (view (w_api w1)) (view (w_api w2))" "spares rp (view (w_api w1)) (view (w_api w3))"
    using deleteReplicated_post(1) [OF d] replicate_post(1) [OF p] spares_meta [of "setDestinationName rp" rp]
    by (simp_all add: setDestinationName_def)
  have u: "view (w_api y) = view (w_api x)" if "call (rc_Update R o') x = (r, y)" for o' x r y
    using that rc_update_view by (auto simp: call_iff)
  have t: "view (w_api y) = view (w_api x)" if "call (rc_PatchStatus R a b) x = (r, y)" for a b x r y
    using that rc_patch_view by (auto simp: call_iff)
  have "view (w_api w') = view (w_api w1) \<or> view (w_api w') = view (w_api w2) \<or> view (w_api w') = view (w_api w4)"
    using assms(1) g d p q u t
    by (auto simp: reconcile2_def split: if_splits sum.splits prod.splits)
  then show ?thesis using s v1 v4 by auto
qed


lemma call_get_events: "call (cl_Get C k) w = (r, w') \<Longrightarrow> w_events w' = w_events w"
  by (cases w; cases w') (auto simp: call_def split: prod.splits)

text \<open>A copy that is up to date is not written again.\<close>

lemma copy_resource_settled:
  assumes "copy_resource descr C kind rp new refuse updated uptodate source destination w = ((retry, err), rp', w')"
    and "view (w_api w) (kind, source) = Some src" "view (w_api w) (kind, destination) = Some ob"
    and "checkDestinationOwnership kind ob rp = None" "refuse src ob = None" "uptodate ob (updated src ob)"
  shows "view (w_api w') = view (w_api w)" "w_events w' = w_events w" "rp' = rp" "err = None \<or> retry"
proof -
  obtain r1 w1 where g1: "call (cl_Get C (kind, source)) w = (r1, w1)" by fastforce
  obtain r2 w2 where g2: "call (cl_Get C (kind, destination)) w1 = (r2, w2)" by fastforce
  have v: "view (w_api w1) = view (w_api w)" "view (w_api w2) = view (w_api w)"
      "w_events w1 = w_events w" "w_events w2 = w_events w"
    using g1 g2 get_view [of _ "w_api w" r1 "w_api w1"] get_view [of _ "w_api w1" r2 "w_api w2"]
      call_get_events [OF g1] call_get_events [OF g2] by (simp_all add: call_iff)
  have r1: "r1 = Inr src \<or> (\<exists>e. r1 = Inl e \<and> \<not> IsNotFound e)"
    using call_get_ok [of "(kind, source)" w] call_get_err [of "(kind, source)" w] g1 assms(2) by (cases r1) auto
  have r2: "r2 = Inr ob \<or> (\<exists>e. r2 = Inl e \<and> \<not> IsNotFound e)"
    using call_get_ok [of "(kind, destination)" w1] call_get_err [of "(kind, destination)" w1] g2 assms(3) v(1)
    by (cases r2) auto
  show "view (w_api w') = view (w_api w)" "w_events w' = w_events w" "rp' = rp" "err = None \<or> retry"
    using assms(1,4-6) g1 g2 v r1 r2
    by (auto simp: copy_resource_def sourceFetchError_def)
qed

lemma replicate_settled:
  assumes "in_sync rp (view (w_api w))" "so_Kind (re_Source (rp_Spec rp)) \<in> {KindSecret, KindConfigMap}"
    and "rt_Destination (rp_Status rp) = Some (target_of rp)"
    and "replicate descr C rp w = ((retry, err), rp', w')"
  shows "view (w_api w') = view (w_api w)" "w_events w' = w_events w" "rp' = rp"
proof -
  let ?k = "so_Kind (re_Source (rp_Spec rp))" and ?d = "replicationDestination rp"
  let ?s = "nn (om_Namespace (rp_meta rp)) (so_Name (re_Source (rp_Spec rp)))"
  obtain src ob where v: "view (w_api w) (?k, ?s) = Some src" "view (w_api w) (?k, ?d) = Some ob" "copy_of rp src ob"
    using assms(1) by (auto simp: in_sync_def)
  have key: "ko_Kind ob = ?k" using v(2) view_keys by (auto simp: ko_objkey_def)
  obtain retry1 err1 rp1 w1 where c:
    "(if ?k = KindSecret then replicateSecret descr C rp ?s ?d w else replicateConfigMap descr C rp ?s ?d w)
       = ((retry1, err1), rp1, w1)" by (metis prod.exhaust)
  note settled = copy_resource_settled [OF _ _ _ copy_of_ownership [OF v(3)]]
  have "view (w_api w1) = view (w_api w) \<and> w_events w1 = w_events w \<and> rp1 = rp"
  proof (cases "?k = KindSecret")
    case True
    have "replicateSecret descr C rp ?s ?d w = ((retry1, err1), rp1, w1)" using c True by simp
    from settled [OF this [unfolded replicateSecret_copy] v(1,2) [unfolded True]]
    show ?thesis using copy_of_uptodate(1) [OF v(3)] v(3) True key by (simp add: copy_of_def)
  next
    case False
    then have k: "?k = KindConfigMap" using assms(2) by auto
    have "replicateConfigMap descr C rp ?s ?d w = ((retry1, err1), rp1, w1)" using c False by simp
    from settled [OF this [unfolded replicateConfigMap_copy] v(1,2) [unfolded k]]
    show ?thesis using copy_of_uptodate(2) [OF v(3)] v(3) k key by (simp add: copy_of_def)
  qed
  moreover have "set_Destination (Some (target_of rp)) rp = rp" using assms(3) by (simp add: set_Destination_def)
  ultimately show "view (w_api w') = view (w_api w)" "w_events w' = w_events w" "rp' = rp"
    using assms(2-4) c by (auto simp: replicate_def replicate_to_def Let_def split: if_splits option.splits)
qed

text \<open>When a copy reports a missing source, the deletion of what was copied has succeeded.\<close>

lemma copy_resource_missing:
  assumes "copy_resource descr C kind rp new refuse updated uptodate source destination w
      = ((False, Some (SourceMissing k s)), rp', w')"
    and "\<And>src dst. refuse src dst \<noteq> Some (SourceMissing k s)"
  shows "\<exists>w1. view (w_api w1) = view (w_api w)
      \<and> deleteReplicated descr C (rt_Destination (rp_Status rp)) rp w1 = (Inr (), w') \<and> rp' = set_Destination None rp"
proof -
  obtain r1 w1 where g1: "call (cl_Get C (kind, source)) w = (r1, w1)" by fastforce
  have "\<exists>e. r1 = Inl e"
    using assms g1 by (cases r1) (auto simp: copy_resource_def checkDestinationOwnership_def destinationFetchError_def
        split: prod.splits sum.splits option.splits if_splits)
  then show ?thesis
    using assms(1) g1 get_view [of "(kind, source)" "w_api w" r1 "w_api w1"]
    by (auto simp: copy_resource_def sourceFetchError_def call_iff split: if_splits prod.splits sum.splits
        intro!: exI [of _ w1])
qed

lemma replicate_to_missing:
  assumes "replicate_to descr C rp w = ((False, Some (SourceMissing k s)), rp', w')"
  shows "\<exists>w1. view (w_api w1) = view (w_api w)
      \<and> deleteReplicated descr C (rt_Destination (rp_Status rp)) rp w1 = (Inr (), w') \<and> rp' = set_Destination None rp"
proof -
  let ?k = "so_Kind (re_Source (rp_Spec rp))" and ?d = "replicationDestination rp"
  let ?s = "nn (om_Namespace (rp_meta rp)) (so_Name (re_Source (rp_Spec rp)))"
  have "replicateSecret descr C rp ?s ?d w = ((False, Some (SourceMissing k s)), rp', w')
      \<or> replicateConfigMap descr C rp ?s ?d w = ((False, Some (SourceMissing k s)), rp', w')"
    using assms by (auto simp: replicate_to_def Let_def split: if_splits prod.splits option.splits)
  then show ?thesis
  proof
    assume "replicateSecret descr C rp ?s ?d w = ((False, Some (SourceMissing k s)), rp', w')"
    from copy_resource_missing [OF this [unfolded replicateSecret_copy]] show ?thesis by simp
  next
    assume "replicateConfigMap descr C rp ?s ?d w = ((False, Some (SourceMissing k s)), rp', w')"
    from copy_resource_missing [OF this [unfolded replicateConfigMap_copy]] show ?thesis by simp
  qed
qed

lemma replicate_missing:
  assumes "replicate descr C rp w = ((False, Some (SourceMissing k s)), rp', w')"
    and "rt_Destination (rp_Status rp) = Some rr" "rr_Kind rr = KindSecret \<or> rr_Kind rr = KindConfigMap"
    and "view (w_api w') (rr_Kind rr, rr_key rr) = Some ob"
  shows "\<not> isReplicatedBy ob rp \<and> rt_Destination (rp_Status rp') = None"
proof (cases "rr = target_of rp")
  case True
  then obtain w1 where "deleteReplicated descr C (Some rr) rp w1 = (Inr (), w')" "rp' = set_Destination None rp"
    using assms(1,2) replicate_to_missing [of descr rp w] by (auto simp: replicate_def)
  then show ?thesis using deleteReplicated_post(4) assms(3,4) by auto
next
  case False
  let ?rp = "set_Destination None rp"
  obtain r1 w1 where d: "deleteReplicated descr C (Some rr) rp w = (r1, w1)" by fastforce
  then have t: "r1 = Inr ()" "replicate_to descr C ?rp w1 = ((False, Some (SourceMissing k s)), rp', w')"
    using assms(1,2) False by (auto simp: replicate_def split: sum.splits)
  then obtain w2 where w2: "view (w_api w2) = view (w_api w1)" "deleteReplicated descr C None ?rp w2 = (Inr (), w')"
      "rp' = set_Destination None ?rp"
    using replicate_to_missing [of descr ?rp w1] by auto
  have "view (w_api w') = view (w_api w1)" using deleteReplicated_post(3) [OF w2(2)] w2(1) by simp
  then show ?thesis using deleteReplicated_post(4) [OF d] t(1) assms(3,4) w2(3) by auto
qed

end

section \<open>The contract can be met\<close>

text \<open>The server of \<open>K8s\<close> with one Replication.\<close>

definition one_repl :: "Replication \<Rightarrow> 's repl_client" where
  "one_repl rp = \<lparr>rc_Get = (\<lambda>n s. (Ok rp, s)), rc_Update = (\<lambda>r s. (Ok (), s)), rc_PatchStatus = (\<lambda>a b s. (Ok (), s))\<rparr>"

interpretation rmem: repl_server "mem_client ko_objkey" "mem_view ko_objkey" "one_repl rp" for rp
  by unfold_locales
    (auto simp: one_repl_def same_content_def mem_client_def mem_get_def mem_write_def mem_view_def dest: mem_at_key
      split: prod.splits fault.splits option.splits if_splits)

definition sample_meta :: "string \<Rightarrow> string \<Rightarrow> ObjectMeta" where
  "sample_meta ns name = \<lparr>om_Name = name, om_Namespace = ns, om_UID = '''', om_Generation = 1, om_ResourceVersion = '''',
     om_Labels = [], om_Annotations = [], om_Finalizers = [FinalizerName], om_OwnerReferences = [], om_DeletionTimestamp = None\<rparr>"

definition sample_repl :: Replication where
  "sample_repl = \<lparr>rp_meta = sample_meta ''a'' ''r'',
     rp_Spec = \<lparr>re_Source = \<lparr>so_Kind = ''Secret'', so_Name = ''s''\<rparr>, re_Destination = \<lparr>de_Namespace = ''b'', de_Name = ''''\<rparr>\<rparr>,
     rp_Status = \<lparr>rt_Phase = ReplicationPhaseNone, rt_Message = '''', rt_DestinationName = '''', rt_Destination = None\<rparr>\<rparr>"

definition sample_secret :: "string \<Rightarrow> (string \<times> string) list option \<Rightarrow> kobj" where
  "sample_secret ns annotations = \<lparr>ko_Kind = ''Secret'', ko_Key = \<lparr>Namespace = ns, Name = ''s''\<rparr>, ko_Labels = None,
     ko_Annotations = annotations, ko_Type = ''Opaque'', ko_Data = Some [(''k'', ''v'')], ko_BinaryData = None, ko_Server = ''''\<rparr>"

definition sample_world :: "kobj list \<Rightarrow> fault list \<Rightarrow> kobj mem world" where
  "sample_world obs fs = \<lparr>w_api = (map (\<lambda>ob. (ko_objkey ob, ob)) obs, fs), w_events = []\<rparr>"

section \<open>Properties\<close>






text \<open>When the source is gone and the reconciliation ends with that error, the copy made from it is gone too,
  unless it is no longer marked as made by this Replication; a failure of its deletion is retried instead.\<close>

theorem replicate_source_gone:
  assumes "repl_server C view R" "replicate descr C rp w = ((False, Some (SourceMissing kind source)), rp', w')"
    and "rt_Destination (rp_Status rp) = Some rr" "rr_Kind rr = KindSecret \<or> rr_Kind rr = KindConfigMap"
    and "view (w_api w') (rr_Kind rr, rr_key rr) = Some ob"
  shows "\<not> isReplicatedBy ob rp \<and> rt_Destination (rp_Status rp') = None"
  by (rule repl_server.replicate_missing [OF assms])

theorem replicate_source_gone_witness:
  "\<not> isReplicatedBy (sample_secret ''b'' None) (set_Destination (Some (target_of sample_repl)) sample_repl)"
proof -
  let ?rp = "set_Destination (Some (target_of sample_repl)) sample_repl"
  let ?o = "replicate (\<lambda>_. '''') (mem_client ko_objkey) ?rp (sample_world [sample_secret ''b'' None] [])"
  have o: "?o = ((False, Some (SourceMissing ''Secret'' (nn ''a'' ''s''))), set_Destination None ?rp,
      sample_world [sample_secret ''b'' None] [])"
    by (simp add: replicate_def replicate_to_def sample_repl_def sample_meta_def sample_world_def sample_secret_def
        replicateSecret_def call_def mem_client_def mem_get_def mem_at_def next_fault_def nn_def set_Destination_def
        ko_objkey_def replicationDestination_def target_of_def KindSecret_def Let_def sourceFetchError_def
        deleteReplicated_def isReplicatedBy_def nilget_def replicationOwner_def rr_key_def)
  show ?thesis
    by (rule conjunct1 [OF replicate_source_gone [OF rmem.repl_server_axioms o, where rr = "target_of sample_repl"]])
      (simp_all add: sample_world_def mem_view_def mem_at_def sample_secret_def ko_objkey_def rr_key_def nn_def
        target_of_def replicationDestination_def sample_repl_def KindSecret_def)
qed


end
