(* ===== verification/ContextController.thy ===== *)
theory ContextController
  imports K8s ConfigStore "HOL-Library.FSet"
begin

text \<open>
  \<open>context_controller.go\<close>, \<open>context_decode.go\<close> and the part of \<open>release_helpers.go\<close> that assembles the context of a
  Release. The reader of the manager is the function \<open>get\<close>, one snapshot for a reconciliation; the YAML and JSON
  codecs are parameters.
\<close>

section \<open>Merging contexts\<close>

definition contextDecodeError :: string where
  "contextDecodeError = ''context decoding error, message withheld, as it can quote the data''"

definition mergeContext :: "(JSON \<Rightarrow> (string, gmap option) result) \<Rightarrow> gmap \<Rightarrow> JSON option \<Rightarrow> (string, gmap) result" where
  "mergeContext unmarshal base addon = wrap_err (\<lambda>_. contextDecodeError) (Merge unmarshal base addon)"

section \<open>Cycles of parents\<close>

type_synonym ctx_reader = "NamespacedName \<Rightarrow> (api_err, Context) result"

definition contextName :: "Context \<Rightarrow> NamespacedName" where
  "contextName c = nn (om_Namespace (cx_meta c)) (om_Name (cx_meta c))"

definition groomedParents :: "Context \<Rightarrow> NamespacedName list" where
  "groomedParents c = map (defaultNs (om_Namespace (cx_meta c))) (xs_Parents (cx_Spec c))"

text \<open>The closure \<open>walk\<close>, with the variable \<open>explored\<close> that it shares threaded through. \<open>None\<close>: it does not return.\<close>

partial_function (option) walk ::
  "ctx_reader \<Rightarrow> NamespacedName \<Rightarrow> NamespacedName list \<Rightarrow> NamespacedName list \<Rightarrow> NamespacedName list
     \<Rightarrow> (NamespacedName list option \<times> NamespacedName list) option" where
  "walk get self path parents explored =
     (case parents of
        [] \<Rightarrow> Some (None, explored)
      | parent # rest \<Rightarrow>
          if parent = self then Some (Some (path @ [parent]), explored)
          else if parent \<in> set explored then walk get self path rest explored
          else (case get parent of
                  Inl e \<Rightarrow> walk get self path rest (parent # explored)
                | Inr parentContext \<Rightarrow>
                    Option.bind (walk get self (path @ [parent]) (groomedParents parentContext) (parent # explored))
                      (\<lambda>r. case fst r of
                         Some cycle \<Rightarrow> Some (Some cycle, snd r)
                       | None \<Rightarrow> walk get self path rest (snd r))))"

definition parentCycle :: "ctx_reader \<Rightarrow> Context \<Rightarrow> string option" where
  "parentCycle get kcontext =
     map_option (\<lambda>r. Join '' -> '' (map nn_String (case fst r of None \<Rightarrow> [] | Some cycle \<Rightarrow> cycle)))
       (walk get (contextName kcontext) [contextName kcontext] (xs_Parents (cx_Spec kcontext)) [])"

section \<open>Comparing JSON values\<close>

text \<open>A decoded JSON value, its numbers kept as written.\<close>

datatype jval = JNull | JBool bool | JStr string | JNum string | JList "jval list" | JMap "(string \<times> jval) list"

text \<open>\<open>big.Rat.SetString\<close> on the text of a JSON number: sign, digits, fraction, exponent. A value whose power of ten is
  beyond a million is refused, except zero.\<close>

definition take_digits :: "string \<Rightarrow> string \<times> string" where
  "take_digits s = (takeWhile is_digit s, dropWhile is_digit s)"

definition rat_exponent :: "string \<Rightarrow> int option" where
  "rat_exponent s =
     (if s = [] then Some 0
      else if hd s = CHR ''e'' \<or> hd s = CHR ''E'' then Atoi (tl s) else None)"

definition SetString :: "string \<Rightarrow> rat option" where
  "SetString s =
     (let neg = (s \<noteq> [] \<and> hd s = CHR ''-'');
          s1 = (if neg then tl s else s);
          (whole, s2) = take_digits s1;
          (fraction, s3) = (if s2 \<noteq> [] \<and> hd s2 = CHR ''.'' then take_digits (tl s2) else ([], s2));
          mantissa = int (digits_val (whole @ fraction))
      in if whole @ fraction = [] then None
         else case rat_exponent s3 of
           None \<Rightarrow> None
         | Some expo \<Rightarrow>
             let e = expo - int (length fraction)
             in if mantissa \<noteq> 0 \<and> \<bar>e\<bar> > 1000000 then None
                else Some ((if neg then -1 else 1) * of_int mantissa * (if 0 \<le> e then 10 ^ nat e else 1 / 10 ^ nat (- e))))"

lemma zip_size [termination_simp]: "(a, b) \<in> set (zip xs ys) \<Longrightarrow> size a < Suc (size_list size xs)"
  by (drule set_zip_leftD) (simp add: size_list_estimation less_Suc_eq_le size_list_estimation')

fun sameValue :: "jval \<Rightarrow> jval \<Rightarrow> bool" where
  "sameValue (JNum a) b =
     (case b of JNum b \<Rightarrow> (case (SetString a, SetString b) of (Some x, Some y) \<Rightarrow> x = y | _ \<Rightarrow> False) | _ \<Rightarrow> False)"
| "sameValue (JMap a) b =
     (case b of
        JMap b \<Rightarrow> length a = length b
          \<and> list_all (\<lambda>p. case map_of b (fst p) of None \<Rightarrow> False | Some other \<Rightarrow> sameValue (snd p) other) a
      | _ \<Rightarrow> False)"
| "sameValue (JList a) b =
     (case b of
        JList b \<Rightarrow> length a = length b \<and> list_all (\<lambda>p. sameValue (fst p) (snd p)) (zip a b)
      | _ \<Rightarrow> False)"
| "sameValue a b = (a = b)"

definition sameJSON :: "(JSON \<Rightarrow> (string, jval) result) \<Rightarrow> JSON option \<Rightarrow> JSON option \<Rightarrow> bool" where
  "sameJSON decodeJSON a b =
     (case (a, b) of
        (None, None) \<Rightarrow> True
      | (Some a, Some b) \<Rightarrow>
          (case (decodeJSON a, decodeJSON b) of (Inr x, Inr y) \<Rightarrow> sameValue x y | _ \<Rightarrow> False)
      | _ \<Rightarrow> False)"

section \<open>The reconciliation of a Context\<close>

datatype ctx_error =
    ParentCycle string
  | MissingParent NamespacedName
  | GetParent NamespacedName api_err
  | ParentError NamespacedName
  | ParentMerge NamespacedName string
  | OwnMerge string
  | MarshalError
  | InvalidContext
  | ReadContext api_err
  | StatusUpdate api_err

fun IsFatal :: "ctx_error \<Rightarrow> bool" where
  "IsFatal (ParentCycle _) = True"
| "IsFatal (MissingParent _) = True"
| "IsFatal (ParentMerge _ _) = True"
| "IsFatal (OwnMerge _) = True"
| "IsFatal _ = False"

fun GetEventReason :: "ctx_error \<Rightarrow> string" where
  "GetEventReason (ParentCycle _) = ''ParentCycle''"
| "GetEventReason (MissingParent _) = ''MissingParent''"
| "GetEventReason (GetParent _ _) = ''GetParent''"
| "GetEventReason (ParentError _) = ''ParentError''"
| "GetEventReason (ParentMerge _ _) = ''ContextError''"
| "GetEventReason (OwnMerge _) = ''ContextError''"
| "GetEventReason MarshalError = ''ContextError''"
| "GetEventReason InvalidContext = ''InvalidContext''"
| "GetEventReason (ReadContext _) = ''''"
| "GetEventReason (StatusUpdate _) = ''''"

definition groomContext ::
  "(JSON \<Rightarrow> (string, gmap option) result) \<Rightarrow> Context \<Rightarrow> Context \<times> ctx_error option" where
  "groomContext unmarshalStrict c =
     (c\<lparr>cx_Spec := (cx_Spec c)\<lparr>xs_Parents := groomedParents c\<rparr>\<rparr>,
      case xs_Context (cx_Spec c) of
        None \<Rightarrow> None
      | Some raw \<Rightarrow> (case unmarshalStrict raw of Inl _ \<Rightarrow> Some InvalidContext | Inr _ \<Rightarrow> None))"

definition effectiveJSON :: "Context \<Rightarrow> JSON option" where
  "effectiveJSON c = (case xt_Context (cx_Status c) of None \<Rightarrow> xs_Context (cx_Spec c) | Some j \<Rightarrow> Some j)"

text \<open>One turn of the loop over the parents.\<close>

definition mergeParent ::
  "(JSON \<Rightarrow> (string, gmap option) result) \<Rightarrow> ctx_reader \<Rightarrow> gmap \<Rightarrow> NamespacedName \<Rightarrow> (ctx_error, gmap) result" where
  "mergeParent unmarshal get base parent =
     (case get parent of
        Inl e \<Rightarrow> if IsNotFound e then Err (MissingParent parent) else Err (GetParent parent e)
      | Inr parentContext \<Rightarrow>
          if xt_Phase (cx_Status parentContext) \<noteq> ContextPhaseReady then Err (ParentError parent)
          else wrap_err (ParentMerge parent) (mergeContext unmarshal base (effectiveJSON parentContext)))"

text \<open>The phase is written when it changes or when the write is forced; \<open>update\<close> is the write of the status.\<close>

definition updatePhase ::
  "(Context \<Rightarrow> 's \<Rightarrow> (api_err, unit) result \<times> 's) \<Rightarrow> Context \<Rightarrow> ContextPhase \<Rightarrow> bool \<Rightarrow> 's world
     \<Rightarrow> (api_err, unit) result \<times> 's world" where
  "updatePhase update c phase force w =
     (if xt_Phase (cx_Status c) = phase \<and> \<not> force then (Ok (), w)
      else call (update (c\<lparr>cx_Status := (cx_Status c)\<lparr>xt_Phase := phase\<rparr>\<rparr>)) w)"

definition ready ::
  "(Context \<Rightarrow> 's \<Rightarrow> (api_err, unit) result \<times> 's) \<Rightarrow> Context \<Rightarrow> bool \<Rightarrow> 's world \<Rightarrow> (ctx_error, unit) result \<times> 's world" where
  "ready update c force w =
     (case updatePhase update c ContextPhaseReady force w of (r, w') \<Rightarrow> (wrap_err StatusUpdate r, w'))"

definition reportError ::
  "(Context \<Rightarrow> 's \<Rightarrow> (api_err, unit) result \<times> 's) \<Rightarrow> (ctx_error \<Rightarrow> string) \<Rightarrow> Context \<Rightarrow> ctx_error \<Rightarrow> 's world
     \<Rightarrow> (ctx_error, unit) result \<times> 's world" where
  "reportError update text c err w =
     (case updatePhase update c ContextPhaseError False w of
        (Inl _, w1) \<Rightarrow> (Err err, w1)
      | (Inr _, w1) \<Rightarrow>
          (let w2 = (if GetEventReason err \<noteq> '''' then Event ''Warning'' (GetEventReason err) (text err) w1 else w1)
           in if IsFatal err then (Ok (), w2) else (Err err, w2)))"

text \<open>
  The codecs: the strict and the lenient decoding of YAML, the encoding of a map and the decoding of JSON. \<open>None\<close>: the
  walk along the parents does not return.
\<close>

record codecs =
  co_strict :: "JSON \<Rightarrow> (string, gmap option) result"
  co_unmarshal :: "JSON \<Rightarrow> (string, gmap option) result"
  co_marshal :: "gmap \<Rightarrow> (string, JSON) result"
  co_decode :: "JSON \<Rightarrow> (string, jval) result"

definition computeContext :: "codecs \<Rightarrow> ctx_reader \<Rightarrow> Context \<Rightarrow> (ctx_error, JSON) result option" where
  "computeContext co get c =
     Option.bind (parentCycle get c) (\<lambda>cycle.
       Some (if cycle \<noteq> '''' then Err (ParentCycle cycle)
             else rbind (rfold (mergeParent (co_unmarshal co) get) [] (xs_Parents (cx_Spec c))) (\<lambda>base.
                  rbind (wrap_err OwnMerge (mergeContext (co_unmarshal co) base (xs_Context (cx_Spec c)))) (\<lambda>base.
                  wrap_err (\<lambda>_. MarshalError) (co_marshal co base)))))"

definition reconcile2 ::
  "codecs \<Rightarrow> (ctx_error \<Rightarrow> string) \<Rightarrow> (Context \<Rightarrow> 's \<Rightarrow> (api_err, unit) result \<times> 's) \<Rightarrow> ctx_reader \<Rightarrow> NamespacedName \<Rightarrow> 's world
     \<Rightarrow> ((ctx_error, unit) result \<times> 's world) option" where
  "reconcile2 co text update get req w =
     (case get req of
        Inl e \<Rightarrow> Some (if IsNotFound e then (Ok (), w) else (Err (ReadContext e), w))
      | Inr read \<Rightarrow>
          (case groomContext (co_strict co) read of
             (c, Some err) \<Rightarrow> Some (reportError update text c err w)
           | (c, None) \<Rightarrow>
               if xs_Parents (cx_Spec c) = []
               then Some (if xt_Context (cx_Status c) \<noteq> None \<or> xt_Parents (cx_Status c) \<noteq> ''''
                          then ready update (c\<lparr>cx_Status := (cx_Status c)\<lparr>xt_Context := None, xt_Parents := ''''\<rparr>\<rparr>) True w
                          else ready update c False w)
               else let c1 = c\<lparr>cx_Status := (cx_Status c)\<lparr>xt_Parents := Join '','' (map nn_String (xs_Parents (cx_Spec c)))\<rparr>\<rparr>
                    in Option.bind (computeContext co get c1) (\<lambda>r.
                       Some (case r of
                               Inl err \<Rightarrow> reportError update text c1 err w
                             | Inr json \<Rightarrow>
                                 let c2 = c1\<lparr>cx_Status := (cx_Status c1)\<lparr>xt_Context := Some json\<rparr>\<rparr>;
                                     changed = (xt_Parents (cx_Status c2) \<noteq> xt_Parents (cx_Status read)
                                       \<or> \<not> sameJSON (co_decode co) (xt_Context (cx_Status c2)) (xt_Context (cx_Status read)))
                                 in ready update c2 changed w))))"

section \<open>The context of a Release\<close>

datatype compute_error =
    ContextNotFound NamespacedName
  | ContextRetrieval api_err
  | ContextInError NamespacedName
  | ContextMerge string

definition contextList :: "configuration \<Rightarrow> Release \<Rightarrow> NamespacedName list \<times> NamespacedName list" where
  "contextList cfg release =
     (let ns = map (nn (om_Namespace (rl_meta release))) (defaultNamespaceContexts cfg)
      in if rs_SkipDefaultContext (rl_Spec release) then (rs_Contexts (rl_Spec release), [])
         else (defaultContexts cfg @ ns @ rs_Contexts (rl_Spec release), ns))"

definition addContext ::
  "(JSON \<Rightarrow> (string, gmap option) result) \<Rightarrow> ctx_reader \<Rightarrow> NamespacedName list \<Rightarrow> gmap \<times> NamespacedName list \<Rightarrow> NamespacedName
     \<Rightarrow> (compute_error, gmap \<times> NamespacedName list) result" where
  "addContext unmarshal get optional = (\<lambda>(result, effective) ref.
     (case get ref of
        Inl e \<Rightarrow>
          if IsNotFound e
          then if ref \<in> set optional then Ok (result, effective) else Err (ContextNotFound ref)
          else Err (ContextRetrieval e)
      | Inr contextObj \<Rightarrow>
          if xt_Phase (cx_Status contextObj) \<noteq> ContextPhaseReady then Err (ContextInError ref)
          else rbind (wrap_err ContextMerge (mergeContext unmarshal result (effectiveJSON contextObj))) (\<lambda>result'.
               Ok (result', effective @ [ref]))))"

definition ComputeContext ::
  "(JSON \<Rightarrow> (string, gmap option) result) \<Rightarrow> ctx_reader \<Rightarrow> configuration \<Rightarrow> Release \<Rightarrow> gmap
     \<Rightarrow> (compute_error, gmap \<times> NamespacedName list) result" where
  "ComputeContext unmarshal get cfg release defaultContext =
     (case contextList cfg release of (refs, optional) \<Rightarrow>
        rfold (addContext unmarshal get optional) (defaultContext, []) refs)"

definition GroomRelease :: "configuration \<Rightarrow> Release \<Rightarrow> Release" where
  "GroomRelease cfg release =
     (let spec = rl_Spec release; ns = om_Namespace (rl_meta release);
          spec1 = spec\<lparr>rs_TargetNamespace := (if rs_TargetNamespace spec = '''' then ns else rs_TargetNamespace spec),
                       rs_Debug := (case rs_Debug spec of
                          None \<Rightarrow> Some \<lparr>rd_DumpContext = False, rd_DumpParameters = False\<rparr> | Some d \<Rightarrow> Some d),
                       rs_Package := (if ps_Interval (rs_Package spec) = 0
                          then (rs_Package spec)\<lparr>ps_Interval := defaultPackageInterval cfg\<rparr> else rs_Package spec),
                       rs_Contexts := map (defaultNs ns) (rs_Contexts spec)\<rparr>
      in release\<lparr>rl_Spec := spec1\<rparr>)"

section \<open>Lemmas on the walk\<close>

text \<open>The Contexts that can be read, and their parents.\<close>

definition readable :: "ctx_reader \<Rightarrow> NamespacedName set" where
  "readable get = {n. \<exists>c. get n = Inr c}"

definition parent_of :: "ctx_reader \<Rightarrow> NamespacedName \<Rightarrow> NamespacedName \<Rightarrow> bool" where
  "parent_of get x y \<longleftrightarrow> (\<exists>c. get x = Inr c \<and> y \<in> set (groomedParents c))"

text \<open>A path along the parents.\<close>

fun ancestry :: "ctx_reader \<Rightarrow> NamespacedName list \<Rightarrow> bool" where
  "ancestry get (x # y # p) \<longleftrightarrow> parent_of get x y \<and> ancestry get (y # p)"
| "ancestry get _ \<longleftrightarrow> True"

lemma ancestry_snoc: "p \<noteq> [] \<Longrightarrow> ancestry get (p @ [y]) \<longleftrightarrow> ancestry get p \<and> parent_of get (last p) y"
  by (induction get p rule: ancestry.induct) auto

lemma ancestry_reach: "ancestry get (x # p) \<Longrightarrow> (parent_of get)\<^sup>*\<^sup>* x (last (x # p))"
proof (induction p arbitrary: x)
  case (Cons y p)
  then have "parent_of get x y" "(parent_of get)\<^sup>*\<^sup>* y (last (y # p))" by auto
  then show ?case by (simp add: converse_rtranclp_into_rtranclp)
qed simp

text \<open>What a walk promises: the path it returns leads to \<open>self\<close>, and when it returns none, what it explored
  is closed under parents and \<open>self\<close> is not among them.\<close>

definition closed :: "ctx_reader \<Rightarrow> NamespacedName \<Rightarrow> NamespacedName set \<Rightarrow> NamespacedName set \<Rightarrow> bool" where
  "closed get self A B \<longleftrightarrow> (\<forall>x\<in>B - A. \<forall>y. parent_of get x y \<longrightarrow> y \<noteq> self \<and> y \<in> B)"

definition walk_post ::
  "ctx_reader \<Rightarrow> NamespacedName \<Rightarrow> NamespacedName list \<Rightarrow> NamespacedName list \<Rightarrow> NamespacedName list
     \<Rightarrow> NamespacedName list option \<times> NamespacedName list \<Rightarrow> bool" where
  "walk_post get self path parents explored r \<longleftrightarrow>
     set explored \<subseteq> set (snd r)
     \<and> (case fst r of
          Some p \<Rightarrow> \<exists>q. p = path @ q \<and> q \<noteq> [] \<and> last q = self \<and> hd q \<in> set parents \<and> ancestry get q
        | None \<Rightarrow> self \<notin> set parents \<and> set parents \<subseteq> set (snd r) \<and> closed get self (set explored) (set (snd r)))"

lemma closed_insert:
  "closed get self (insert p A) B \<Longrightarrow> (\<forall>y. parent_of get p y \<longrightarrow> y \<noteq> self \<and> y \<in> B) \<Longrightarrow> closed get self A B"
  unfolding closed_def by blast

lemma closed_trans: "closed get self A B \<Longrightarrow> closed get self B C \<Longrightarrow> B \<subseteq> C \<Longrightarrow> closed get self A C"
  unfolding closed_def by blast

lemma walk_post_skip:
  "walk_post get self path rest explored r \<Longrightarrow> parent \<noteq> self \<Longrightarrow> parent \<in> set explored \<Longrightarrow>
     walk_post get self path (parent # rest) explored r"
  by (cases "fst r") (auto simp: walk_post_def)

lemma walk_post_unread:
  assumes "walk_post get self path rest (parent # explored) r" "parent \<noteq> self" "get parent = Inl e"
  shows "walk_post get self path (parent # rest) explored r"
proof (cases "fst r")
  case None
  then have "closed get self (insert parent (set explored)) (set (snd r))" using assms(1) by (simp add: walk_post_def)
  moreover have "\<forall>y. parent_of get parent y \<longrightarrow> y \<noteq> self \<and> y \<in> set (snd r)" using assms(3) by (simp add: parent_of_def)
  ultimately have "closed get self (set explored) (set (snd r))" by (rule closed_insert)
  then show ?thesis using assms None by (simp add: walk_post_def)
next
  case (Some p)
  then show ?thesis using assms by (auto simp: walk_post_def)
qed

lemma walk_post_found:
  assumes "walk_post get self (path @ [parent]) (groomedParents c) (parent # explored) (Some p, ex)" "get parent = Inr c"
  shows "walk_post get self path (parent # rest) explored (Some p, ex)"
proof -
  obtain q where q: "p = path @ [parent] @ q" "q \<noteq> []" "last q = self" "hd q \<in> set (groomedParents c)" "ancestry get q"
    using assms(1) by (auto simp: walk_post_def)
  then have "ancestry get (parent # q)" using assms(2) by (cases q) (auto simp: parent_of_def)
  then show ?thesis using assms(1) q by (auto simp: walk_post_def intro!: exI [of _ "parent # q"])
qed

lemma walk_post_next:
  assumes "walk_post get self (path @ [parent]) (groomedParents c) (parent # explored) (None, ex)" "get parent = Inr c"
    and "walk_post get self path rest ex r" "parent \<noteq> self"
  shows "walk_post get self path (parent # rest) explored r"
proof -
  have a: "insert parent (set explored) \<subseteq> set ex" "closed get self (insert parent (set explored)) (set ex)"
      "self \<notin> set (groomedParents c)" "set (groomedParents c) \<subseteq> set ex" "set ex \<subseteq> set (snd r)"
    using assms(1,3) by (simp_all add: walk_post_def)
  show ?thesis
  proof (cases "fst r")
    case (Some p)
    then show ?thesis using assms(3) a by (auto simp: walk_post_def)
  next
    case None
    have "\<forall>y. parent_of get parent y \<longrightarrow> y \<noteq> self \<and> y \<in> set ex"
      using a(3,4) assms(2) by (auto simp: parent_of_def)
    then have "closed get self (set explored) (set ex)" using a(2) closed_insert by blast
    moreover have "closed get self (set ex) (set (snd r))" using assms(3) None by (simp add: walk_post_def)
    ultimately have "closed get self (set explored) (set (snd r))" using a(5) closed_trans by blast
    then show ?thesis using assms(3,4) None a(1,5) by (simp add: walk_post_def) blast
  qed
qed

lemma walk_total:
  assumes "finite (readable get)"
  shows "\<exists>r. walk get self path parents explored = Some r \<and> walk_post get self path parents explored r"
proof (induction "(card (readable get - set explored), length parents)" arbitrary: path parents explored
    rule: wf_induct_rule [OF wf_lex_prod [OF wf_less_than wf_less_than]])
  case 1
  note IH = "1.hyps" [unfolded in_lex_prod, simplified]
  show ?case
  proof (cases parents)
    case Nil
    then show ?thesis by (subst walk.simps) (simp add: walk_post_def closed_def)
  next
    case (Cons parent rest)
    have shrink: "card (readable get - set (parent # explored)) \<le> card (readable get - set explored)"
      using assms by (intro card_mono) auto
    consider "parent = self" | "parent \<noteq> self" "parent \<in> set explored"
      | e where "parent \<noteq> self" "parent \<notin> set explored" "get parent = Inl e"
      | c where "parent \<noteq> self" "parent \<notin> set explored" "get parent = Inr c"
      by (cases "get parent") auto
    then show ?thesis
    proof cases
      case 1
      then show ?thesis using Cons by (subst walk.simps) (auto simp: walk_post_def)
    next
      case 2
      then show ?thesis using IH [of explored rest path] Cons
        by (subst walk.simps) (auto intro: walk_post_skip)
    next
      case 3
      then obtain r where "walk get self path rest (parent # explored) = Some r"
          "walk_post get self path rest (parent # explored) r"
        using IH [of "parent # explored" rest path] Cons shrink by (auto simp: order_le_less)
      then show ?thesis using 3 Cons walk_post_unread by (subst walk.simps) simp
    next
      case 4
      have "card (readable get - set (parent # explored)) < card (readable get - set explored)"
        using assms 4 by (intro psubset_card_mono) (auto simp: readable_def)
      then obtain r where r: "walk get self (path @ [parent]) (groomedParents c) (parent # explored) = Some r"
          "walk_post get self (path @ [parent]) (groomedParents c) (parent # explored) r"
        using IH by blast
      show ?thesis
      proof (cases "fst r")
        case (Some p)
        then show ?thesis using r 4 Cons walk_post_found [of get self path parent c explored p "snd r"]
          by (subst walk.simps) (cases r; simp)
      next
        case None
        have "card (readable get - set (snd r)) < card (readable get - set explored)"
          using assms 4 r(2) by (intro psubset_card_mono) (auto simp: readable_def walk_post_def)
        then obtain r2 where "walk get self path rest (snd r) = Some r2" "walk_post get self path rest (snd r) r2"
          using IH by blast
        then show ?thesis using r 4 Cons None walk_post_next [of get self path parent c explored "snd r" rest r2]
          by (subst walk.simps) (cases r; simp)
      qed
    qed
  qed
qed

lemma walk_None_unreachable:
  assumes "walk_post get self path parents [] (None, ex)" "p \<in> set parents" "(parent_of get)\<^sup>*\<^sup>* p x"
  shows "x \<in> set ex \<and> x \<noteq> self"
  using assms(3)
proof (induction rule: rtranclp_induct)
  case base
  then show ?case using assms(1,2) by (auto simp: walk_post_def)
next
  case (step x y)
  then show ?case using assms(1) unfolding walk_post_def closed_def by auto
qed

lemma Join_cycle_nonempty: "ns \<noteq> [] \<Longrightarrow> Join '' -> '' (map nn_String ns) \<noteq> ''''"
  by (cases ns; cases "tl ns") (auto simp: nn_String_def)

lemma parentCycle_returns: "finite (readable get) \<Longrightarrow> \<exists>s. parentCycle get c = Some s"
  using walk_total [of get "contextName c" "[contextName c]" "xs_Parents (cx_Spec c)" "[]"]
  by (auto simp: parentCycle_def)

section \<open>Lemmas on the comparison\<close>

text \<open>A decoded value: distinct keys, and numbers that have a value.\<close>

fun wf_jval :: "jval \<Rightarrow> bool" where
  "wf_jval (JNum s) \<longleftrightarrow> SetString s \<noteq> None"
| "wf_jval (JList xs) \<longleftrightarrow> list_all wf_jval xs"
| "wf_jval (JMap m) \<longleftrightarrow> wf_map m \<and> list_all (\<lambda>p. wf_jval (snd p)) m"
| "wf_jval _ \<longleftrightarrow> True"

text \<open>The value with its numbers as rational numbers and its maps as functions: what the comparison decides.\<close>

datatype meaning = MScalar jval | MNum rat | MList "meaning list" | MMap "(string \<times> meaning) fset"

fun jmeaning :: "jval \<Rightarrow> meaning" where
  "jmeaning (JNum s) = MNum (case SetString s of Some r \<Rightarrow> r | None \<Rightarrow> 0)"
| "jmeaning (JList xs) = MList (map jmeaning xs)"
| "jmeaning (JMap m) = MMap (fset_of_list (map (\<lambda>p. (fst p, jmeaning (snd p))) m))"
| "jmeaning v = MScalar v"

lemma card_image_keys: "wf_map m \<Longrightarrow> card ((\<lambda>p. (fst p, F (snd p))) ` set m) = length m"
proof -
  assume wf: "wf_map m"
  have "inj_on (\<lambda>p. (fst p, F (snd p))) (set m)"
    using wf eq_key_imp_eq_value [OF wf] by (intro inj_onI) (metis prod.collapse prod.inject)
  moreover have "card (set m) = length m" using wf by (intro distinct_card) (simp add: distinct_map)
  ultimately show ?thesis by (simp add: card_image)
qed

lemma map_comparison:
  assumes "wf_map a" "wf_map b"
  shows "length a = length b \<and> (\<forall>p\<in>set a. \<exists>w. map_of b (fst p) = Some w \<and> F (snd p) = F w)
    \<longleftrightarrow> (\<lambda>p. (fst p, F (snd p))) ` set a = (\<lambda>p. (fst p, F (snd p))) ` set b" (is "?l \<longleftrightarrow> ?A = ?B")
proof
  assume l: ?l
  have "?A \<subseteq> ?B"
  proof
    fix x
    assume "x \<in> ?A"
    then obtain p where p: "p \<in> set a" "x = (fst p, F (snd p))" by auto
    then obtain w where "(fst p, w) \<in> set b" "F (snd p) = F w" using l map_of_mem by fastforce
    then show "x \<in> ?B" using p(2) by (intro rev_image_eqI [of "(fst p, w)"]) auto
  qed
  then show "?A = ?B" using l card_image_keys [OF assms(1), of F] card_image_keys [OF assms(2), of F]
    by (intro card_subset_eq) auto
next
  assume eq: "?A = ?B"
  have "\<exists>w. map_of b (fst p) = Some w \<and> F (snd p) = F w" if "p \<in> set a" for p
  proof -
    have "(fst p, F (snd p)) \<in> ?B" using eq that by auto
    then obtain q where "q \<in> set b" "fst q = fst p" "F (snd q) = F (snd p)" by auto
    then have "(fst p, snd q) \<in> set b" by (metis prod.collapse)
    then show ?thesis using map_of_is_SomeI [OF assms(2)] \<open>F (snd q) = F (snd p)\<close> by metis
  qed
  then show ?l using eq card_image_keys [OF assms(1), of F] card_image_keys [OF assms(2), of F] by auto
qed

lemma sameValue_meaning: "wf_jval a \<Longrightarrow> wf_jval b \<Longrightarrow> sameValue a b \<longleftrightarrow> jmeaning a = jmeaning b"
proof (induction a b rule: sameValue.induct)
  case (1 a b)
  then show ?case by (cases b) auto
next
  case (2 a b)
  show ?case
  proof (cases b)
    case (JMap b')
    have wf: "wf_map a" "wf_map b'" using 2 JMap by auto
    have "sameValue (snd p) w \<longleftrightarrow> jmeaning (snd p) = jmeaning w" if "p \<in> set a" "map_of b' (fst p) = Some w" for p w
      using "2.IH" [OF JMap that] "2.prems" that map_of_mem [OF that(2)] JMap by (auto simp: list_all_iff)
    then have "sameValue (JMap a) b \<longleftrightarrow>
        length a = length b' \<and> (\<forall>p\<in>set a. \<exists>w. map_of b' (fst p) = Some w \<and> jmeaning (snd p) = jmeaning w)"
      unfolding JMap by (auto simp: list_all_iff split: option.splits)
    then show ?thesis using map_comparison [OF wf, of jmeaning] JMap
      by (simp add: fset_of_list.rep_eq fset_inject [symmetric])
  qed auto
next
  case (3 a b)
  show ?case
  proof (cases b)
    case (JList b')
    have "map f xs = map f ys \<longleftrightarrow> length xs = length ys \<and> (\<forall>x\<in>set (zip xs ys). f (fst x) = f (snd x))"
      for f :: "jval \<Rightarrow> meaning" and xs ys
      by (induction xs ys rule: list_induct2') auto
    moreover have "sameValue (fst x) (snd x) \<longleftrightarrow> jmeaning (fst x) = jmeaning (snd x)" if "x \<in> set (zip a b')" for x
      using "3.IH" [OF JList that] "3.prems" JList that
      by (cases x) (auto simp: list_all_iff dest: set_zip_leftD set_zip_rightD)
    ultimately show ?thesis unfolding JList by (simp add: list_all_iff)
  qed auto
qed (case_tac b; auto)+

section \<open>Lemmas on the contexts merged\<close>

text \<open>The values of the contexts that a Release or a Context takes, in order, each as the map it holds.\<close>

definition merge_all :: "gmap \<Rightarrow> gmap list \<Rightarrow> gmap" where
  "merge_all = foldl MergeMaps"

definition content_of :: "(JSON \<Rightarrow> (string, gmap option) result) \<Rightarrow> JSON option \<Rightarrow> gmap option" where
  "content_of unmarshal j =
     (case j of None \<Rightarrow> Some []
      | Some raw \<Rightarrow> (case unmarshal raw of Inl _ \<Rightarrow> None | Inr m \<Rightarrow> Some (case m of None \<Rightarrow> [] | Some m \<Rightarrow> m)))"

lemma mergeContext_content:
  "mergeContext unmarshal base j = Inr m \<longleftrightarrow> (\<exists>inc. content_of unmarshal j = Some inc \<and> m = MergeMaps base inc)"
  by (cases j) (auto simp: mergeContext_def Merge_def content_of_def MergeMaps_def wrap_err_Inr split: sum.splits)

text \<open>A Context that a merge takes: it can be read, is ready, and holds a map.\<close>

definition taken :: "(JSON \<Rightarrow> (string, gmap option) result) \<Rightarrow> ctx_reader \<Rightarrow> NamespacedName \<Rightarrow> gmap \<Rightarrow> bool" where
  "taken unmarshal get n m \<longleftrightarrow>
     (\<exists>c. get n = Inr c \<and> xt_Phase (cx_Status c) = ContextPhaseReady \<and> content_of unmarshal (effectiveJSON c) = Some m)"

lemma taken_readable: "taken unmarshal get n m \<Longrightarrow> \<exists>c. get n = Inr c"
  by (auto simp: taken_def)

lemma mergeParent_Ok:
  "mergeParent unmarshal get base n = Inr m \<longleftrightarrow> (\<exists>inc. taken unmarshal get n inc \<and> m = MergeMaps base inc)"
  by (cases "get n") (auto simp: mergeParent_def taken_def wrap_err_Inr mergeContext_content)

lemma rfold_mergeParent:
  "rfold (mergeParent unmarshal get) base ns = Inr m \<Longrightarrow>
     \<exists>ms. list_all2 (taken unmarshal get) ns ms \<and> m = merge_all base ms"
proof (induction ns arbitrary: base)
  case (Cons n ns)
  then obtain m1 where "mergeParent unmarshal get base n = Inr m1" "rfold (mergeParent unmarshal get) m1 ns = Inr m"
    by (auto split: sum.splits)
  then obtain inc ms where "taken unmarshal get n inc" "m1 = MergeMaps base inc"
      "list_all2 (taken unmarshal get) ns ms" "m = merge_all m1 ms"
    using Cons.IH mergeParent_Ok by metis
  then show ?case by (intro exI [of _ "inc # ms"]) (simp add: merge_all_def)
qed (simp add: merge_all_def)

lemma addContext_Ok:
  "addContext unmarshal get optional (res, eff) n = Inr (res', eff') \<longleftrightarrow>
     (\<exists>e. get n = Inl e \<and> IsNotFound e \<and> n \<in> set optional \<and> res' = res \<and> eff' = eff)
     \<or> (\<exists>inc. taken unmarshal get n inc \<and> res' = MergeMaps res inc \<and> eff' = eff @ [n])"
  by (cases "get n") (auto simp: addContext_def taken_def rbind_Inr wrap_err_Inr mergeContext_content)

lemma rfold_addContext:
  assumes "rfold (addContext unmarshal get optional) (res, eff) ns = Inr (res', eff')"
  shows "\<exists>new ms. eff' = eff @ new \<and> list_all2 (taken unmarshal get) new ms \<and> res' = merge_all res ms
     \<and> new = filter (\<lambda>n. \<exists>c. get n = Inr c) ns
     \<and> (\<forall>n\<in>set ns. n \<notin> set new \<longrightarrow> n \<in> set optional \<and> (\<exists>e. get n = Inl e \<and> IsNotFound e))"
  using assms
proof (induction ns arbitrary: res eff)
  case (Cons n ns)
  obtain res1 eff1 where a: "addContext unmarshal get optional (res, eff) n = Inr (res1, eff1)"
      "rfold (addContext unmarshal get optional) (res1, eff1) ns = Inr (res', eff')"
    using Cons.prems by (auto split: sum.splits)
  obtain new ms where IH: "eff' = eff1 @ new" "list_all2 (taken unmarshal get) new ms" "res' = merge_all res1 ms"
      "new = filter (\<lambda>n. \<exists>c. get n = Inr c) ns"
      "\<forall>n\<in>set ns. n \<notin> set new \<longrightarrow> n \<in> set optional \<and> (\<exists>e. get n = Inl e \<and> IsNotFound e)"
    using Cons.IH [OF a(2)] by blast
  from a(1) [unfolded addContext_Ok] show ?case
  proof
    assume "\<exists>e. get n = Inl e \<and> IsNotFound e \<and> n \<in> set optional \<and> res1 = res \<and> eff1 = eff"
    then show ?thesis using IH by (intro exI [of _ new] exI [of _ ms]) auto
  next
    assume "\<exists>inc. taken unmarshal get n inc \<and> res1 = MergeMaps res inc \<and> eff1 = eff @ [n]"
    then obtain inc where "taken unmarshal get n inc" "res1 = MergeMaps res inc" "eff1 = eff @ [n]" by blast
    then show ?thesis using IH
      by (intro exI [of _ "n # new"] exI [of _ "inc # ms"]) (auto simp: merge_all_def taken_readable)
  qed
qed (auto simp: merge_all_def)

section \<open>Properties\<close>

text \<open>C15: the search for a cycle of parents ends, whatever the parents are, cycles among them included, and reports
  a cycle exactly when a parent of the Context has the Context among its ancestors; what it reports is the
  path from the Context back to it, each the parent of the one before.\<close>

theorem parentCycle_correct:
  assumes "finite (readable get)"
  shows "\<exists>s. parentCycle get c = Some s
    \<and> (s \<noteq> '''' \<longleftrightarrow> (\<exists>p\<in>set (xs_Parents (cx_Spec c)). (parent_of get)\<^sup>*\<^sup>* p (contextName c)))
    \<and> (s \<noteq> '''' \<longrightarrow> (\<exists>q. q \<noteq> [] \<and> hd q \<in> set (xs_Parents (cx_Spec c)) \<and> last q = contextName c \<and> ancestry get q
                       \<and> s = Join '' -> '' (map nn_String (contextName c # q))))"
proof -
  obtain r where r: "walk get (contextName c) [contextName c] (xs_Parents (cx_Spec c)) [] = Some r"
      "walk_post get (contextName c) [contextName c] (xs_Parents (cx_Spec c)) [] r"
    using walk_total [OF assms] by blast
  show ?thesis
  proof (cases "fst r")
    case None
    then have "\<not> (\<exists>p\<in>set (xs_Parents (cx_Spec c)). (parent_of get)\<^sup>*\<^sup>* p (contextName c))"
      using walk_None_unreachable [of get _ _ _ "snd r"] r(2) by (metis prod.collapse)
    then show ?thesis using r(1) None by (simp add: parentCycle_def)
  next
    case (Some p)
    then obtain q where q: "p = contextName c # q" "q \<noteq> []" "last q = contextName c" "hd q \<in> set (xs_Parents (cx_Spec c))"
        "ancestry get q"
      using r(2) by (auto simp: walk_post_def)
    then have "(parent_of get)\<^sup>*\<^sup>* (hd q) (contextName c)" using ancestry_reach [of get "hd q" "tl q"] by simp
    then show ?thesis using r(1) Some q Join_cycle_nonempty [of "contextName c # q"]
      by (auto simp: parentCycle_def)
  qed
qed

text \<open>C16: a Context with parents becomes ready with a context only when no cycle goes through it and each parent is
  ready, and the context stored is then the parents merged in the order of the list, then its own on top.\<close>

theorem computeContext_merges_parents:
  assumes "computeContext co get c = Some (Ok json)"
  shows "parentCycle get c = Some ''''
    \<and> (\<exists>ms own. list_all2 (taken (co_unmarshal co) get) (xs_Parents (cx_Spec c)) ms
         \<and> content_of (co_unmarshal co) (xs_Context (cx_Spec c)) = Some own
         \<and> co_marshal co (MergeMaps (merge_all [] ms) own) = Ok json)"
  using assms
  by (auto simp: computeContext_def rbind_Inr wrap_err_Inr mergeContext_content bind_eq_Some_conv
      dest!: rfold_mergeParent split: if_splits)


text \<open>C18: comparing a stored context with a computed one decides equality of the JSON values, with numbers compared
  by value and maps without order.\<close>

theorem sameValue_decides_meaning:
  assumes "wf_jval a" "wf_jval b"
  shows "sameValue a b \<longleftrightarrow> jmeaning a = jmeaning b"
  using sameValue_meaning [OF assms] .

text \<open>A reconciliation of a Context that is ready with the context that its parents and itself give, under whatever
  encoding the API server stored it, writes nothing and records no event.\<close>

theorem context_reconcile_settled:
  assumes "get req = Ok c" "snd (groomContext (co_strict co) c) = None"
    and "xs_Parents (cx_Spec c) \<noteq> []" "xt_Phase (cx_Status c) = ContextPhaseReady"
    and "computeContext co get (fst (groomContext (co_strict co) c)) = Some (Ok json)"
    and "sameJSON (co_decode co) (Some json) (xt_Context (cx_Status c))"
    and "xt_Parents (cx_Status c) = Join '','' (map nn_String (groomedParents c))"
  shows "reconcile2 co text update get req w = Some (Ok (), w)"
proof -
  let ?g = "fst (groomContext (co_strict co) c)"
  let ?c = "?g\<lparr>cx_Status := (cx_Status ?g)\<lparr>xt_Parents := Join '','' (map nn_String (xs_Parents (cx_Spec ?g)))\<rparr>\<rparr>"
  have same: "?c = ?g" using assms(7) by (simp add: groomContext_def)
  then have "computeContext co get ?c = Some (Ok json)" using assms(5) by simp
  then show ?thesis
    using assms(1-4,6,7)
    by (auto simp: reconcile2_def groomContext_def groomedParents_def ready_def updatePhase_def Let_def
        split: option.splits sum.splits)
qed

text \<open>A reconciliation of a Context returns, whatever the Contexts of the cluster and their parents are.\<close>

theorem context_reconcile_returns:
  assumes "finite (readable get)"
  shows "\<exists>out. reconcile2 co text update get req w = Some out"
proof -
  have "\<exists>r. computeContext co get c = Some r" for c
    using parentCycle_returns [OF assms, of c] by (auto simp: computeContext_def)
  then have "\<exists>out. Option.bind (computeContext co get c) (\<lambda>r. Some (f r)) = Some out"
    for c and f :: "(ctx_error, JSON) result \<Rightarrow> (ctx_error, unit) result \<times> 'a world"
    by (metis bind.bind_lunit)
  then show ?thesis
    by (auto simp: reconcile2_def Let_def split: sum.split prod.split option.split)
qed

section \<open>Witnesses\<close>

definition sample_ctx :: "string \<Rightarrow> string list \<Rightarrow> JSON \<Rightarrow> Context" where
  "sample_ctx name parents json =
     \<lparr>cx_meta = \<lparr>om_Name = name, om_Namespace = ''n'', om_UID = '''', om_Generation = 1, om_ResourceVersion = '''',
        om_Labels = [], om_Annotations = [], om_Finalizers = [], om_OwnerReferences = [], om_DeletionTimestamp = None\<rparr>,
      cx_Spec = \<lparr>xs_Description = '''', xs_Abstract = False, xs_Parents = map (nn ''n'') parents, xs_Protected = False,
        xs_Context = Some json\<rparr>,
      cx_Status = \<lparr>xt_Phase = ContextPhaseReady, xt_Parents = Join '','' (map (\<lambda>p. ''n:'' @ p) parents), xt_Context = Some json\<rparr>\<rparr>"

definition sample_reader :: "Context list \<Rightarrow> ctx_reader" where
  "sample_reader cs n = (case find (\<lambda>c. contextName c = n) cs of None \<Rightarrow> Err (status_err ''NotFound'') | Some c \<Rightarrow> Ok c)"

text \<open>A codec for the witnesses: the text is the one key of the map.\<close>

definition sample_codecs :: codecs where
  "sample_codecs = \<lparr>co_strict = (\<lambda>s. Ok (Some [])), co_unmarshal = (\<lambda>s. Ok (Some [(s, GBool True)])),
     co_marshal = (\<lambda>m. Ok (concat (map fst m))), co_decode = (\<lambda>s. Ok JNull)\<rparr>"

lemma finite_sample_reader: "finite (readable (sample_reader cs))"
proof (rule finite_subset)
  show "readable (sample_reader cs) \<subseteq> contextName ` set cs"
    by (auto simp: readable_def sample_reader_def find_Some_iff split: option.splits)
qed simp

theorem parentCycle_correct_witness:
  "\<exists>s. parentCycle (sample_reader [sample_ctx ''a'' [''b''] ''x'', sample_ctx ''b'' [''a''] ''y'']) (sample_ctx ''a'' [''b''] ''x'')
     = Some s \<and> s \<noteq> ''''"
proof -
  let ?g = "sample_reader [sample_ctx ''a'' [''b''] ''x'', sample_ctx ''b'' [''a''] ''y'']"
  have "parent_of ?g (nn ''n'' ''b'') (nn ''n'' ''a'')"
    by (simp add: parent_of_def sample_reader_def contextName_def sample_ctx_def nn_def groomedParents_def defaultNs_def)
  then show ?thesis
    using parentCycle_correct [OF finite_sample_reader, of "[sample_ctx ''a'' [''b''] ''x'', sample_ctx ''b'' [''a''] ''y'']"
        "sample_ctx ''a'' [''b''] ''x''"]
    by (auto simp: sample_ctx_def contextName_def)
qed

theorem computeContext_merges_parents_witness:
  "parentCycle (sample_reader [sample_ctx ''b'' [] ''y'']) (sample_ctx ''a'' [''b''] ''x'') = Some ''''"
proof -
  have "computeContext sample_codecs (sample_reader [sample_ctx ''b'' [] ''y'']) (sample_ctx ''a'' [''b''] ''x'') = Some (Ok ''yx'')"
    by (simp add: computeContext_def parentCycle_def walk.simps sample_reader_def sample_ctx_def contextName_def nn_def
        groomedParents_def mergeParent_def mergeContext_def Merge_def effectiveJSON_def sample_codecs_def MergeMaps_def
        mput_code)
  from computeContext_merges_parents [OF this] show ?thesis ..
qed


theorem sameValue_decides_meaning_witness:
  "sameValue (JMap [(''a'', JNum ''1.50''), (''b'', JNull)]) (JMap [(''b'', JNull), (''a'', JNum ''15e-1'')])
   \<longleftrightarrow> jmeaning (JMap [(''a'', JNum ''1.50''), (''b'', JNull)]) = jmeaning (JMap [(''b'', JNull), (''a'', JNum ''15e-1'')])"
  by (rule sameValue_decides_meaning)
    (simp_all add: SetString_def take_digits_def rat_exponent_def is_digit_def Atoi_def digits_val_def digit_val_def Let_def)

theorem context_reconcile_settled_witness:
  "reconcile2 sample_codecs (\<lambda>_. '''') (\<lambda>c s. (Ok (), Suc s)) (sample_reader [sample_ctx ''a'' [''b''] ''yx'', sample_ctx ''b'' [] ''y''])
     (nn ''n'' ''a'') \<lparr>w_api = 0, w_events = []\<rparr> = Some (Ok (), \<lparr>w_api = 0, w_events = []\<rparr>)"
  by (rule context_reconcile_settled [where c = "sample_ctx ''a'' [''b''] ''yx''" and json = "''yyx''"])
    (simp_all add: computeContext_def parentCycle_def walk.simps sample_reader_def sample_ctx_def contextName_def nn_def
        groomedParents_def groomContext_def mergeParent_def mergeContext_def Merge_def effectiveJSON_def sample_codecs_def
        MergeMaps_def mput_code sameJSON_def nn_String_def defaultNs_def)

theorem context_reconcile_returns_witness:
  "\<exists>out. reconcile2 sample_codecs (\<lambda>_. '''') (\<lambda>c s. (Ok (), Suc s)) (sample_reader [sample_ctx ''a'' [''a''] ''x''])
     (nn ''n'' ''a'') \<lparr>w_api = 0, w_events = []\<rparr> = Some out"
  by (rule context_reconcile_returns [OF finite_sample_reader])

end
