(* ===== verification/Schema.thy ===== *)
theory Schema
  imports Values
begin

text \<open>
  \<open>internal/kuboschema\<close>: the conversion of KuboCD's simplified schema to an OpenAPI schema (\<open>kuboschema.go\<close>), the default
  values that a schema gives (\<open>defaulter.go\<close>), and the declarations of connections in it (\<open>connectionref.go\<close>).
\<close>

section \<open>The conversion\<close>

datatype schema_error =
    MissingType string
  | TypeNotString
  | UnknownType string string
  | UnknownProperty string string
  | RequiredNotBoolean string
  | MissingProperties string
  | InvalidAdditionalProperties string
  | PropertiesNotMap string
  | PropertyNotMap string string
  | MissingItems string
  | ItemsNotMap string
  | ContractRequired string
  | ContractInvalid string
  | LiteralDefault string
  | KindInvalid string

definition TypeConnectionRef :: string where
  "TypeConnectionRef = ''connectionRef''"

definition MarkerConnectionRef :: string where
  "MarkerConnectionRef = ''x-kubocd-connection-ref''"

definition connectionRefAllowedProperties :: "string list" where
  "connectionRefAllowedProperties = [''type'', ''title'', ''description'', ''required'', ''default'', ''contract'', ''kind'']"

definition allowedPropertiesByTypes :: "(string \<times> string list) list" where
  "allowedPropertiesByTypes =
     [(TypeConnectionRef, connectionRefAllowedProperties),
      (''string'', [''type'', ''title'', ''description'', ''enum'', ''required'', ''default'', ''minLength'', ''maxLength'', ''pattern'']),
      (''integer'', [''type'', ''title'', ''description'', ''enum'', ''required'', ''default'', ''minimum'', ''maximum'',
         ''exclusiveMinimum'', ''exclusiveMaximum'', ''multipleOf'']),
      (''number'', [''type'', ''title'', ''description'', ''enum'', ''required'', ''default'', ''minimum'', ''maximum'',
         ''exclusiveMinimum'', ''exclusiveMaximum'', ''multipleOf'']),
      (''boolean'', [''type'', ''title'', ''description'', ''enum'', ''required'', ''default'']),
      (''object'', [''type'', ''title'', ''description'', ''required'', ''properties'', ''additionalProperties'',
         ''patternProperties'', ''minProperties'', ''maxProperties'']),
      (''array'', [''type'', ''title'', ''description'', ''required'', ''items'', ''prefixItems'', ''maxItems'', ''minItems'',
         ''uniqueItems''])]"

text \<open>The node without \<open>required\<close>, and its value.\<close>

definition handleRequired :: "string \<Rightarrow> gmap \<Rightarrow> (schema_error, gmap \<times> bool) result" where
  "handleRequired path node =
     (case map_of node ''required'' of
        None \<Rightarrow> Ok (node, False)
      | Some (GBool b) \<Rightarrow> Ok (mdel ''required'' node, b)
      | Some _ \<Rightarrow> Err (RequiredNotBoolean path))"

definition contractOf :: "string \<Rightarrow> gmap \<Rightarrow> (schema_error, string) result" where
  "contractOf path node =
     (case map_of node ''contract'' of
        None \<Rightarrow> Err (ContractRequired path)
      | Some (GStr c) \<Rightarrow> if c = '''' then Err (ContractInvalid path) else Ok c
      | Some _ \<Rightarrow> Err (ContractInvalid path))"

definition connectionKind :: "string \<Rightarrow> gmap \<Rightarrow> gmap \<Rightarrow> (schema_error, gmap) result" where
  "connectionKind path node marker =
     (case map_of node ''kind'' of
        None \<Rightarrow> Ok marker
      | Some (GStr k) \<Rightarrow> if k \<noteq> ''Connection'' \<and> k \<noteq> ''ClusterConnection'' then Err (KindInvalid path)
                         else Ok (mput ''kind'' (GStr k) marker)
      | Some _ \<Rightarrow> Err (KindInvalid path))"

definition templated :: "gval \<Rightarrow> bool" where
  "templated v = (case v of GStr s \<Rightarrow> Contains s ''{{'' | _ \<Rightarrow> False)"

definition desugarConnectionRef :: "string \<Rightarrow> gmap \<Rightarrow> (schema_error, gmap \<times> bool) result" where
  "desugarConnectionRef path node =
     rbind (contractOf path node) (\<lambda>contract.
       if (case map_of node ''default'' of None \<Rightarrow> False | Some d \<Rightarrow> \<not> templated d) then Err (LiteralDefault path)
       else rbind (connectionKind path node [(''contract'', GStr contract)]) (\<lambda>marker.
            rbind (handleRequired path node) (\<lambda>(node1, required).
              Ok (mput MarkerConnectionRef (GMap marker)
                    (mdel ''kind'' (mdel ''contract'' (mput ''type'' (GStr ''string'') node1))), required))))"

definition nodeType :: "gmap \<Rightarrow> gval" where
  "nodeType node =
     (case map_of node ''type'' of
        Some t \<Rightarrow> t
      | None \<Rightarrow> if mhas node ''properties'' then GStr ''object''
                else if mhas node ''items'' then GStr ''array'' else GNil)"

text \<open>The type of a node, once it is known and every property of the node is allowed for it.\<close>

definition checkedType :: "string \<Rightarrow> gmap \<Rightarrow> (schema_error, string) result" where
  "checkedType path node =
     (case nodeType node of
        GNil \<Rightarrow> Err (MissingType path)
      | GStr typ \<Rightarrow>
          if typ = '''' then Err (MissingType path)
          else (case map_of allowedPropertiesByTypes typ of
                  None \<Rightarrow> Err (UnknownType typ path)
                | Some allowed \<Rightarrow>
                    (case find (\<lambda>p. fst p \<notin> set allowed) node of
                       Some p \<Rightarrow> Err (UnknownProperty (fst p) path)
                     | None \<Rightarrow> Ok typ))
      | _ \<Rightarrow> Err TypeNotString)"

lemma size_lookup_required [termination_simp]:
  assumes "handleRequired path node = Inr (node1, req)" "map_of node1 k = Some v"
  shows "size v < size (GMap node)"
proof -
  have "map_of node k = Some v"
    using assms by (auto simp: handleRequired_def split: option.splits gval.splits if_splits)
  then show ?thesis by (rule size_lookup_gmap)
qed

definition addPropsOf :: "string \<Rightarrow> gmap \<Rightarrow> bool \<Rightarrow> (schema_error, bool) result" where
  "addPropsOf path node inherited =
     (case map_of node ''additionalProperties'' of
        None \<Rightarrow> Ok inherited
      | Some (GBool b) \<Rightarrow> Ok b
      | Some _ \<Rightarrow> Err (InvalidAdditionalProperties path))"

definition propsOf :: "string \<Rightarrow> gmap \<Rightarrow> (schema_error, gval) result" where
  "propsOf path node = (case map_of node ''properties'' of None \<Rightarrow> Err (MissingProperties path) | Some v \<Rightarrow> Ok v)"

definition mapOf :: "'e \<Rightarrow> gval \<Rightarrow> ('e, gmap) result" where
  "mapOf e v = (case v of GMap m \<Rightarrow> Ok m | _ \<Rightarrow> Err e)"

definition itemsOf :: "string \<Rightarrow> gmap \<Rightarrow> (schema_error, gmap) result" where
  "itemsOf path node =
     (case map_of node ''items'' of None \<Rightarrow> Err (MissingItems path) | Some v \<Rightarrow> mapOf (ItemsNotMap path) v)"

lemma mapOf_Inr [simp]: "mapOf e v = Inr m \<longleftrightarrow> v = GMap m"
  by (cases v) (auto simp: mapOf_def)

lemma propsOf_Inr [simp]: "propsOf path node = Inr v \<longleftrightarrow> map_of node ''properties'' = Some v"
  by (auto simp: propsOf_def split: option.splits)

lemma itemsOf_Inr [simp]: "itemsOf path node = Inr m \<longleftrightarrow> map_of node ''items'' = Some (GMap m)"
  by (auto simp: itemsOf_def split: option.splits)

function handleNode :: "string \<Rightarrow> gmap \<Rightarrow> bool \<Rightarrow> (schema_error, gmap \<times> bool) result" where
  "handleNode path node additionalProperties =
     rbind (checkedType path node) (\<lambda>typ.
       if typ = TypeConnectionRef then desugarConnectionRef path node
       else if typ = ''object''
       then rbind (handleRequired path node) (\<lambda>nr.
            rbind (propsOf path (fst nr)) (\<lambda>kuboProperties.
            rbind (addPropsOf path (fst nr) additionalProperties) (\<lambda>addProps.
            rbind (mapOf (PropertiesNotMap path) kuboProperties) (\<lambda>propsMap.
            rbind (rfold (\<lambda>acc kv.
                     rbind (mapOf (PropertyNotMap path (fst kv)) (snd kv)) (\<lambda>vMap.
                     rbind (handleNode (path @ ''.'' @ fst kv) vMap addProps) (\<lambda>pr.
                       Ok (mput (fst kv) (GMap (fst pr)) (fst acc),
                           if snd pr then snd acc @ [fst kv] else snd acc))))
                   ([], []) propsMap) (\<lambda>acc.
            Ok (mput ''properties'' (GMap (fst acc))
                  (mput ''required'' (GStrs (snd acc))
                  (mput ''additionalProperties'' (GBool addProps)
                  (mput ''type'' (GStr ''object'') (fst nr)))), snd nr))))))
       else if typ = ''array''
       then rbind (handleRequired path node) (\<lambda>nr.
            rbind (itemsOf path (fst nr)) (\<lambda>itemsMap.
            rbind (handleNode (path @ ''.[]'') itemsMap additionalProperties) (\<lambda>ir.
            Ok (mput ''items'' (GMap (fst ir)) (mput ''type'' (GStr ''array'') (fst nr)), snd nr))))
       else handleRequired path node)"
  by pat_completeness auto

termination
proof (relation "measure (\<lambda>(path, node, ap). size (GMap node))", goal_cases)
  case (2 path node ap tp nr props addProps propsMap acc kv vMap)
  have "size (GMap propsMap) < size (GMap node)"
    using size_lookup_required [of path node "fst nr" "snd nr" "''properties''"] 2 by simp
  moreover have "size (GMap vMap) < size (GMap propsMap)" using size_mem_gmap [of kv propsMap] 2 by simp
  ultimately show ?case by simp
next
  case (3 path node ap tp nr itemsMap)
  then show ?case using size_lookup_required [of path node "fst nr" "snd nr" "''items''"] by simp
qed simp

declare handleNode.simps [simp del]

text \<open>The schema given may be nil, and so may the result.\<close>

definition Kubo2openAPI :: "gmap option \<Rightarrow> bool \<Rightarrow> (schema_error, gmap option) result" where
  "Kubo2openAPI schema additionalProperties =
     (case schema of
        None \<Rightarrow> Ok None
      | Some s \<Rightarrow>
          if s = [] then Ok None
          else if mhas s ''$schema'' then Ok (Some s)
          else rbind (handleNode '''' s additionalProperties) (\<lambda>nr.
               Ok (Some (mput ''$schema'' (GStr ''http://json-schema.org/schema#'') (fst nr)))))"

section \<open>The default values\<close>

datatype default_error = NotOpenAPI | PropertiesInvalid string | DefaultNotMap

text \<open>A nil interface is \<open>None\<close>.\<close>

definition nonNil :: "gval \<Rightarrow> gval option" where
  "nonNil v = (if v = GNil then None else Some v)"

function defaulterHandleNode :: "string \<Rightarrow> gmap \<Rightarrow> (default_error, gval option) result" where
  "defaulterHandleNode path node =
     (case map_of node ''properties'' of
        Some properties \<Rightarrow>
          (case properties of
             GMap propertiesMap \<Rightarrow>
               rbind (rfold (\<lambda>result kv.
                        (case snd kv of
                           GMap property \<Rightarrow>
                             rbind (defaulterHandleNode (if path \<noteq> '''' then path @ ''.'' @ fst kv else fst kv) property) (\<lambda>node2.
                             Ok (case node2 of None \<Rightarrow> result | Some v \<Rightarrow> mput (fst kv) v result))
                         | _ \<Rightarrow> Err (PropertiesInvalid path)))
                      [] propertiesMap) (\<lambda>result.
               Ok (if result = [] then None else Some (GMap result)))
           | _ \<Rightarrow> Err (PropertiesInvalid path))
      | None \<Rightarrow>
          if map_of node ''type'' = Some (GStr ''array'')
          then Ok (nonNil (case map_of node ''default'' of Some d \<Rightarrow> d | None \<Rightarrow> GList []))
          else Ok (case map_of node ''default'' of Some d \<Rightarrow> nonNil d | None \<Rightarrow> None))"
  by pat_completeness auto

termination
proof (relation "measure (\<lambda>(path, node). size (GMap node))", goal_cases)
  case (2 path node props propsMap acc kv property)
  then show ?case using size_mem_gmap [of kv propsMap] size_lookup_gmap [of node "''properties''" props] by simp
qed simp

declare defaulterHandleNode.simps [simp del]

definition BaseDefaulter :: "gmap option \<Rightarrow> (default_error, gval) result" where
  "BaseDefaulter schema =
     (case schema of
        None \<Rightarrow> Ok (GMap [])
      | Some s \<Rightarrow>
          if \<not> mhas s ''$schema'' then Err NotOpenAPI
          else rbind (defaulterHandleNode '''' s) (\<lambda>result.
               Ok (case result of None \<Rightarrow> GMap [] | Some v \<Rightarrow> v)))"

definition Defaulter :: "gmap option \<Rightarrow> (default_error, gmap) result" where
  "Defaulter schema = rbind (BaseDefaulter schema) (\<lambda>def. mapOf DefaultNotMap def)"

section \<open>The declarations of connections\<close>

record ConnectionDecl =
  cd_Path :: "string list"
  cd_Contract :: string
  cd_Required :: bool
  cd_Default :: string
  cd_KindFilter :: string

datatype decl_error = ContextDefault "string list" | ItemsDefault "string list" | AllDigitName "string list"

definition checkRefPathSegments :: "string list \<Rightarrow> (decl_error, unit) result" where
  "checkRefPathSegments path =
     (if list_ex (\<lambda>seg. seg \<noteq> ''[]'' \<and> seg \<noteq> '''' \<and> list_all is_digit seg) path then Err (AllDigitName path) else Ok ())"

definition strOr :: "gmap \<Rightarrow> string \<Rightarrow> string" where
  "strOr m k = (case map_of m k of Some (GStr s) \<Rightarrow> s | _ \<Rightarrow> '''')"

definition mapOr :: "gmap \<Rightarrow> string \<Rightarrow> gmap" where
  "mapOr m k = (case map_of m k of Some (GMap n) \<Rightarrow> n | _ \<Rightarrow> [])"

definition requiredSet :: "gmap \<Rightarrow> string list" where
  "requiredSet node =
     (case map_of node ''required'' of
        Some (GStrs rs) \<Rightarrow> rs
      | Some (GList l) \<Rightarrow> concat (map (\<lambda>r. case r of GStr s \<Rightarrow> [s] | _ \<Rightarrow> []) l)
      | _ \<Rightarrow> [])"

function collectConnectionDecls ::
  "gmap \<Rightarrow> string list \<Rightarrow> bool \<Rightarrow> bool \<Rightarrow> bool \<Rightarrow> ConnectionDecl list \<Rightarrow> (decl_error, ConnectionDecl list) result" where
  "collectConnectionDecls node path required inArray isContext decls =
     (case map_of node MarkerConnectionRef of
        Some marker \<Rightarrow>
          (let markerMap = mapOr node MarkerConnectionRef; def = strOr node ''default''
           in if isContext \<and> def \<noteq> '''' then Err (ContextDefault path)
              else if inArray \<and> def \<noteq> '''' then Err (ItemsDefault path)
              else rbind (checkRefPathSegments path) (\<lambda>_.
                   Ok (decls @ [\<lparr>cd_Path = path, cd_Contract = strOr markerMap ''contract'', cd_Required = required,
                                 cd_Default = def, cd_KindFilter = strOr markerMap ''kind''\<rparr>])))
      | None \<Rightarrow>
          rbind (rfold (\<lambda>ds kv.
                   (case snd kv of
                      GMap child \<Rightarrow>
                        collectConnectionDecls child (path @ [fst kv]) (fst kv \<in> set (requiredSet node)) inArray isContext ds
                    | _ \<Rightarrow> Ok ds))
                 decls (mapOr node ''properties'')) (\<lambda>ds.
            case map_of node ''items'' of
              Some (GMap items) \<Rightarrow> collectConnectionDecls items (path @ [''[]'']) False True isContext ds
            | _ \<Rightarrow> Ok ds))"
  by pat_completeness auto

termination
proof (relation "measure (\<lambda>(node, _). size (GMap node))", goal_cases)
  case (2 node path required inArray isContext decls ds kv child)
  have "map_of node ''properties'' = Some (GMap (mapOr node ''properties''))"
    using 2(2) by (cases "map_of node ''properties''") (auto simp: mapOr_def split: gval.splits)
  then have "size (GMap (mapOr node ''properties'')) < size (GMap node)" by (rule size_lookup_gmap)
  moreover have "size (snd kv) < size (GMap (mapOr node ''properties''))" using 2(2) by (rule size_mem_gmap)
  ultimately show ?case using 2(3) by simp
next
  case (3 node path required inArray isContext decls ds v items)
  then show ?case using size_lookup_gmap [of node "''items''" v] by simp
qed simp

declare collectConnectionDecls.simps [simp del]

definition CollectConnectionDecls :: "gmap \<Rightarrow> bool \<Rightarrow> (decl_error, ConnectionDecl list) result" where
  "CollectConnectionDecls schema isContext =
     (if schema = [] then Ok [] else collectConnectionDecls schema [] False False isContext [])"

section \<open>Lemmas on the conversion\<close>

lemma mput_append: "k \<notin> fst ` set m \<Longrightarrow> mput k v m = m @ [(k, v)]"
  by (induction m) (auto simp: mput_code)

text \<open>The body of the loop over the properties.\<close>

definition propStep :: "string \<Rightarrow> bool \<Rightarrow> gmap \<times> string list \<Rightarrow> string \<times> gval \<Rightarrow> (schema_error, gmap \<times> string list) result" where
  "propStep path addProps acc kv =
     rbind (mapOf (PropertyNotMap path (fst kv)) (snd kv)) (\<lambda>vMap.
     rbind (handleNode (path @ ''.'' @ fst kv) vMap addProps) (\<lambda>pr.
       Ok (mput (fst kv) (GMap (fst pr)) (fst acc), if snd pr then snd acc @ [fst kv] else snd acc)))"

definition property_pair :: "string \<Rightarrow> bool \<Rightarrow> string list \<Rightarrow> string \<times> gval \<Rightarrow> string \<times> gval \<Rightarrow> bool" where
  "property_pair path ap rs src out \<longleftrightarrow> fst out = fst src
     \<and> (\<exists>m m' r. snd src = GMap m \<and> snd out = GMap m' \<and> handleNode (path @ ''.'' @ fst src) m ap = Inr (m', r)
          \<and> (fst src \<in> set rs \<longleftrightarrow> r))"

lemma rfold_propStep:
  assumes "rfold (propStep path ap) (ps, rs) pm = Inr (ps', rs')" "wf_map pm"
    and "\<forall>k\<in>set (keys pm). k \<notin> fst ` set ps \<and> k \<notin> set rs"
  shows "\<exists>ps1 rs1. ps' = ps @ ps1 \<and> rs' = rs @ rs1 \<and> set rs1 \<subseteq> set (keys pm) \<and> list_all2 (property_pair path ap rs1) pm ps1"
  using assms
proof (induction pm arbitrary: ps rs)
  case (Cons kv pm)
  obtain m m' r where h: "snd kv = GMap m" "handleNode (path @ ''.'' @ fst kv) m ap = Inr (m', r)"
    and f: "rfold (propStep path ap) (ps @ [(fst kv, GMap m')], if r then rs @ [fst kv] else rs) pm = Inr (ps', rs')"
  proof -
    obtain acc where a: "propStep path ap (ps, rs) kv = Inr acc" "rfold (propStep path ap) acc pm = Inr (ps', rs')"
      using Cons.prems(1) by (auto split: sum.splits)
    obtain m m' r where h: "snd kv = GMap m" "handleNode (path @ ''.'' @ fst kv) m ap = Inr (m', r)"
        "acc = (mput (fst kv) (GMap m') ps, if r then rs @ [fst kv] else rs)"
      using a(1) by (auto simp: propStep_def rbind_Inr)
    moreover have "mput (fst kv) (GMap m') ps = ps @ [(fst kv, GMap m')]" using Cons.prems(3) by (simp add: mput_append)
    ultimately show ?thesis using that a(2) by metis
  qed
  have fresh: "\<forall>k\<in>set (keys pm). k \<notin> fst ` set (ps @ [(fst kv, GMap m')]) \<and> k \<notin> set (if r then rs @ [fst kv] else rs)"
  proof
    fix k
    assume k: "k \<in> set (keys pm)"
    then have "k \<noteq> fst kv" using Cons.prems(2) by (metis distinct.simps(2) list.simps(9))
    moreover have "k \<notin> fst ` set ps \<and> k \<notin> set rs" using Cons.prems(3) k by (metis list.set_intros(2) list.simps(9))
    ultimately show "k \<notin> fst ` set (ps @ [(fst kv, GMap m')]) \<and> k \<notin> set (if r then rs @ [fst kv] else rs)" by simp
  qed
  have "wf_map pm" using Cons.prems(2) by simp
  from Cons.IH [OF f this fresh] obtain ps1 rs1 where
    IH: "ps' = ps @ [(fst kv, GMap m')] @ ps1" "rs' = (if r then rs @ [fst kv] else rs) @ rs1"
      "set rs1 \<subseteq> set (keys pm)" "list_all2 (property_pair path ap rs1) pm ps1"
    by auto
  have n: "fst kv \<notin> set (keys pm)" using Cons.prems(2) by simp
  have "list_all2 (property_pair path ap ((if r then [fst kv] else []) @ rs1)) pm ps1"
  proof (rule list.rel_mono_strong [OF IH(4)])
    fix src o'
    assume "src \<in> set pm" and p: "property_pair path ap rs1 src o'"
    then have "fst src \<noteq> fst kv" using n by (metis imageI set_map)
    then show "property_pair path ap ((if r then [fst kv] else []) @ rs1) src o'"
      using p unfolding property_pair_def by (simp split: if_split)
  qed
  moreover have "property_pair path ap ((if r then [fst kv] else []) @ rs1) kv (fst kv, GMap m')"
    using h IH(3) n by (auto simp: property_pair_def)
  ultimately show ?case using IH(1-3)
    by (intro exI [of _ "(fst kv, GMap m') # ps1"] exI [of _ "(if r then [fst kv] else []) @ rs1"]) auto
qed auto

text \<open>What a node converts to, by its type.\<close>

lemma allowed_types:
  "map_of allowedPropertiesByTypes t \<noteq> None \<Longrightarrow>
     t = TypeConnectionRef \<or> t = ''object'' \<or> t = ''array'' \<or> t \<in> {''string'', ''integer'', ''number'', ''boolean''}"
  by (simp add: allowedPropertiesByTypes_def split: if_splits)

lemma checkedType_Ok:
  assumes "checkedType path node = Inr t"
  shows "nodeType node = GStr t"
    and "t = TypeConnectionRef \<or> t = ''object'' \<or> t = ''array'' \<or> t \<in> {''string'', ''integer'', ''number'', ''boolean''}"
    and "\<forall>k\<in>fst ` set node. k \<in> set (the (map_of allowedPropertiesByTypes t))"
proof -
  have a: "nodeType node = GStr t \<and> map_of allowedPropertiesByTypes t \<noteq> None
      \<and> find (\<lambda>p. fst p \<notin> set (the (map_of allowedPropertiesByTypes t))) node = None"
    using assms by (auto simp: checkedType_def split: gval.splits if_splits option.splits)
  then show "nodeType node = GStr t"
    and "t = TypeConnectionRef \<or> t = ''object'' \<or> t = ''array'' \<or> t \<in> {''string'', ''integer'', ''number'', ''boolean''}"
    using allowed_types [of t] by simp_all
  show "\<forall>k\<in>fst ` set node. k \<in> set (the (map_of allowedPropertiesByTypes t))" using a by (auto simp: find_None_iff)
qed

lemma handleRequired_lookup:
  assumes "handleRequired path node = Inr (node1, r)"
  shows "map_of node1 = (map_of node)(''required'' := None)" "r \<longleftrightarrow> map_of node ''required'' = Some (GBool True)"
  using assms by (auto simp: handleRequired_def split: option.splits gval.splits intro: map_of_eq_None_iff)

lemma handleNode_type:
  assumes "handleNode path node ap = Inr (out, r)"
  obtains t where "checkedType path node = Inr t"
  using assms by (auto simp: handleNode.simps [of path node ap] rbind_Inr)

lemma handleNode_object:
  assumes "handleNode path node ap = Inr (out, r)" "checkedType path node = Inr ''object''"
  obtains node1 pm ap' ps rs where
    "handleRequired path node = Inr (node1, r)" "map_of node ''properties'' = Some (GMap pm)"
    "rfold (propStep path ap') ([], []) pm = Inr (ps, rs)"
    "out = mput ''properties'' (GMap ps) (mput ''required'' (GStrs rs)
       (mput ''additionalProperties'' (GBool ap') (mput ''type'' (GStr ''object'') node1)))"
proof -
  have "propStep path x = (\<lambda>acc kv. rbind (mapOf (PropertyNotMap path (fst kv)) (snd kv)) (\<lambda>vMap.
       rbind (handleNode (path @ ''.'' @ fst kv) vMap x) (\<lambda>pr.
       Ok (mput (fst kv) (GMap (fst pr)) (fst acc), if snd pr then snd acc @ [fst kv] else snd acc))))" for x
    by (simp add: fun_eq_iff propStep_def)
  then obtain node1 pm ap' ps rs where
    "handleRequired path node = Inr (node1, r)" "map_of node1 ''properties'' = Some (GMap pm)"
    "rfold (propStep path ap') ([], []) pm = Inr (ps, rs)"
    "out = mput ''properties'' (GMap ps) (mput ''required'' (GStrs rs)
       (mput ''additionalProperties'' (GBool ap') (mput ''type'' (GStr ''object'') node1)))"
    using assms by (auto simp: handleNode.simps [of path node ap] rbind_Inr TypeConnectionRef_def)
  then show thesis using that handleRequired_lookup [of path node node1 r] by simp
qed

lemma handleNode_array:
  assumes "handleNode path node ap = Inr (out, r)" "checkedType path node = Inr ''array''"
  obtains node1 m m' r' where
    "handleRequired path node = Inr (node1, r)" "map_of node ''items'' = Some (GMap m)"
    "handleNode (path @ ''.[]'') m ap = Inr (m', r')"
    "out = mput ''items'' (GMap m') (mput ''type'' (GStr ''array'') node1)"
proof -
  obtain node1 m m' r' where
    "handleRequired path node = Inr (node1, r)" "map_of node1 ''items'' = Some (GMap m)"
    "handleNode (path @ ''.[]'') m ap = Inr (m', r')"
    "out = mput ''items'' (GMap m') (mput ''type'' (GStr ''array'') node1)"
    using assms by (auto simp: handleNode.simps [of path node ap] rbind_Inr TypeConnectionRef_def)
  then show thesis using that handleRequired_lookup [of path node node1 r] by simp
qed

lemma handleNode_scalar:
  assumes "handleNode path node ap = Inr (out, r)" "checkedType path node = Inr t"
    and "t \<notin> {TypeConnectionRef, ''object'', ''array''}"
  shows "handleRequired path node = Inr (out, r)"
  using assms by (simp add: handleNode.simps [of path node ap])

text \<open>A schema node in OpenAPI form.\<close>

inductive openapi :: "gmap \<Rightarrow> bool" where
  openapi_scalar: "map_of n ''type'' = Some (GStr t) \<Longrightarrow> t \<in> {''string'', ''integer'', ''number'', ''boolean''} \<Longrightarrow>
     map_of n ''properties'' = None \<Longrightarrow> map_of n ''items'' = None \<Longrightarrow> map_of n ''required'' = None \<Longrightarrow> openapi n"
| openapi_object: "map_of n ''type'' = Some (GStr ''object'') \<Longrightarrow> map_of n ''properties'' = Some (GMap ps) \<Longrightarrow>
     map_of n ''required'' = Some (GStrs rs) \<Longrightarrow> set rs \<subseteq> set (keys ps) \<Longrightarrow>
     map_of n ''additionalProperties'' = Some (GBool b) \<Longrightarrow> map_of n ''items'' = None \<Longrightarrow> wf_map ps \<Longrightarrow>
     (\<And>p. p \<in> set ps \<Longrightarrow> \<exists>m. snd p = GMap m \<and> openapi m) \<Longrightarrow> openapi n"
| openapi_array: "map_of n ''type'' = Some (GStr ''array'') \<Longrightarrow> map_of n ''items'' = Some (GMap m) \<Longrightarrow> openapi m \<Longrightarrow>
     map_of n ''properties'' = None \<Longrightarrow> map_of n ''required'' = None \<Longrightarrow> openapi n"

lemmas type_names = allowedPropertiesByTypes_def connectionRefAllowedProperties_def TypeConnectionRef_def

lemma not_allowed:
  "checkedType path node = Inr t \<Longrightarrow> k \<notin> set (the (map_of allowedPropertiesByTypes t)) \<Longrightarrow> map_of node k = None"
  using checkedType_Ok(3) by (metis map_of_eq_None_iff set_map)

lemma list_all2_keys:
  "list_all2 (property_pair path ap rs) pm ps \<Longrightarrow> keys ps = keys pm"
  by (induction rule: list_all2_induct) (auto simp: property_pair_def)

lemma list_all2_mem: "list_all2 P xs ys \<Longrightarrow> y \<in> set ys \<Longrightarrow> \<exists>x\<in>set xs. P x y"
  by (induction rule: list_all2_induct) auto

lemma desugar_lookup:
  assumes "desugarConnectionRef path node = Inr (out, r)"
  obtains c marker where "map_of node ''contract'' = Some (GStr c)" "c \<noteq> ''''"
    "marker = (case map_of node ''kind'' of Some k \<Rightarrow> [(''contract'', GStr c), (''kind'', k)] | None \<Rightarrow> [(''contract'', GStr c)])"
    "map_of out = (map_of node)(''required'' := None, ''type'' \<mapsto> GStr ''string'', ''contract'' := None, ''kind'' := None,
       MarkerConnectionRef \<mapsto> GMap marker)"
    "r \<longleftrightarrow> map_of node ''required'' = Some (GBool True)"
    "\<forall>k. map_of node ''kind'' = Some k \<longrightarrow> k = GStr ''Connection'' \<or> k = GStr ''ClusterConnection''"
    "\<forall>d. map_of node ''default'' = Some d \<longrightarrow> templated d"
proof -
  obtain c marker node1 where d: "contractOf path node = Inr c" "connectionKind path node [(''contract'', GStr c)] = Inr marker"
      "handleRequired path node = Inr (node1, r)" "\<forall>d. map_of node ''default'' = Some d \<longrightarrow> templated d"
      "out = mput MarkerConnectionRef (GMap marker) (mdel ''kind'' (mdel ''contract'' (mput ''type'' (GStr ''string'') node1)))"
    using assms by (auto simp: desugarConnectionRef_def rbind_Inr split: if_splits option.splits)
  have "map_of node ''contract'' = Some (GStr c)" "c \<noteq> ''''"
    using d(1) by (auto simp: contractOf_def split: option.splits gval.splits if_splits)
  moreover have "\<forall>k. map_of node ''kind'' = Some k \<longrightarrow> k = GStr ''Connection'' \<or> k = GStr ''ClusterConnection''"
      "marker = (case map_of node ''kind'' of Some k \<Rightarrow> [(''contract'', GStr c), (''kind'', k)] | None \<Rightarrow> [(''contract'', GStr c)])"
    using d(2) by (auto simp: connectionKind_def mput_code split: option.splits gval.splits if_splits)
  ultimately show thesis using that [of c marker] d handleRequired_lookup [OF d(3)] by auto
qed

lemma nodeType_scalar: "nodeType node = GStr t \<Longrightarrow> t \<notin> {''object'', ''array''} \<Longrightarrow> map_of node ''type'' = Some (GStr t)"
  by (auto simp: nodeType_def split: option.splits if_splits)

lemma handleNode_openapi: "wf_gmap node \<Longrightarrow> handleNode path node ap = Inr (out, r) \<Longrightarrow> openapi out"
proof (induction "size (GMap node)" arbitrary: path node ap out r rule: less_induct)
  case less
  obtain t where t: "checkedType path node = Inr t" using handleNode_type [OF less.prems(2)] .
  note ty = checkedType_Ok(1,2) [OF t] and na = not_allowed [OF t]
  consider "t = TypeConnectionRef" | "t = ''object''" | "t = ''array''"
    | "t \<in> {''string'', ''integer'', ''number'', ''boolean''}" using ty(2) by metis
  then show ?case
  proof cases
    case 1
    then have "desugarConnectionRef path node = Inr (out, r)"
      using less.prems(2) t by (simp add: handleNode.simps [of path node ap])
    then show ?thesis
      by (rule desugar_lookup) (rule openapi_scalar [of _ "''string''"];
          use na [of "''properties''"] na [of "''items''"] 1 in \<open>simp add: type_names MarkerConnectionRef_def\<close>)
  next
    case 2
    obtain node1 pm ap' ps rs where o: "handleRequired path node = Inr (node1, r)" "map_of node ''properties'' = Some (GMap pm)"
        "rfold (propStep path ap') ([], []) pm = Inr (ps, rs)"
        "out = mput ''properties'' (GMap ps) (mput ''required'' (GStrs rs)
           (mput ''additionalProperties'' (GBool ap') (mput ''type'' (GStr ''object'') node1)))"
      using handleNode_object less.prems(2) t 2 by metis
    have wf: "wf_gmap pm" using less.prems(1) o(2) by (rule wf_gmap_lookup)
    then have p: "set rs \<subseteq> set (keys pm)" "list_all2 (property_pair path ap' rs) pm ps"
      using rfold_propStep [OF o(3)] by auto
    have ps: "\<exists>m. snd q = GMap m \<and> openapi m" if q: "q \<in> set ps" for q
    proof -
      obtain src where s: "src \<in> set pm" "property_pair path ap' rs src q"
        using list_all2_mem [OF p(2) q] by blast
      then obtain m m' r' where m: "snd src = GMap m" "snd q = GMap m'" "handleNode (path @ ''.'' @ fst src) m ap' = Inr (m', r')"
        by (auto simp: property_pair_def)
      have "size (GMap m) < size (GMap node)" using size_mem_gmap [OF s(1)] size_lookup_gmap [OF o(2)] m(1) by simp
      moreover have "wf_gmap m" using wf s(1) m(1) by (metis wf_gval.simps(1))
      ultimately show ?thesis using less.hyps m by auto
    qed
    show ?thesis
      by (rule openapi_object [of _ ps rs ap'])
        (use o(4) handleRequired_lookup [OF o(1)] p(1) list_all2_keys [OF p(2)] na [of "''items''"] 2 ps wf
          in \<open>simp_all add: type_names\<close>)
  next
    case 3
    obtain node1 m m' r' where a: "handleRequired path node = Inr (node1, r)" "map_of node ''items'' = Some (GMap m)"
        "handleNode (path @ ''.[]'') m ap = Inr (m', r')" "out = mput ''items'' (GMap m') (mput ''type'' (GStr ''array'') node1)"
      using handleNode_array less.prems(2) t 3 by metis
    have "openapi m'"
      using less.hyps [OF _ _ a(3)] size_lookup_gmap [OF a(2)] wf_gmap_lookup [OF less.prems(1) a(2)] by simp
    then show ?thesis
      by (rule openapi_array [rotated 2])
        (use a(4) handleRequired_lookup [OF a(1)] na [of "''properties''"] 3 in \<open>simp_all add: type_names\<close>)
  next
    case 4
    then have "handleRequired path node = Inr (out, r)" using handleNode_scalar [OF less.prems(2) t] by (auto simp: type_names)
    note h = handleRequired_lookup [OF this]
    show ?thesis
      by (rule openapi_scalar [of _ t])
        (use h na [of "''properties''"] na [of "''items''"] 4 nodeType_scalar [OF ty(1)] in \<open>auto simp: type_names\<close>)
  qed
qed

section \<open>Lemmas on the default values\<close>

lemma rfold_total:
  "(\<And>s x. x \<in> set xs \<Longrightarrow> \<exists>t. f s x = Inr t) \<Longrightarrow> \<exists>t. rfold f s xs = Inr t"
proof (induction xs arbitrary: s)
  case (Cons x xs)
  obtain t where "f s x = Inr t" using Cons.prems [of x s] by auto
  moreover have "\<exists>u. rfold f t xs = Inr u" using Cons by auto
  ultimately show ?case by simp
qed simp

lemma openapi_defaults: "openapi n \<Longrightarrow> \<exists>v. defaulterHandleNode path n = Inr v"
proof (induction arbitrary: path rule: openapi.induct)
  case (openapi_object n ps rs b)
  have "\<exists>t. (case snd kv of
         GMap property \<Rightarrow>
           rbind (defaulterHandleNode (if path \<noteq> '''' then path @ ''.'' @ fst kv else fst kv) property) (\<lambda>node2.
           Ok (case node2 of None \<Rightarrow> result | Some v \<Rightarrow> mput (fst kv) v result))
       | _ \<Rightarrow> Err (PropertiesInvalid path)) = Inr t" if k: "kv \<in> set ps" for result kv
  proof -
    obtain m where "snd kv = GMap m" "\<And>p. \<exists>v. defaulterHandleNode p m = Inr v" using openapi_object(8) [OF k] by blast
    then show ?thesis by (auto simp: rbind_Inr)
  qed
  from rfold_total [of ps, OF this] show ?case
    using openapi_object(2) by (simp add: defaulterHandleNode.simps [of path n] rbind_Inr)
qed (simp_all add: defaulterHandleNode.simps)

lemma openapi_schema_mark: "openapi n \<Longrightarrow> openapi (mput ''$schema'' v n)"
proof (erule openapi.cases, goal_cases)
  case (1 n' t)
  show ?case by (rule openapi_scalar [of _ t]) (use 1 in simp_all)
next
  case (2 n' ps rs b)
  show ?case
  proof (rule openapi_object [of _ ps rs b])
    show "\<exists>m. snd p = GMap m \<and> openapi m" if "p \<in> set ps" for p using 2(9) that by blast
  qed (use 2(1-8) in simp_all)
next
  case (3 n' m)
  show ?case by (rule openapi_array [of _ m]) (use 3 in simp_all)
qed

section \<open>Lemmas on the declarations\<close>

lemma mapOr_mem: "kv \<in> set (mapOr node k) \<Longrightarrow> size (snd kv) < size (GMap node)"
proof -
  assume a: "kv \<in> set (mapOr node k)"
  then have "map_of node k = Some (GMap (mapOr node k))"
    by (cases "map_of node k") (auto simp: mapOr_def split: gval.splits)
  then show ?thesis using size_lookup_gmap [of node k] size_mem_gmap [OF a] by fastforce
qed

text \<open>The declarations as the author of the schema wrote them.\<close>

function source_decls :: "gmap \<Rightarrow> string list \<Rightarrow> bool \<Rightarrow> ConnectionDecl list" where
  "source_decls node path required =
     (if nodeType node = GStr TypeConnectionRef
      then [\<lparr>cd_Path = path, cd_Contract = strOr node ''contract'', cd_Required = required, cd_Default = strOr node ''default'',
             cd_KindFilter = strOr node ''kind''\<rparr>]
      else if nodeType node = GStr ''object''
      then concat (map (\<lambda>kv. case snd kv of
                          GMap m \<Rightarrow> source_decls m (path @ [fst kv]) (map_of m ''required'' = Some (GBool True))
                        | _ \<Rightarrow> []) (mapOr node ''properties''))
      else if nodeType node = GStr ''array''
      then (case map_of node ''items'' of Some (GMap m) \<Rightarrow> source_decls m (path @ [''[]'']) False | _ \<Rightarrow> [])
      else [])"
  by pat_completeness auto

termination
proof (relation "measure (\<lambda>(node, _). size (GMap node))", goal_cases)
  case (2 node path required kv m)
  then show ?case using mapOr_mem [of kv node "''properties''"] by simp
next
  case (3 node path required v m)
  then show ?case using size_lookup_gmap [of node "''items''" v] by simp
qed simp

declare source_decls.simps [simp del]

lemma collect_mark: "collectConnectionDecls (mput ''$schema'' v n) = collectConnectionDecls n"
proof -
  have m: "mapOr (mput ''$schema'' v n) MarkerConnectionRef = mapOr n MarkerConnectionRef"
      "mapOr (mput ''$schema'' v n) ''properties'' = mapOr n ''properties''"
      "strOr (mput ''$schema'' v n) ''default'' = strOr n ''default''" "requiredSet (mput ''$schema'' v n) = requiredSet n"
    by (simp_all add: mapOr_def strOr_def requiredSet_def MarkerConnectionRef_def)
  have l: "map_of (mput ''$schema'' v n) MarkerConnectionRef = map_of n MarkerConnectionRef"
      "map_of (mput ''$schema'' v n) ''items'' = map_of n ''items''"
    by (simp_all add: MarkerConnectionRef_def)
  show ?thesis
    by (intro ext, subst (1 2) collectConnectionDecls.simps) (simp only: m l)
qed

text \<open>The loop over the properties collects what each of them declares.\<close>

lemma rfold_collect:
  assumes "list_all2 (property_pair path0 ap rs) pm ps"
    and "rfold (\<lambda>ds kv. case snd kv of GMap child \<Rightarrow>
            collectConnectionDecls child (path @ [fst kv]) (fst kv \<in> set rs) inArray isContext ds | _ \<Rightarrow> Ok ds) ds ps = Inr ds'"
    and "\<And>kv m m' r ds ds'. kv \<in> set pm \<Longrightarrow> snd kv = GMap m \<Longrightarrow> handleNode (path0 @ ''.'' @ fst kv) m ap = Inr (m', r) \<Longrightarrow>
        collectConnectionDecls m' (path @ [fst kv]) r inArray isContext ds = Inr ds' \<Longrightarrow>
        ds' = ds @ source_decls m (path @ [fst kv]) r \<and> (r \<longleftrightarrow> map_of m ''required'' = Some (GBool True))"
  shows "ds' = ds @ concat (map (\<lambda>kv. case snd kv of
            GMap m \<Rightarrow> source_decls m (path @ [fst kv]) (map_of m ''required'' = Some (GBool True)) | _ \<Rightarrow> []) pm)"
  using assms
proof (induction arbitrary: ds rule: list_all2_induct)
  case (Cons src pm out ps)
  obtain m m' r where p: "fst out = fst src" "snd src = GMap m" "snd out = GMap m'"
      "handleNode (path0 @ ''.'' @ fst src) m ap = Inr (m', r)" "fst src \<in> set rs \<longleftrightarrow> r"
    using Cons.hyps(1) by (auto simp: property_pair_def)
  obtain ds1 where d: "collectConnectionDecls m' (path @ [fst src]) r inArray isContext ds = Inr ds1"
      "rfold (\<lambda>ds kv. case snd kv of GMap child \<Rightarrow>
            collectConnectionDecls child (path @ [fst kv]) (fst kv \<in> set rs) inArray isContext ds | _ \<Rightarrow> Ok ds) ds1 ps = Inr ds'"
    using Cons.prems(1) p by (auto split: sum.splits)
  have "ds1 = ds @ source_decls m (path @ [fst src]) (map_of m ''required'' = Some (GBool True))"
    using Cons.prems(2) [OF _ p(2) p(4) d(1)] by auto
  moreover have "ds' = ds1 @ concat (map (\<lambda>kv. case snd kv of
            GMap m \<Rightarrow> source_decls m (path @ [fst kv]) (map_of m ''required'' = Some (GBool True)) | _ \<Rightarrow> []) pm)"
    using Cons.IH [OF d(2)] Cons.prems(2) by (meson list.set_intros(2))
  ultimately show ?case using p(2) by simp
qed simp

lemma handleNode_required:
  assumes "handleNode path node ap = Inr (out, r)"
  shows "r \<longleftrightarrow> map_of node ''required'' = Some (GBool True)"
proof -
  obtain t where t: "checkedType path node = Inr t" using handleNode_type [OF assms] .
  consider "t = TypeConnectionRef" | "t = ''object''" | "t = ''array''" | "t \<notin> {TypeConnectionRef, ''object'', ''array''}"
    by blast
  then show ?thesis
  proof cases
    case 1
    then have "desugarConnectionRef path node = Inr (out, r)" using assms t by (simp add: handleNode.simps [of path node ap])
    then show ?thesis by (rule desugar_lookup)
  next
    case 2
    then show ?thesis using handleNode_object [OF assms] t handleRequired_lookup(2) by metis
  next
    case 3
    then show ?thesis using handleNode_array [OF assms] t handleRequired_lookup(2) by metis
  next
    case 4
    then show ?thesis using handleNode_scalar [OF assms t] handleRequired_lookup(2) by metis
  qed
qed

lemma collect_source:
  "wf_gmap node \<Longrightarrow> handleNode path0 node ap = Inr (out, r) \<Longrightarrow>
     collectConnectionDecls out path required inArray isContext ds = Inr ds' \<Longrightarrow> ds' = ds @ source_decls node path required"
proof (induction "size (GMap node)" arbitrary: path0 node ap out r path required inArray ds ds' rule: less_induct)
  case less
  obtain t where t: "checkedType path0 node = Inr t" using handleNode_type [OF less.prems(2)] .
  note ty = checkedType_Ok(1,2) [OF t] and na = not_allowed [OF t]
  consider "t = TypeConnectionRef" | "t = ''object''" | "t = ''array''"
    | "t \<in> {''string'', ''integer'', ''number'', ''boolean''}" using ty(2) by metis
  then show ?case
  proof cases
    case 1
    then have "desugarConnectionRef path0 node = Inr (out, r)"
      using less.prems(2) t by (simp add: handleNode.simps [of path0 node ap])
    then obtain c marker where d: "map_of node ''contract'' = Some (GStr c)"
      "marker = (case map_of node ''kind'' of Some k \<Rightarrow> [(''contract'', GStr c), (''kind'', k)] | None \<Rightarrow> [(''contract'', GStr c)])"
      "map_of out = (map_of node)(''required'' := None, ''type'' \<mapsto> GStr ''string'', ''contract'' := None, ''kind'' := None,
         MarkerConnectionRef \<mapsto> GMap marker)"
      by (rule desugar_lookup)
    have "strOr marker ''contract'' = strOr node ''contract''" "strOr marker ''kind'' = strOr node ''kind''"
        "strOr out ''default'' = strOr node ''default''" "mapOr out MarkerConnectionRef = marker"
      using d by (auto simp: strOr_def mapOr_def MarkerConnectionRef_def split: option.splits)
    then show ?thesis using less.prems(3) d(3) ty(1) 1
      by (auto simp: collectConnectionDecls.simps [of out] source_decls.simps [of node] rbind_Inr Let_def split: if_splits)
  next
    case 2
    obtain node1 pm ap' ps rs where o: "handleRequired path0 node = Inr (node1, r)" "map_of node ''properties'' = Some (GMap pm)"
        "rfold (propStep path0 ap') ([], []) pm = Inr (ps, rs)"
        "out = mput ''properties'' (GMap ps) (mput ''required'' (GStrs rs)
           (mput ''additionalProperties'' (GBool ap') (mput ''type'' (GStr ''object'') node1)))"
      using handleNode_object less.prems(2) t 2 by metis
    have wf: "wf_gmap pm" using less.prems(1) o(2) by (rule wf_gmap_lookup)
    then have p: "list_all2 (property_pair path0 ap' rs) pm ps" using rfold_propStep [OF o(3)] by auto
    have lk: "map_of out MarkerConnectionRef = None" "mapOr out ''properties'' = ps" "map_of out ''items'' = None"
        "requiredSet out = rs" "mapOr node ''properties'' = pm"
      using o handleRequired_lookup [OF o(1)] na [of MarkerConnectionRef] na [of "''items''"] 2
      by (simp_all add: type_names MarkerConnectionRef_def mapOr_def requiredSet_def)
    have f: "rfold (\<lambda>ds kv. case snd kv of GMap child \<Rightarrow>
            collectConnectionDecls child (path @ [fst kv]) (fst kv \<in> set rs) inArray isContext ds | _ \<Rightarrow> Ok ds) ds ps = Inr ds'"
      unfolding lk(4) [symmetric] using less.prems(3) lk(1-3) by (simp add: collectConnectionDecls.simps [of out] rbind_Inr)
    have step: "ds2 = ds1 @ source_decls m (path @ [fst kv]) r' \<and> (r' \<longleftrightarrow> map_of m ''required'' = Some (GBool True))"
      if "kv \<in> set pm" "snd kv = GMap m" "handleNode (path0 @ ''.'' @ fst kv) m ap' = Inr (m', r')"
        "collectConnectionDecls m' (path @ [fst kv]) r' inArray isContext ds1 = Inr ds2" for kv m m' r' ds1 ds2
    proof -
      have "size (GMap m) < size (GMap node)" using size_mem_gmap [OF that(1)] size_lookup_gmap [OF o(2)] that(2) by simp
      moreover have "wf_gmap m" using wf that(1,2) by (metis wf_gval.simps(1))
      ultimately show ?thesis using less.hyps that(3,4) handleNode_required [OF that(3)] by blast
    qed
    have "ds' = ds @ concat (map (\<lambda>kv. case snd kv of
            GMap m \<Rightarrow> source_decls m (path @ [fst kv]) (map_of m ''required'' = Some (GBool True)) | _ \<Rightarrow> []) pm)"
      using step by (rule rfold_collect [OF p f])
    then show ?thesis using ty(1) 2 lk(5) by (simp add: source_decls.simps [of node] TypeConnectionRef_def)
  next
    case 3
    obtain node1 m m' r' where a: "handleRequired path0 node = Inr (node1, r)" "map_of node ''items'' = Some (GMap m)"
        "handleNode (path0 @ ''.[]'') m ap = Inr (m', r')" "out = mput ''items'' (GMap m') (mput ''type'' (GStr ''array'') node1)"
      using handleNode_array less.prems(2) t 3 by metis
    have lk: "map_of out MarkerConnectionRef = None" "mapOr out ''properties'' = []" "map_of out ''items'' = Some (GMap m')"
      using a handleRequired_lookup [OF a(1)] na [of MarkerConnectionRef] na [of "''properties''"] 3
      by (simp_all add: type_names MarkerConnectionRef_def mapOr_def)
    then have "collectConnectionDecls m' (path @ [''[]'']) False True isContext ds = Inr ds'"
      using less.prems(3) by (simp add: collectConnectionDecls.simps [of out])
    then have "ds' = ds @ source_decls m (path @ [''[]'']) False"
      using less.hyps [OF _ _ a(3)] size_lookup_gmap [OF a(2)] wf_gmap_lookup [OF less.prems(1) a(2)] by blast
    then show ?thesis using ty(1) 3 a(2) by (simp add: source_decls.simps [of node] TypeConnectionRef_def)
  next
    case 4
    then have h: "handleRequired path0 node = Inr (out, r)" using handleNode_scalar [OF less.prems(2) t] by (auto simp: type_names)
    have "map_of out MarkerConnectionRef = None" "mapOr out ''properties'' = []" "map_of out ''items'' = None"
      using handleRequired_lookup [OF h] na [of MarkerConnectionRef] na [of "''properties''"] na [of "''items''"] 4
      by (auto simp: type_names MarkerConnectionRef_def mapOr_def)
    then show ?thesis using less.prems(3) ty(1) 4
      by (auto simp: collectConnectionDecls.simps [of out] source_decls.simps [of node] TypeConnectionRef_def)
  qed
qed

section \<open>Properties\<close>

lemma Kubo2openAPI_converted:
  assumes "Kubo2openAPI (Some s) ap = Inr (Some out)" "\<not> mhas s ''$schema''"
  obtains n r where "handleNode '''' s ap = Inr (n, r)" "out = mput ''$schema'' (GStr ''http://json-schema.org/schema#'') n"
  using assms by (auto simp: Kubo2openAPI_def rbind_Inr split: if_splits)


text \<open>C20: a converted schema never makes the computation of the default values fail: it gives the map of the defaults,
  or the default of a schema whose root is not an object.\<close>

theorem converted_schema_has_defaults:
  assumes "wf_gmap s" "\<not> mhas s ''$schema''" "Kubo2openAPI (Some s) ap = Ok (Some out)"
  shows "\<exists>v. BaseDefaulter (Some out) = Ok v"
proof -
  obtain n r where n: "handleNode '''' s ap = Inr (n, r)" "out = mput ''$schema'' (GStr ''http://json-schema.org/schema#'') n"
    using Kubo2openAPI_converted [OF assms(3,2)] .
  have "openapi out" using n handleNode_openapi [OF assms(1)] openapi_schema_mark by blast
  then show ?thesis using openapi_defaults [of out "''''"] n(2) by (auto simp: BaseDefaulter_def rbind_Inr mhas_def)
qed

text \<open>C21: the connections collected from a converted schema are the ones that its author declared, in order, each with
  its path, contract, kind, default and whether the author marked it as required.\<close>

theorem collected_decls_are_declared:
  assumes "wf_gmap s" "\<not> mhas s ''$schema''" "Kubo2openAPI (Some s) ap = Ok (Some out)"
    and "CollectConnectionDecls out isContext = Ok decls"
  shows "decls = source_decls s [] False"
proof -
  obtain n r where n: "handleNode '''' s ap = Inr (n, r)" "out = mput ''$schema'' (GStr ''http://json-schema.org/schema#'') n"
    using Kubo2openAPI_converted [OF assms(3,2)] .
  have "out \<noteq> []" using n(2) by (metis fun_upd_same map_of_mput map_of.simps(1) option.distinct(1))
  then have "collectConnectionDecls n [] False False isContext [] = Inr decls"
    using assms(4) n(2) by (simp add: CollectConnectionDecls_def collect_mark)
  from collect_source [OF assms(1) n(1) this] show ?thesis by simp
qed

text \<open>Converting a converted schema changes nothing.\<close>

theorem Kubo2openAPI_idempotent:
  assumes "Kubo2openAPI schema ap = Ok (Some out)" "out \<noteq> []"
  shows "Kubo2openAPI (Some out) ap' = Ok (Some out)"
proof -
  have "mhas out ''$schema''"
    using assms(1) by (auto simp: Kubo2openAPI_def rbind_Inr mhas_def split: option.splits if_splits)
  then show ?thesis using assms(2) by (simp add: Kubo2openAPI_def)
qed

text \<open>The schema of the witnesses: an object with a required connection and a list of strings.\<close>

definition sample_schema :: gmap where
  "sample_schema = [(''properties'', GMap
     [(''db'', GMap [(''type'', GStr ''connectionRef''), (''contract'', GStr ''sql''), (''required'', GBool True)]),
      (''hosts'', GMap [(''items'', GMap [(''type'', GStr ''string'')])])])]"

definition sample_openapi :: gmap where
  "sample_openapi =
     [(''properties'', GMap
        [(''db'', GMap [(''type'', GStr ''string''), (MarkerConnectionRef, GMap [(''contract'', GStr ''sql'')])]),
         (''hosts'', GMap [(''items'', GMap [(''type'', GStr ''string'')]), (''type'', GStr ''array'')])]),
      (''type'', GStr ''object''), (''additionalProperties'', GBool False), (''required'', GStrs [''db'']),
      (''$schema'', GStr ''http://json-schema.org/schema#'')]"

lemma sample_converts: "Kubo2openAPI (Some sample_schema) False = Ok (Some sample_openapi)"
  by (simp add: Kubo2openAPI_def sample_schema_def sample_openapi_def mhas_def handleNode.simps checkedType_def nodeType_def
      type_names handleRequired_def propsOf_def addPropsOf_def mapOf_def itemsOf_def mput_code mdel_code desugarConnectionRef_def
      contractOf_def connectionKind_def MarkerConnectionRef_def)

lemma sample_schema_wf: "wf_gmap sample_schema" "\<not> mhas sample_schema ''$schema''"
  by (simp_all add: sample_schema_def mhas_def)


theorem converted_schema_has_defaults_witness: "\<exists>v. BaseDefaulter (Some sample_openapi) = Ok v"
  by (rule converted_schema_has_defaults [OF sample_schema_wf sample_converts])

theorem collected_decls_are_declared_witness:
  "[\<lparr>cd_Path = [''db''], cd_Contract = ''sql'', cd_Required = True, cd_Default = '''', cd_KindFilter = ''''\<rparr>]
     = source_decls sample_schema [] False"
proof (rule collected_decls_are_declared [OF sample_schema_wf sample_converts])
  show "CollectConnectionDecls sample_openapi False =
     Ok [\<lparr>cd_Path = [''db''], cd_Contract = ''sql'', cd_Required = True, cd_Default = '''', cd_KindFilter = ''''\<rparr>]"
    by (simp add: CollectConnectionDecls_def sample_openapi_def collectConnectionDecls.simps MarkerConnectionRef_def mapOr_def
        strOr_def requiredSet_def checkRefPathSegments_def is_digit_def)
qed

theorem Kubo2openAPI_idempotent_witness: "Kubo2openAPI (Some sample_openapi) True = Ok (Some sample_openapi)"
  by (rule Kubo2openAPI_idempotent [OF sample_converts]) (simp add: sample_openapi_def)

end
