(* ===== verification/Tmpl.thy ===== *)
theory Tmpl
  imports Values
begin

text \<open>
  \<open>internal/tmpl\<close> (\<open>tmpl.go\<close>, \<open>data.go\<close>) and \<open>internal/misc/yamlkeys.go\<close>: a parsed template, the copy of the data it
  is executed on, the limit on the text it renders, how its errors are located and described, and the decoding of the
  rendered text. The engine of \<open>text/template\<close>, the YAML decoders and \<open>time.ParseDuration\<close> are the record \<open>engine\<close>.
\<close>

section \<open>Places in a template\<close>

text \<open>\<open>strings.Count(s, "\n")\<close> and \<open>strings.LastIndex(s, "\n")\<close>, the latter plus one: the start of the last line.\<close>

abbreviation newline :: char where
  "newline \<equiv> CHR 0x0A"

definition last_line_start :: "string \<Rightarrow> nat" where
  "last_line_start s = length s - length (takeWhile (\<lambda>c. c \<noteq> newline) (rev s))"

definition headerLines :: "string \<Rightarrow> nat \<times> bool" where
  "headerLines header =
     (let lines = count_list header newline
      in if header \<noteq> [] \<and> last header \<noteq> newline then (lines + 1, True) else (lines, False))"

text \<open>The digits at the start of a text, and what follows them.\<close>

definition span_digits :: "string \<Rightarrow> string \<times> string" where
  "span_digits s = (takeWhile is_digit s, dropWhile is_digit s)"

text \<open>\<open>\d+\<close> followed by the separator \<open>sep\<close>: the number, and the rest.\<close>

definition number_then :: "string \<Rightarrow> string \<Rightarrow> (string \<times> string) option" where
  "number_then sep s =
     (case span_digits s of (ds, rest) \<Rightarrow>
        if ds \<noteq> [] \<and> prefix sep rest then Some (ds, drop (length sep) rest) else None)"

text \<open>What follows \<open>^template: [^:]*:\<close>.\<close>

definition after_template :: "string \<Rightarrow> string option" where
  "after_template s =
     (if prefix ''template: '' s
      then (let rest = dropWhile (\<lambda>c. c \<noteq> CHR '':'') (drop 10 s) in if rest = [] then None else Some (tl rest))
      else None)"

text \<open>\<open>strconv.Atoi\<close>, its error ignored: the nearest \<open>int\<close> on an overflow.\<close>

definition atoi_or_max :: "string \<Rightarrow> int" where
  "atoi_or_max ds = min (int (digits_val ds)) (2 ^ 63 - 1)"

definition parseErrorLine :: "string \<Rightarrow> int option" where
  "parseErrorLine s = Option.bind (after_template s) (\<lambda>r. map_option (atoi_or_max \<circ> fst) (number_then '':'' r))"

definition execErrorStart :: "string \<Rightarrow> (int \<times> int) option" where
  "execErrorStart s =
     Option.bind (after_template s) (\<lambda>r.
     Option.bind (number_then '':'' r) (\<lambda>(line, r).
     map_option (\<lambda>(offset, _). (atoi_or_max line, atoi_or_max offset)) (number_then '': '' r)))"

datatype parse_place = InHeader | HeaderOrFirstLine | InTemplate

definition headerPlace :: "string \<Rightarrow> string \<Rightarrow> parse_place" where
  "headerPlace err header =
     (case parseErrorLine err of
        None \<Rightarrow> InTemplate
      | Some line \<Rightarrow>
          (case headerLines header of (lines, shared) \<Rightarrow>
             if line < int lines \<or> line = int lines \<and> \<not> shared then InHeader
             else if line = int lines then HeaderOrFirstLine else InTemplate))"

text \<open>The place of an execution error: a line and a column of the header, or of the template after it.\<close>

datatype place = HeaderAt int int | TemplateAt int int

definition place_of :: "string \<Rightarrow> int \<Rightarrow> int \<Rightarrow> place" where
  "place_of header line offset =
     (case headerLines header of (lines, shared) \<Rightarrow>
        (let lastLineLength = int (length header) - int (last_line_start header)
         in if line < int lines \<or> line = int lines \<and> (\<not> shared \<or> offset < lastLineLength) then HeaderAt line (offset + 1)
            else if line = int lines then TemplateAt 1 (offset - lastLineLength + 1)
            else if shared then TemplateAt (line - int lines + 1) (offset + 1)
            else TemplateAt (line - int lines) (offset + 1)))"

definition execPlace :: "string \<Rightarrow> string \<Rightarrow> place option" where
  "execPlace header msg = map_option (\<lambda>(line, offset). place_of header line offset) (execErrorStart msg)"

fun place_text :: "place \<Rightarrow> string" where
  "place_text (HeaderAt line col) = ''in templateHeader, line '' @ Itoa line @ '', column '' @ Itoa col"
| "place_text (TemplateAt line col) = ''line '' @ Itoa line @ '', column '' @ Itoa col"

section \<open>The data of a template\<close>

text \<open>
  The values that the model of a template can hold: scalars, maps, lists, \<open>[]string\<close>, \<open>[]map[string]interface{}\<close>, nil maps and
  lists, and any other Go value, with the name of its type.
\<close>

datatype tdata =
    DScalar gval
  | DMap "(string \<times> tdata) list"
  | DList "tdata list"
  | DStrs "string list"
  | DMaps "((string \<times> tdata) list option) list"
  | DNilMap
  | DNilList
  | DOther string

text \<open>\<open>copyValue\<close> with the violations it appends; the loop over a map is \<open>copyItems\<close>, over a list \<open>copyList\<close>.\<close>

function (sequential) copyValue :: "string \<Rightarrow> tdata \<Rightarrow> tdata \<times> string list"
  and copyItems :: "string \<Rightarrow> (string \<times> tdata) list \<Rightarrow> (string \<times> tdata) list \<times> string list"
  and copyList :: "string \<Rightarrow> nat \<Rightarrow> tdata list \<Rightarrow> tdata list \<times> string list"
  and copyMaps :: "string \<Rightarrow> nat \<Rightarrow> ((string \<times> tdata) list option) list \<Rightarrow> ((string \<times> tdata) list option) list \<times> string list" where
  "copyValue path (DMap m) = (case copyItems (path @ ''.'') m of (out, vs) \<Rightarrow> (DMap out, vs))"
| "copyValue path (DList l) = (case copyList path 0 l of (out, vs) \<Rightarrow> (DList out, vs))"
| "copyValue path (DMaps l) = (case copyMaps path 0 l of (out, vs) \<Rightarrow> (DMaps out, vs))"
| "copyValue path (DOther t) = (DScalar GNil, [path @ '' is a '' @ t])"
| "copyValue path (DScalar v) = (DScalar v, [])"
| "copyValue path (DStrs v) = (DStrs v, [])"
| "copyValue path DNilMap = (DNilMap, [])"
| "copyValue path DNilList = (DNilList, [])"
| "copyItems pre [] = ([], [])"
| "copyItems pre ((k, v) # m) =
     (case copyValue (pre @ k) v of (w, vs) \<Rightarrow> (case copyItems pre m of (out, us) \<Rightarrow> ((k, w) # out, vs @ us)))"
| "copyList path i [] = ([], [])"
| "copyList path i (v # l) =
     (case copyValue (path @ ''['' @ nat_digits i @ '']'') v of (w, vs) \<Rightarrow>
        (case copyList path (Suc i) l of (out, us) \<Rightarrow> (w # out, vs @ us)))"
| "copyMaps path i [] = ([], [])"
| "copyMaps path i (None # l) = (case copyMaps path (Suc i) l of (out, us) \<Rightarrow> (None # out, us))"
| "copyMaps path i (Some m # l) =
     (case copyItems (path @ ''['' @ nat_digits i @ '']'' @ ''.'') m of (w, vs) \<Rightarrow>
        (case copyMaps path (Suc i) l of (out, us) \<Rightarrow> (Some w # out, vs @ us)))"
  by pat_completeness auto

termination
  by (relation "measure (case_sum (case_sum (\<lambda>(_, v). 2 * size v) (\<lambda>(_, m). 2 * size (DMap m) - 1))
        (case_sum (\<lambda>(_, _, l). 2 * size (DList l) - 1) (\<lambda>(_, _, l). 2 * size (DMaps l) - 1)))") auto

definition plainCopy :: "(string \<times> tdata) list \<Rightarrow> (string, (string \<times> tdata) list) result" where
  "plainCopy model =
     (case copyItems '''' model of (data, violations) \<Rightarrow>
        if violations = [] then Ok data
        else Err (''the template data is not plain data: '' @ hd (sort violations)))"

section \<open>Keys of YAML maps\<close>

text \<open>A document decoded with typed keys. A float key carries the text that \<open>FormatFloat(k, 'g', -1, 32)\<close> gives for it.\<close>

datatype ykey = YStr string | YInt int | YFloat string | YBool bool | YOther nat

datatype yval = YMap "(ykey \<times> yval) list" | YList "yval list" | YScalar string

fun jsonKey :: "ykey \<Rightarrow> string option" where
  "jsonKey (YStr s) = Some s"
| "jsonKey (YInt i) = Some (Itoa i)"
| "jsonKey (YFloat s) =
     Some (if s = ''+Inf'' then ''.inf'' else if s = ''-Inf'' then ''-.inf'' else if s = ''NaN'' then ''.nan'' else s)"
| "jsonKey (YBool b) = Some (if b then ''true'' else ''false'')"
| "jsonKey (YOther _) = None"

text \<open>\<open>collide\<close> with the field \<open>unsupported\<close> threaded through; \<open>collideMap\<close> and \<open>collideList\<close> are its loops.\<close>

fun collide :: "bool \<Rightarrow> yval \<Rightarrow> bool \<times> bool"
  and collideMap :: "bool \<Rightarrow> string list \<Rightarrow> (ykey \<times> yval) list \<Rightarrow> bool \<times> bool"
  and collideList :: "bool \<Rightarrow> yval list \<Rightarrow> bool \<times> bool" where
  "collide u (YMap n) = collideMap u [] n"
| "collide u (YList n) = collideList u n"
| "collide u (YScalar _) = (False, u)"
| "collideMap u seen [] = (False, u)"
| "collideMap u seen ((key, value) # n) =
     (if (case jsonKey key of None \<Rightarrow> False | Some s \<Rightarrow> s \<in> set seen) then (True, u)
      else (case collide (u \<or> jsonKey key = None) value of
              (True, u') \<Rightarrow> (True, u')
            | (False, u') \<Rightarrow> collideMap u' (case jsonKey key of None \<Rightarrow> seen | Some s \<Rightarrow> s # seen) n))"
| "collideList u [] = (False, u)"
| "collideList u (item # n) = (case collide u item of (True, u') \<Rightarrow> (True, u') | (False, u') \<Rightarrow> collideList u' n)"

datatype yaml_key_error = YAMLDecode string | YAMLKeysCollide | YAMLKeyUnsupported

definition CheckYAMLKeys :: "(string \<Rightarrow> (string, yval) result) \<Rightarrow> string \<Rightarrow> (yaml_key_error, unit) result" where
  "CheckYAMLKeys unmarshalV2 doc =
     (case unmarshalV2 doc of
        Inl e \<Rightarrow> Err (YAMLDecode e)
      | Inr typed \<Rightarrow>
          (case collide False typed of
             (True, _) \<Rightarrow> Err YAMLKeysCollide
           | (False, unsupported) \<Rightarrow> if unsupported then Err YAMLKeyUnsupported else Ok ()))"

section \<open>Rendering\<close>

text \<open>
  An execution error: its whole text; when it is a \<open>template.ExecError\<close>, the message of its inner error and of the error
  that one wraps; the messages of a \<open>shownError\<close> and of a \<open>limitError\<close> in its chain.
\<close>

record exec_failure =
  ef_text :: string
  ef_exec :: "(string \<times> string option) option"
  ef_shown :: "string option"
  ef_limit :: "string option"

datatype tmpl_error =
    ParseFailed parse_place string
  | InvalidTemplateType
  | NotPlain string
  | RenderedTextTooLarge
  | Execution string
  | ExecutionLimit string
  | YAMLKeys yaml_key_error
  | NotStructured string
  | NotYAML "string option"
  | NotBoolean
  | NotDuration

text \<open>
  What the package calls. An execution is the texts it writes and the failure it ends with, if any: the writes made
  before the failure. The YAML decoders are those of the types that the templates render to.
\<close>

record 't engine =
  en_Parse :: "string \<Rightarrow> (string, 't) result"
  en_Execute :: "'t \<Rightarrow> (string \<times> tdata) list \<Rightarrow> string list \<times> exec_failure option"
  en_yamlV2 :: "string \<Rightarrow> (string, yval) result"
  en_yamlAny :: "string \<Rightarrow> (string, unit) result"
  en_yamlMap :: "string \<Rightarrow> (string, gmap) result"
  en_yamlStrings :: "string \<Rightarrow> (string, string list) result"
  en_ParseDuration :: "string \<Rightarrow> int option"
  en_Any2Yaml :: "gval \<Rightarrow> string"

record 't tmpl =
  tt_template :: 't
  tt_header :: string

definition New_tmpl :: "'t engine \<Rightarrow> string \<Rightarrow> string \<Rightarrow> (tmpl_error, 't tmpl) result" where
  "New_tmpl eng tempText header =
     (case en_Parse eng (header @ tempText) of
        Inl e \<Rightarrow> Err (ParseFailed (headerPlace e header) e)
      | Inr t \<Rightarrow> Ok \<lparr>tt_template = t, tt_header = header\<rparr>)"

definition NewFromAny :: "'t engine \<Rightarrow> gval \<Rightarrow> string \<Rightarrow> (tmpl_error, 't tmpl) result" where
  "NewFromAny eng src header =
     (case src of
        GNil \<Rightarrow> New_tmpl eng '''' ''''
      | GStr s \<Rightarrow> New_tmpl eng s header
      | GMap m \<Rightarrow> New_tmpl eng (en_Any2Yaml eng src) header
      | GList l \<Rightarrow> New_tmpl eng (en_Any2Yaml eng src) header
      | GStrs l \<Rightarrow> New_tmpl eng (en_Any2Yaml eng src) header
      | _ \<Rightarrow> Err InvalidTemplateType)"

definition maxRenderedText :: int where
  "maxRenderedText = 4194304"

text \<open>\<open>renderedText.Write\<close> on the text collected so far: \<open>None\<close> when it is refused. Then the writes of an execution.\<close>

definition Write :: "int \<Rightarrow> string \<Rightarrow> string \<Rightarrow> string option" where
  "Write limit text p = (if int (length p) > limit - int (length text) then None else Some (text @ p))"

fun write_all :: "int \<Rightarrow> string \<Rightarrow> string list \<Rightarrow> string option" where
  "write_all limit text [] = Some text"
| "write_all limit text (p # ps) = Option.bind (Write limit text p) (\<lambda>t. write_all limit t ps)"

text \<open>\<open>strings.ReplaceAll(s, old, "")\<close> for an \<open>old\<close> that is not empty.\<close>

function remove_all :: "string \<Rightarrow> string \<Rightarrow> string" where
  "remove_all old s =
     (case s of
        [] \<Rightarrow> []
      | c # cs \<Rightarrow> if old \<noteq> [] \<and> prefix old s then remove_all old (drop (length old) s) else c # remove_all old cs)"
  by pat_completeness auto

termination by (relation "measure (length \<circ> snd)") auto

declare remove_all.simps [simp del]

definition withheld :: string where
  "withheld = ''message withheld, as it can quote the data''"

definition execCategories :: "(string \<times> string) list" where
  "execCategories = [
     (''range can't iterate over '', ''range over a value that is not a list or a map''),
     (''wrong type for value; '', ''argument of the wrong type''),
     (''invalid value; expected '', ''argument of the wrong type''),
     (''can't evaluate field '', ''field of a value that is not a map''),
     (''nil pointer evaluating '', ''field of a missing value''),
     (''wrong number of args for '', ''wrong number of arguments'')]"

definition ident_char :: "char \<Rightarrow> bool" where
  "ident_char c \<longleftrightarrow> (CHR ''a'' \<le> c \<and> c \<le> CHR ''z'') \<or> (CHR ''A'' \<le> c \<and> c \<le> CHR ''Z'') \<or> c = CHR ''_'' \<or> is_digit c"

text \<open>The expression \<open>error calling ([A-Za-z_][A-Za-z0-9_]*)$\<close>: the identifier that ends the text, after those words.\<close>

definition calledFunction :: "string \<Rightarrow> string option" where
  "calledFunction s =
     (let name = rev (takeWhile ident_char (rev s)); head = take (length s - length name) s
      in if name \<noteq> [] \<and> \<not> is_digit (hd name) \<and> suffix ''error calling '' head then Some name else None)"

definition execReason :: "string \<times> string option \<Rightarrow> string" where
  "execReason = (\<lambda>(msg, cause).
     (case cause of
        Some c \<Rightarrow>
          if suffix ('': '' @ c) msg
          then (case calledFunction (take (length msg - length ('': '' @ c)) msg) of
                  Some f \<Rightarrow> ''error calling '' @ f | None \<Rightarrow> ''function error'')
          else ''function error''
      | None \<Rightarrow> (case find (\<lambda>c. sublist (''>: '' @ fst c) msg) execCategories of
                   Some c \<Rightarrow> snd c | None \<Rightarrow> ''execution error'')))"

definition executionError :: "string \<Rightarrow> exec_failure \<Rightarrow> tmpl_error" where
  "executionError header err =
     (let reason = (case ef_exec err of None \<Rightarrow> ''execution error'' | Some e \<Rightarrow> execReason e);
          reason = reason @ (case ef_shown err of
                               Some msg \<Rightarrow> '': '' @ msg
                             | None \<Rightarrow> (case ef_limit err of Some msg \<Rightarrow> '': '' @ msg | None \<Rightarrow> '', '' @ withheld));
          message = (case execPlace header (ef_text err) of
                       None \<Rightarrow> reason | Some p \<Rightarrow> place_text p @ '': '' @ reason)
      in if ef_shown err = None \<and> ef_limit err \<noteq> None then ExecutionLimit message else Execution message)"

definition RenderToText :: "'t engine \<Rightarrow> 't tmpl \<Rightarrow> (string \<times> tdata) list \<Rightarrow> (tmpl_error, string) result" where
  "RenderToText eng tt model =
     (case plainCopy model of
        Inl e \<Rightarrow> Err (NotPlain e)
      | Inr data \<Rightarrow>
          (case en_Execute eng (tt_template tt) data of (ws, err) \<Rightarrow>
             (case write_all maxRenderedText '''' ws of
                None \<Rightarrow> Err RenderedTextTooLarge
              | Some text \<Rightarrow>
                  (case err of
                     Some e \<Rightarrow> Err (executionError (tt_header tt) e)
                   | None \<Rightarrow> Ok (remove_all ''<no value>'' text)))))"

text \<open>\<open>strings.TrimSpace\<close>: the white space of Unicode, by its UTF-8 bytes.\<close>

definition space_encodings :: "string list" where
  "space_encodings = map (map char_of) ([[9], [10], [11], [12], [13], [32], [0xC2, 0x85], [0xC2, 0xA0], [0xE1, 0x9A, 0x80],
     [0xE2, 0x80, 0xA8], [0xE2, 0x80, 0xA9], [0xE2, 0x80, 0xAF], [0xE2, 0x81, 0x9F], [0xE3, 0x80, 0x80]]
     @ map (\<lambda>i. [0xE2, 0x80, 0x80 + i]) [0..<11] :: nat list list)"

fun trim_left :: "string list \<Rightarrow> string \<Rightarrow> string" where
  "trim_left encs [] = []"
| "trim_left encs (c # cs) =
     (case find (\<lambda>e. e \<noteq> [] \<and> prefix e (c # cs)) encs of
        None \<Rightarrow> c # cs | Some e \<Rightarrow> trim_left encs (drop (length e - 1) cs))"

definition TrimSpace :: "string \<Rightarrow> string" where
  "TrimSpace s = rev (trim_left (map rev space_encodings) (rev (trim_left space_encodings s)))"

definition ParseBool :: "string \<Rightarrow> bool option" where
  "ParseBool s =
     (if s \<in> set [''1'', ''t'', ''T'', ''true'', ''TRUE'', ''True''] then Some True
      else if s \<in> set [''0'', ''f'', ''F'', ''false'', ''FALSE'', ''False''] then Some False else None)"

text \<open>\<open>yamlError\<close>, with the line of a syntax error of the parser.\<close>

definition yamlSyntaxError :: "string \<Rightarrow> string option" where
  "yamlSyntaxError msg =
     (let start = ''error converting YAML to JSON: yaml: line ''
      in if prefix start msg then map_option fst (number_then '': '' (drop (length start) msg)) else None)"

definition yamlError :: "'t engine \<Rightarrow> string \<Rightarrow> string \<Rightarrow> tmpl_error" where
  "yamlError eng txt problem =
     (case en_yamlAny eng txt of Inr _ \<Rightarrow> NotStructured problem | Inl e \<Rightarrow> NotYAML (yamlSyntaxError e))"

definition decodeYAML :: "'t engine \<Rightarrow> string \<Rightarrow> (string \<Rightarrow> (string, 'a) result) \<Rightarrow> string \<Rightarrow> (tmpl_error, 'a) result" where
  "decodeYAML eng txt unmarshal problem =
     (case CheckYAMLKeys (en_yamlV2 eng) txt of
        Inl YAMLKeysCollide \<Rightarrow> Err (YAMLKeys YAMLKeysCollide)
      | Inl YAMLKeyUnsupported \<Rightarrow> Err (YAMLKeys YAMLKeyUnsupported)
      | _ \<Rightarrow> (case unmarshal txt of Inl _ \<Rightarrow> Err (yamlError eng txt problem) | Inr v \<Rightarrow> Ok v))"

definition RenderToSingleLine :: "'t engine \<Rightarrow> 't tmpl \<Rightarrow> (string \<times> tdata) list \<Rightarrow> (tmpl_error, string) result" where
  "RenderToSingleLine eng tt model = rbind (RenderToText eng tt model) (\<lambda>txt. Ok (TrimSpace txt))"

definition RenderToMap :: "'t engine \<Rightarrow> 't tmpl \<Rightarrow> (string \<times> tdata) list \<Rightarrow> (tmpl_error, gmap) result" where
  "RenderToMap eng tt model =
     rbind (RenderToText eng tt model) (\<lambda>txt. decodeYAML eng txt (en_yamlMap eng) ''is not a YAML map'')"

definition RenderToStringList :: "'t engine \<Rightarrow> 't tmpl \<Rightarrow> (string \<times> tdata) list \<Rightarrow> (tmpl_error, string list) result" where
  "RenderToStringList eng tt model =
     rbind (RenderToText eng tt model) (\<lambda>txt. decodeYAML eng txt (en_yamlStrings eng) ''is not a YAML list of strings'')"

definition RenderInto ::
  "'t engine \<Rightarrow> 't tmpl \<Rightarrow> (string \<times> tdata) list \<Rightarrow> (string \<Rightarrow> (string, 'a) result) \<Rightarrow> (tmpl_error, 'a) result" where
  "RenderInto eng tt model unmarshalStrict =
     rbind (RenderToText eng tt model) (\<lambda>txt. decodeYAML eng txt unmarshalStrict ''does not have the expected structure'')"

definition RenderToBool :: "'t engine \<Rightarrow> 't tmpl \<Rightarrow> (string \<times> tdata) list \<Rightarrow> bool \<Rightarrow> (tmpl_error, bool) result" where
  "RenderToBool eng tt model def =
     rbind (RenderToText eng tt model) (\<lambda>txt.
       if TrimSpace txt = '''' then Ok def
       else (case ParseBool (TrimSpace txt) of None \<Rightarrow> Err NotBoolean | Some b \<Rightarrow> Ok b))"

definition RenderToDuration :: "'t engine \<Rightarrow> 't tmpl \<Rightarrow> (string \<times> tdata) list \<Rightarrow> (tmpl_error, int) result" where
  "RenderToDuration eng tt model =
     rbind (RenderToText eng tt model) (\<lambda>txt.
       case en_ParseDuration eng (TrimSpace txt) of None \<Rightarrow> Err NotDuration | Some d \<Rightarrow> Ok d)"

section \<open>Lemmas on places\<close>

text \<open>The line, from 1, and the offset in it, from 0, of the position \<open>p\<close> of a text.\<close>

definition line_at :: "string \<Rightarrow> nat \<Rightarrow> nat" where
  "line_at s p = Suc (count_list (take p s) newline)"

definition offset_at :: "string \<Rightarrow> nat \<Rightarrow> nat" where
  "offset_at s p = p - last_line_start (take p s)"

lemma last_line_start_le: "last_line_start s \<le> length s"
  by (simp add: last_line_start_def)

lemma last_line_start_append:
  "last_line_start (s @ t) = (if newline \<in> set t then length s + last_line_start t else last_line_start s)"
proof (cases "newline \<in> set t")
  case True
  then obtain x where "x \<in> set (rev t)" "\<not> x \<noteq> newline" by auto
  then have "takeWhile (\<lambda>c. c \<noteq> newline) (rev t @ rev s) = takeWhile (\<lambda>c. c \<noteq> newline) (rev t)"
    using takeWhile_append1 [of x "rev t" "\<lambda>c. c \<noteq> newline"] by blast
  moreover have "length (takeWhile (\<lambda>c. c \<noteq> newline) (rev t)) \<le> length t"
    using length_takeWhile_le [of "\<lambda>c. c \<noteq> newline" "rev t"] by simp
  ultimately show ?thesis using True by (simp add: last_line_start_def)
next
  case False
  then have "takeWhile (\<lambda>c. c \<noteq> newline) (rev t @ rev s) = rev t @ takeWhile (\<lambda>c. c \<noteq> newline) (rev s)"
    by (auto intro!: takeWhile_append2)
  then show ?thesis using False by (simp add: last_line_start_def)
qed

lemma last_line_start_end: "s = [] \<or> last s = newline \<Longrightarrow> last_line_start s = length s"
  by (cases s rule: rev_cases) (auto simp: last_line_start_def)

lemma headerLines_cases:
  obtains (shared) "headerLines header = (Suc (count_list header newline), True)" "header \<noteq> []" "last header \<noteq> newline"
  | (ended) "headerLines header = (count_list header newline, False)" "last_line_start header = length header"
  using last_line_start_end [of header]
  by (cases "header \<noteq> [] \<and> last header \<noteq> newline") (auto simp: headerLines_def)

lemma place_in_header:
  assumes "p < length header"
  shows "place_of header (int (line_at header p)) (int (offset_at header p))
    = HeaderAt (int (line_at header p)) (int (offset_at header p) + 1)"
proof -
  let ?d = "drop p header"
  have h: "header = take p header @ ?d" and ne: "?d \<noteq> []" using assms by simp_all
  have c: "Suc (count_list header newline) = line_at header p + count_list ?d newline"
    using h count_list_append unfolding line_at_def by (metis add_Suc)
  have o: "offset_at header p < length header - last_line_start header" if "newline \<notin> set ?d"
    using last_line_start_append [of "take p header" ?d] that assms last_line_start_le [of "take p header"]
    by (simp add: offset_at_def)
  have pos: "count_list ?d newline \<noteq> 0" if "newline \<in> set ?d" using that by (simp add: count_list_0_iff)
  have last: "newline \<in> set ?d" if "last header = newline"
    using that ne last_in_set [of ?d] assms by simp
  show ?thesis
  proof (cases header rule: headerLines_cases)
    case shared
    then show ?thesis using c o pos by (cases "newline \<in> set ?d") (simp_all add: place_of_def Let_def)
  next
    case ended
    have "newline \<in> set ?d" using ended o by fastforce
    then have "line_at header p \<le> count_list header newline" using c pos by fastforce
    then show ?thesis using ended by (simp add: place_of_def Let_def)
  qed
qed

lemma place_in_template:
  assumes "q \<le> length body"
  shows "place_of header (int (line_at (header @ body) (length header + q))) (int (offset_at (header @ body) (length header + q)))
    = TemplateAt (int (line_at body q)) (int (offset_at body q) + 1)"
proof -
  have l: "line_at (header @ body) (length header + q) = count_list header newline + line_at body q"
    by (simp add: line_at_def)
  have o: "offset_at (header @ body) (length header + q)
      = (if newline \<in> set (take q body) then offset_at body q else length header + q - last_line_start header)"
    by (simp add: offset_at_def last_line_start_append)
  have off: "offset_at body q = q" "line_at body q = 1" if "newline \<notin> set (take q body)"
    using that last_line_start_append [of "[]" "take q body"]
    by (simp_all add: offset_at_def line_at_def last_line_start_end count_list_0_iff)
  have pos: "1 < line_at body q" if "newline \<in> set (take q body)"
    using that count_list_0_iff [of "take q body" newline] by (auto simp: line_at_def)
  show ?thesis
    by (cases header rule: headerLines_cases; cases "newline \<in> set (take q body)")
      (use l o off pos last_line_start_le [of header] in \<open>simp_all add: place_of_def Let_def\<close>)
qed

section \<open>Lemmas on the copy of the data\<close>

text \<open>Plain data: no value of another Go type anywhere.\<close>

fun plain :: "tdata \<Rightarrow> bool" where
  "plain (DMap m) = (\<forall>p\<in>set m. plain (snd p))"
| "plain (DList l) = (\<forall>v\<in>set l. plain v)"
| "plain (DMaps l) = (\<forall>m\<in>set l. case m of None \<Rightarrow> True | Some m \<Rightarrow> \<forall>p\<in>set m. plain (snd p))"
| "plain (DOther _) = False"
| "plain _ = True"

lemma copy_plain:
  "(snd (copyValue path v) = [] \<longleftrightarrow> plain v) \<and> (plain v \<longrightarrow> fst (copyValue path v) = v)"
  "(snd (copyItems pre m) = [] \<longleftrightarrow> plain (DMap m)) \<and> (plain (DMap m) \<longrightarrow> fst (copyItems pre m) = m)"
  "(snd (copyList path i l) = [] \<longleftrightarrow> plain (DList l)) \<and> (plain (DList l) \<longrightarrow> fst (copyList path i l) = l)"
  "(snd (copyMaps path i ms) = [] \<longleftrightarrow> plain (DMaps ms)) \<and> (plain (DMaps ms) \<longrightarrow> fst (copyMaps path i ms) = ms)"
  by (induction path v and pre m and path i l and path i ms rule: copyValue_copyItems_copyList_copyMaps.induct)
    (auto simp: split_beta prod_eq_iff)

section \<open>Lemmas on the keys of YAML maps\<close>

text \<open>A map somewhere in the document has two entries whose keys give the same string; a key gives none.\<close>

fun colliding :: "yval \<Rightarrow> bool" where
  "colliding (YMap n) \<longleftrightarrow> \<not> distinct (filter (\<lambda>s. s \<noteq> None) (map (jsonKey \<circ> fst) n)) \<or> (\<exists>p\<in>set n. colliding (snd p))"
| "colliding (YList n) \<longleftrightarrow> (\<exists>v\<in>set n. colliding v)"
| "colliding (YScalar _) \<longleftrightarrow> False"

fun unsupported :: "yval \<Rightarrow> bool" where
  "unsupported (YMap n) \<longleftrightarrow> (\<exists>p\<in>set n. jsonKey (fst p) = None \<or> unsupported (snd p))"
| "unsupported (YList n) \<longleftrightarrow> (\<exists>v\<in>set n. unsupported v)"
| "unsupported (YScalar _) \<longleftrightarrow> False"

lemma colliding_Cons:
  "colliding (YMap ((key, val) # n)) \<longleftrightarrow>
     colliding val \<or> colliding (YMap n) \<or> (\<exists>s. jsonKey key = Some s \<and> (\<exists>p\<in>set n. jsonKey (fst p) = Some s))"
proof (cases "jsonKey key")
  case (Some s)
  then have "jsonKey key \<in> set (filter (\<lambda>s. s \<noteq> None) (map (jsonKey \<circ> fst) n)) \<longleftrightarrow> (\<exists>p\<in>set n. jsonKey (fst p) = Some s)"
    by force
  then show ?thesis using Some by auto
qed auto

lemma collide_iff:
  "(fst (collide u v) \<longleftrightarrow> colliding v) \<and> (\<not> colliding v \<longrightarrow> snd (collide u v) = (u \<or> unsupported v))"
  "(fst (collideMap u seen n) \<longleftrightarrow> colliding (YMap n) \<or> (\<exists>p\<in>set n. \<exists>s\<in>set seen. jsonKey (fst p) = Some s))
   \<and> (\<not> fst (collideMap u seen n) \<longrightarrow> snd (collideMap u seen n) = (u \<or> unsupported (YMap n)))"
  "(fst (collideList u l) \<longleftrightarrow> colliding (YList l)) \<and> (\<not> colliding (YList l) \<longrightarrow> snd (collideList u l) = (u \<or> unsupported (YList l)))"
proof (induction u v and u seen n and u l rule: collide_collideMap_collideList.induct)
  case (5 u seen key val n)
  let ?dup = "case jsonKey key of None \<Rightarrow> False | Some s \<Rightarrow> s \<in> set seen"
  let ?r = "collide (u \<or> jsonKey key = None) val"
  let ?seen = "case jsonKey key of None \<Rightarrow> seen | Some s \<Rightarrow> s # seen"
  consider (dup) "?dup" | (deep) "\<not> ?dup" "colliding val" | (next_key) "\<not> ?dup" "\<not> colliding val" by blast
  then show ?case
  proof cases
    case dup
    then show ?thesis by (auto split: option.splits)
  next
    case deep
    then have "fst ?r" using 5(1) by blast
    then have "fst (collideMap u seen ((key, val) # n))" using deep(1) by (auto split: prod.splits bool.splits)
    then show ?thesis using deep(2) by auto
  next
    case next_key
    then have "?r = (False, u \<or> jsonKey key = None \<or> unsupported val)" using 5(1) by (auto simp: prod_eq_iff)
    then have "collideMap u seen ((key, val) # n) = collideMap (u \<or> jsonKey key = None \<or> unsupported val) ?seen n"
        "(fst (collideMap (u \<or> jsonKey key = None \<or> unsupported val) ?seen n) \<longleftrightarrow>
            colliding (YMap n) \<or> (\<exists>p\<in>set n. \<exists>s\<in>set ?seen. jsonKey (fst p) = Some s))
         \<and> (\<not> fst (collideMap (u \<or> jsonKey key = None \<or> unsupported val) ?seen n) \<longrightarrow>
            snd (collideMap (u \<or> jsonKey key = None \<or> unsupported val) ?seen n)
              = ((u \<or> jsonKey key = None \<or> unsupported val) \<or> unsupported (YMap n)))"
      using next_key 5(2) [OF next_key(1), of False "u \<or> jsonKey key = None \<or> unsupported val"] by simp_all
    then show ?thesis
      using next_key by (simp only: colliding_Cons) (cases "jsonKey key", auto simp del: collideMap.simps colliding.simps)
  qed
qed (auto split: prod.splits bool.splits)

section \<open>Lemmas on the rendered text\<close>

lemma write_all_iff:
  "int (length body) \<le> limit \<Longrightarrow>
     write_all limit body ws = (if int (length body + length (concat ws)) \<le> limit then Some (body @ concat ws) else None)"
proof (induction ws arbitrary: body)
  case (Cons p ws)
  then show ?case using Cons.IH [of "body @ p"] by (auto simp: Write_def)
qed simp

lemma length_remove_all: "length (remove_all old s) \<le> length s"
proof (induction old s rule: remove_all.induct)
  case (1 old s)
  show ?case
  proof (cases s)
    case Nil
    then show ?thesis by (simp add: remove_all.simps)
  next
    case (Cons c cs)
    then show ?thesis using 1 by (subst remove_all.simps) (auto intro: le_trans)
  qed
qed

lemma number_then_digits:
  assumes "sep \<noteq> []" "\<not> is_digit (hd sep)"
  shows "number_then sep (nat_digits n @ sep @ rest) = Some (nat_digits n, rest)"
proof -
  have all: "x \<in> set (nat_digits n) \<Longrightarrow> is_digit x" for x using nat_digits_all by (auto simp: list_all_iff)
  have stop: "takeWhile is_digit (sep @ rest) = []" "dropWhile is_digit (sep @ rest) = sep @ rest"
    using assms by (cases sep; simp)+
  have "span_digits (nat_digits n @ sep @ rest) = (nat_digits n, sep @ rest)"
    using takeWhile_append2 [of "nat_digits n" is_digit "sep @ rest"] dropWhile_append2 [of "nat_digits n" is_digit "sep @ rest"]
      all stop by (simp add: span_digits_def)
  then show ?thesis by (simp add: number_then_def)
qed

lemma after_template_name: "CHR '':'' \<notin> set name \<Longrightarrow> after_template (''template: '' @ name @ '':'' @ rest) = Some rest"
proof -
  assume a: "CHR '':'' \<notin> set name"
  have "dropWhile (\<lambda>c. c \<noteq> CHR '':'') (name @ CHR '':'' # rest) = CHR '':'' # rest"
    using a by (induction name) auto
  then show ?thesis by (simp add: after_template_def)
qed

lemma atoi_or_max_digits: "n < 2 ^ 63 \<Longrightarrow> atoi_or_max (nat_digits n) = int n"
  by (simp add: atoi_or_max_def)

lemma execErrorStart_text:
  assumes "CHR '':'' \<notin> set name" "line < 2 ^ 63" "off < 2 ^ 63"
  shows "execErrorStart (''template: '' @ name @ '':'' @ nat_digits line @ '':'' @ nat_digits off @ '': '' @ msg) = Some (int line, int off)"
  using after_template_name [OF assms(1), of "nat_digits line @ '':'' @ nat_digits off @ '': '' @ msg"]
    number_then_digits [of "'':''" line "nat_digits off @ '': '' @ msg"] number_then_digits [of "'': ''" off msg]
    atoi_or_max_digits assms
  by (simp add: execErrorStart_def is_digit_iff del: append.simps)

lemma position_bounds: "p \<le> length s \<Longrightarrow> line_at s p \<le> Suc (length s) \<and> offset_at s p \<le> length s"
  using count_le_length [of "take p s" newline] by (simp add: line_at_def offset_at_def)

section \<open>Properties\<close>

text \<open>The place reported for an execution error is the place of the failing action. The template is executed on
  the header followed by its text; for an error at any position of that, named by \<open>text/template\<close> as line and offset, the
  report names the line and the column in the header when the position lies there, and otherwise those in the
  template itself, also when the header has no final newline and the template starts on its last line.\<close>

theorem execPlace_correct:
  assumes "p \<le> length (header @ body)" "length (header @ body) < 2 ^ 62" "CHR '':'' \<notin> set name"
  shows "execPlace header (''template: '' @ name @ '':'' @ nat_digits (line_at (header @ body) p) @ '':''
           @ nat_digits (offset_at (header @ body) p) @ '': '' @ msg)
    = Some (if p < length header
            then HeaderAt (int (line_at header p)) (int (offset_at header p) + 1)
            else TemplateAt (int (line_at body (p - length header))) (int (offset_at body (p - length header)) + 1))"
proof -
  have b: "line_at (header @ body) p < 2 ^ 63" "offset_at (header @ body) p < 2 ^ 63"
    using position_bounds [OF assms(1)] assms(2) by simp_all
  have "place_of header (int (line_at (header @ body) p)) (int (offset_at (header @ body) p))
      = (if p < length header then HeaderAt (int (line_at header p)) (int (offset_at header p) + 1)
         else TemplateAt (int (line_at body (p - length header))) (int (offset_at body (p - length header)) + 1))"
  proof (cases "p < length header")
    case True
    then show ?thesis using place_in_header [OF True] by (simp add: line_at_def offset_at_def)
  next
    case False
    then show ?thesis using place_in_template [of "p - length header" body header] assms(1) by simp
  qed
  then show ?thesis unfolding execPlace_def execErrorStart_text [OF assms(3) b] by simp
qed

text \<open>C30: rendering is bounded and exact. A template renders to text of at most 4 MiB; it is what the execution wrote, the
  texts "<no value>" removed; and an execution that writes more is refused as too large.\<close>

theorem RenderToText_bounded:
  assumes "plainCopy model = Ok data" "en_Execute eng (tt_template tt) data = (ws, None)"
  shows "RenderToText eng tt model
     = (if int (length (concat ws)) \<le> 4 * 2 ^ 20 then Ok (remove_all ''<no value>'' (concat ws)) else Err RenderedTextTooLarge)
   \<and> (\<forall>body. RenderToText eng tt model = Ok body \<longrightarrow> int (length body) \<le> 4 * 2 ^ 20)"
proof -
  have e: "RenderToText eng tt model
     = (if int (length (concat ws)) \<le> 4 * 2 ^ 20 then Ok (remove_all ''<no value>'' (concat ws)) else Err RenderedTextTooLarge)"
    using assms write_all_iff [of "''''" maxRenderedText ws] by (simp add: RenderToText_def maxRenderedText_def)
  have "int (length (remove_all ''<no value>'' (concat ws))) \<le> int (length (concat ws))"
    using length_remove_all by simp
  then show ?thesis unfolding e by (auto split: if_splits)
qed

text \<open>A template is only executed on plain data. The copy succeeds exactly when no value of another Go type, whose
  methods a template could call, is anywhere in the model, and then it equals the model.\<close>

theorem plainCopy_correct:
  "plainCopy model = (if plain (DMap model) then Ok model
     else Err (''the template data is not plain data: '' @ hd (sort (snd (copyItems '''' model)))))"
  using copy_plain(2) [of "''''" model] by (auto simp: plainCopy_def split: prod.splits)

text \<open>C31: the check of the keys of a YAML document. It reports a collision exactly when two keys of one map give the same
  string, and otherwise an unsupported key exactly when a key gives none; so the answer depends on no iteration order.\<close>

theorem CheckYAMLKeys_correct:
  "unmarshalV2 doc = Ok typed \<Longrightarrow>
     CheckYAMLKeys unmarshalV2 doc
       = (if colliding typed then Err YAMLKeysCollide else if unsupported typed then Err YAMLKeyUnsupported else Ok ())"
  using collide_iff(1) [of False typed]
  by (cases "collide False typed"; cases "fst (collide False typed)") (auto simp: CheckYAMLKeys_def)

section \<open>Witnesses\<close>

text \<open>An engine whose template is its own text, and which decodes nothing.\<close>

definition sample_engine :: "string engine" where
  "sample_engine = \<lparr>en_Parse = Ok, en_Execute = (\<lambda>t _. ([t], None)), en_yamlV2 = (\<lambda>s. Ok (YScalar s)), en_yamlAny = (\<lambda>_. Ok ()),
     en_yamlMap = (\<lambda>_. Ok []), en_yamlStrings = (\<lambda>_. Ok []), en_ParseDuration = (\<lambda>_. Some 0), en_Any2Yaml = (\<lambda>_. '''')\<rparr>"

theorem execPlace_correct_witness:
  "execPlace ''ab'' (''template: '' @ '''' @ '':'' @ nat_digits (line_at (''ab'' @ ''cd'') 3) @ '':''
      @ nat_digits (offset_at (''ab'' @ ''cd'') 3) @ '': '' @ ''x'')
   = Some (if (3::nat) < length ''ab'' then HeaderAt (int (line_at ''ab'' 3)) (int (offset_at ''ab'' 3) + 1)
           else TemplateAt (int (line_at ''cd'' (3 - length ''ab''))) (int (offset_at ''cd'' (3 - length ''ab'')) + 1))"
  by (rule execPlace_correct) simp_all

theorem RenderToText_bounded_witness:
  "RenderToText sample_engine \<lparr>tt_template = ''a<no value>b'', tt_header = ''''\<rparr> [] = Ok (remove_all ''<no value>'' ''a<no value>b'')"
  using RenderToText_bounded [of "[]" "[]" sample_engine "\<lparr>tt_template = ''a<no value>b'', tt_header = ''''\<rparr>" "[''a<no value>b'']"]
  by (simp add: plainCopy_def sample_engine_def)

theorem CheckYAMLKeys_correct_witness:
  "CheckYAMLKeys (\<lambda>_. Ok (YMap [(YInt 1, YScalar ''x''), (YStr ''1'', YScalar ''y'')])) ''doc'' = Err YAMLKeysCollide"
proof -
  have "colliding (YMap [(YInt 1, YScalar ''x''), (YStr ''1'', YScalar ''y'')])"
    by (simp add: Itoa_def nat_digits.simps digit_char_def, code_simp)
  then show ?thesis
    using CheckYAMLKeys_correct [of "\<lambda>_. Ok (YMap [(YInt 1, YScalar ''x''), (YStr ''1'', YScalar ''y'')])" "''doc''"
      "YMap [(YInt 1, YScalar ''x''), (YStr ''1'', YScalar ''y'')]"] by simp
qed

end
