(* ===== verification/Package.thy ===== *)
theory Package
  imports Tmpl Schema ConfigStore
begin

text \<open>
  \<open>internal/kubopackage\<close>: a package and its modules as their file declares them, the validation that sets their defaults and
  parses their templates (\<open>Groom\<close>), the rendering of a package for a Release (\<open>Render\<close>, \<open>RenderInputs\<close>), the container that
  the cache holds (\<open>PckContainer\<close>) and the report of a failed validation (\<open>validation.go\<close>).

  A decoded list of pointers is a list of options: \<open>null\<close> decodes to a nil pointer. \<open>NilPointer\<close> is the panic of the code
  that reads a field of one.
\<close>

section \<open>Durations\<close>

text \<open>\<open>time.Duration.String\<close>: the fraction of \<open>v\<close> in units of \<open>10 ^ prec\<close>, without its trailing zeros.\<close>

definition pad_zeros :: "nat \<Rightarrow> string \<Rightarrow> string" where
  "pad_zeros n s = replicate (n - length s) (CHR ''0'') @ s"

definition fmtFrac :: "nat \<Rightarrow> nat \<Rightarrow> string" where
  "fmtFrac v prec =
     (let ds = rev (dropWhile (\<lambda>c. c = CHR ''0'') (rev (pad_zeros prec (nat_digits (v mod 10 ^ prec)))))
      in if v mod 10 ^ prec = 0 then '''' else CHR ''.'' # ds)"

definition Duration_String :: "int \<Rightarrow> string" where
  "Duration_String d =
     (let u = nat \<bar>d\<bar>;
          body = (if u = 0 then ''0s''
                  else if u < 1000 then nat_digits u @ ''ns''
                  else if u < 1000000 then nat_digits (u div 1000) @ fmtFrac u 3 @ [CHR 0xC2, CHR 0xB5, CHR ''s'']
                  else if u < 1000000000 then nat_digits (u div 1000000) @ fmtFrac u 6 @ ''ms''
                  else let s = u div 1000000000
                       in (if s div 3600 > 0 then nat_digits (s div 3600) @ ''h'' else '''')
                          @ (if s div 60 > 0 then nat_digits (s div 60 mod 60) @ ''m'' else '''')
                          @ nat_digits (s mod 60) @ fmtFrac u 9 @ ''s'')
      in if d < 0 then CHR ''-'' # body else body)"

section \<open>Modules\<close>

record HelmRepositorySource =
  hr_Url :: string
  hr_Chart :: string
  hr_Version :: string

record OciSource =
  oci_Repository :: string
  oci_Tag :: string
  oci_Insecure :: bool

record GitSource =
  git_Url :: string
  git_Branch :: string
  git_Tag :: string
  git_Path :: string
  git_ExtraFilePrefixes :: "string list"

record ModuleSource =
  src_HelmRepository :: "HelmRepositorySource option"
  src_Oci :: "OciSource option"
  src_Git :: "GitSource option"
  src_Local :: "string option"

record 't moduleTemplates =
  mt_parameters :: "'t tmpl"
  mt_values :: "'t tmpl"
  mt_specPatch :: "'t tmpl"
  mt_targetNamespace :: "'t tmpl"
  mt_enabled :: "'t tmpl"
  mt_dependsOn :: "'t tmpl"
  mt_timeout :: "'t tmpl"
  mt_interval :: "'t tmpl"
  mt_onFailureStrategy :: "'t tmpl"

record 't Module =
  md_Name :: string
  md_Type :: string
  md_Source :: ModuleSource
  md_Parameters :: gval
  md_Values :: gval
  md_SpecPatch :: gval
  md_OnFailureStrategy :: string
  md_Timeout :: string
  md_Interval :: string
  md_TargetNamespace :: string
  md_Enabled :: string
  md_DependsOn :: gval
  md_templates :: "'t moduleTemplates option"

record ModuleRendered =
  mr_Parameters :: gmap
  mr_Values :: gmap
  mr_SpecPatch :: gmap
  mr_TargetNamespace :: string
  mr_Enabled :: bool
  mr_DependsOn :: "string list"
  mr_Timeout :: Duration
  mr_Interval :: Duration
  mr_OnFailureStrategy :: string

datatype module_error =
    InvalidModuleType string
  | NotOneSource
  | HelmRepositoryIncomplete
  | OciIncomplete
  | GitNoUrl
  | GitNoPath
  | GitBranchOrTag
  | ValuesInPackage
  | ParametersInHelmChart
  | ParseTemplate string tmpl_error
  | RenderTemplate string tmpl_error
  | NilPointer

definition HelmChartType :: string where "HelmChartType = ''HelmChart''"
definition PackageType :: string where "PackageType = ''Package''"
definition PackageApiVersion :: string where "PackageApiVersion = ''v1alpha1''"

text \<open>\<open>misc.CountNonZero\<close> on pointers and on strings.\<close>

abbreviation nonNils :: "bool list \<Rightarrow> nat" where
  "nonNils bs \<equiv> length (filter (\<lambda>b. b) bs)"

abbreviation nonEmpties :: "string list \<Rightarrow> nat" where
  "nonEmpties ss \<equiv> CountNonZero (map GStr ss)"

definition parseTemplates :: "'t engine \<Rightarrow> 't Module \<Rightarrow> string \<Rightarrow> (module_error, 't Module) result" where
  "parseTemplates eng m header =
     rbind (wrap_err (ParseTemplate ''parameters'') (NewFromAny eng (md_Parameters m) header)) (\<lambda>parameters.
     rbind (wrap_err (ParseTemplate ''values'') (NewFromAny eng (md_Values m) header)) (\<lambda>vals.
     rbind (wrap_err (ParseTemplate ''specPatch'') (NewFromAny eng (md_SpecPatch m) header)) (\<lambda>specPatch.
     rbind (wrap_err (ParseTemplate ''timeout'') (New_tmpl eng (md_Timeout m) header)) (\<lambda>timeout.
     rbind (wrap_err (ParseTemplate ''interval'') (New_tmpl eng (md_Interval m) header)) (\<lambda>interval.
     rbind (wrap_err (ParseTemplate ''targetNamespace'') (New_tmpl eng (md_TargetNamespace m) header)) (\<lambda>targetNamespace.
     rbind (wrap_err (ParseTemplate ''enabled'') (New_tmpl eng (md_Enabled m) header)) (\<lambda>enabled.
     rbind (wrap_err (ParseTemplate ''dependsOn'') (NewFromAny eng (md_DependsOn m) header)) (\<lambda>dependsOn.
     rbind (wrap_err (ParseTemplate ''onFailureStrategy'') (New_tmpl eng (md_OnFailureStrategy m) header)) (\<lambda>onFailureStrategy.
       Ok (m\<lparr>md_templates := Some \<lparr>mt_parameters = parameters, mt_values = vals, mt_specPatch = specPatch,
                mt_targetNamespace = targetNamespace, mt_enabled = enabled, mt_dependsOn = dependsOn, mt_timeout = timeout,
                mt_interval = interval, mt_onFailureStrategy = onFailureStrategy\<rparr>\<rparr>))))))))))"

text \<open>The defaults that \<open>groom\<close> sets before it checks the sources. The store is absent when a package is built.\<close>

definition moduleDefaults :: "nat \<Rightarrow> configuration option \<Rightarrow> 't Module \<Rightarrow> 't Module" where
  "moduleDefaults idx store m = m\<lparr>
     md_Name := (if md_Name m = '''' then ''module'' @ pad_zeros 2 (nat_digits idx) else md_Name m),
     md_Type := (if md_Type m = '''' then HelmChartType else md_Type m),
     md_TargetNamespace := (if md_TargetNamespace m = '''' then ''{{.Release.spec.targetNamespace}}'' else md_TargetNamespace m),
     md_Timeout := (if md_Timeout m = '''' then (case store of None \<Rightarrow> ''2m0s'' | Some cfg \<Rightarrow> Duration_String (defaultHelmTimeout cfg))
                    else md_Timeout m),
     md_Interval := (if md_Interval m = '''' then (case store of None \<Rightarrow> ''30m0s'' | Some cfg \<Rightarrow> Duration_String (defaultHelmInterval cfg))
                     else md_Interval m),
     md_DependsOn := (if md_DependsOn m = GNil then GStrs [] else md_DependsOn m)\<rparr>"

definition checkSource :: "ModuleSource \<Rightarrow> (module_error, unit) result" where
  "checkSource s =
     (if nonNils [src_HelmRepository s \<noteq> None, src_Oci s \<noteq> None, src_Git s \<noteq> None, src_Local s \<noteq> None] \<noteq> 1 then Err NotOneSource
      else if (case src_HelmRepository s of None \<Rightarrow> False | Some h \<Rightarrow> nonEmpties [hr_Url h, hr_Chart h, hr_Version h] \<noteq> 3)
      then Err HelmRepositoryIncomplete
      else if (case src_Oci s of None \<Rightarrow> False | Some c \<Rightarrow> nonEmpties [oci_Repository c, oci_Tag c] \<noteq> 2) then Err OciIncomplete
      else (case src_Git s of
              None \<Rightarrow> Ok ()
            | Some g \<Rightarrow>
                if git_Url g = '''' then Err GitNoUrl
                else if git_Path g = '''' then Err GitNoPath
                else if nonEmpties [git_Branch g, git_Tag g] \<noteq> 1 then Err GitBranchOrTag else Ok ()))"

definition module_groom ::
  "'t engine \<Rightarrow> string \<Rightarrow> nat \<Rightarrow> configuration option \<Rightarrow> 't Module \<Rightarrow> (module_error, 't Module) result" where
  "module_groom eng header idx store m0 =
     (let m = moduleDefaults idx store m0
      in if md_Type m \<noteq> HelmChartType \<and> md_Type m \<noteq> PackageType then Err (InvalidModuleType (md_Type m))
         else rbind (checkSource (md_Source m)) (\<lambda>_.
              if md_Type m = PackageType \<and> \<not> IsZero (md_Values m) then Err ValuesInPackage
              else if md_Type m = HelmChartType \<and> \<not> IsZero (md_Parameters m) then Err ParametersInHelmChart
              else parseTemplates eng m header))"

definition createNamespacePatch :: gmap where
  "createNamespacePatch = [(''install'', GMap [(''createNamespace'', GBool True)])]"

text \<open>\<open>model["Release"].(map)["spec"].(map)["createNamespace"].(bool)\<close>: \<open>None\<close> when an assertion fails, which panics.\<close>

definition createNamespaceOf :: "(string \<times> tdata) list \<Rightarrow> bool option" where
  "createNamespaceOf model =
     (case map_of model ''Release'' of
        Some (DMap release) \<Rightarrow>
          (case map_of release ''spec'' of
             Some (DMap spec) \<Rightarrow> (case map_of spec ''createNamespace'' of Some (DScalar (GBool b)) \<Rightarrow> Some b | _ \<Rightarrow> None)
           | _ \<Rightarrow> None)
      | _ \<Rightarrow> None)"

definition module_Render ::
  "'t engine \<Rightarrow> 't Module \<Rightarrow> (string \<times> tdata) list \<Rightarrow> (module_error, ModuleRendered) result" where
  "module_Render eng m model =
     (case md_templates m of
        None \<Rightarrow> Err NilPointer
      | Some t \<Rightarrow>
          rbind (wrap_err (RenderTemplate ''parameters'') (RenderToMap eng (mt_parameters t) model)) (\<lambda>parameters.
          rbind (wrap_err (RenderTemplate ''values'') (RenderToMap eng (mt_values t) model)) (\<lambda>vals.
          rbind (wrap_err (RenderTemplate ''specPatch'') (RenderToMap eng (mt_specPatch t) model)) (\<lambda>specPatch.
          rbind (wrap_err (RenderTemplate ''timeout'') (RenderToDuration eng (mt_timeout t) model)) (\<lambda>timeout.
          rbind (wrap_err (RenderTemplate ''interval'') (RenderToDuration eng (mt_interval t) model)) (\<lambda>interval.
          rbind (wrap_err (RenderTemplate ''targetNamespace'') (RenderToSingleLine eng (mt_targetNamespace t) model)) (\<lambda>targetNamespace.
          rbind (wrap_err (RenderTemplate ''enabled'') (RenderToBool eng (mt_enabled t) model True)) (\<lambda>enabled.
          rbind (wrap_err (RenderTemplate ''dependsOn'') (RenderToStringList eng (mt_dependsOn t) model)) (\<lambda>dependsOn.
          case createNamespaceOf model of
            None \<Rightarrow> Err NilPointer
          | Some create \<Rightarrow>
              rbind (wrap_err (RenderTemplate ''onFailureStrategy'') (RenderToSingleLine eng (mt_onFailureStrategy t) model)) (\<lambda>strategy.
                Ok \<lparr>mr_Parameters = parameters, mr_Values = Prune vals,
                    mr_SpecPatch = Prune (if create then MergeMaps specPatch createNamespacePatch else specPatch),
                    mr_TargetNamespace = targetNamespace, mr_Enabled = enabled, mr_DependsOn = dependsOn,
                    mr_Timeout = timeout, mr_Interval = interval, mr_OnFailureStrategy = strategy\<rparr>))))))))))"

section \<open>Packages\<close>

record PackageSchema =
  sc_Parameters :: "gmap option"
  sc_Context :: "gmap option"

record 't packageTemplates =
  pt_usage :: "(string \<times> 't tmpl) list"
  pt_roles :: "'t tmpl"
  pt_dependencies :: "'t tmpl"
  pt_description :: "'t tmpl"
  pt_outputs :: "'t tmpl"
  pt_inputs :: "'t tmpl"
  pt_conditions :: "'t tmpl"

record 't Package =
  pk_ApiVersion :: string
  pk_Type :: string
  pk_Name :: string
  pk_Tag :: string
  pk_Description :: string
  pk_Usage :: "(string \<times> string) list"
  pk_Protected :: bool
  pk_Schema :: "PackageSchema option"
  pk_Modules :: "'t Module option list"
  pk_Roles :: gval
  pk_Dependencies :: gval
  pk_TemplateHeader :: string
  pk_Inputs :: gval
  pk_Conditions :: gval
  pk_Outputs :: gval
  pk_templates :: "'t packageTemplates option"

record ChartRef =
  ch_Name :: string
  ch_Version :: string

record PackageStatus =
  pst_ApiVersion :: string
  pst_ChartByModule :: "(string \<times> ChartRef) list"

datatype package_error =
    InvalidApiVersion string
  | InvalidPackageType
  | NameAndTag
  | InvalidPackageName
  | SchemaParameters schema_error
  | SchemaContext schema_error
  | NoModule
  | ModuleFailed string module_error
  | DuplicateModule string
  | PackageTemplate string tmpl_error
  | PackageRender string tmpl_error
  | UnknownDependency string nat
  | OutputNoContract nat
  | OutputKind nat
  | OutputDuplicate nat
  | ConditionPolicy nat
  | ConditionNoName nat
  | InputNoContract nat
  | InputKind nat
  | InputNamespaceForCluster nat
  | InputTwoNames nat
  | InputTwoNamespaces nat
  | NilItem nat

definition noParamSchema :: gmap where
  "noParamSchema = [(''$schema'', GStr ''http://json-schema.org/draft-04/schema#''), (''type'', GStr ''object''),
     (''properties'', GMap []), (''required'', GStrs []), (''additionalProperties'', GBool False)]"

text \<open>The schemas that \<open>Groom\<close> leaves: the converted ones, and one that admits no parameter when there is none.\<close>

definition groomSchema :: "PackageSchema option \<Rightarrow> (package_error, PackageSchema) result" where
  "groomSchema schema =
     (let s = (case schema of None \<Rightarrow> \<lparr>sc_Parameters = None, sc_Context = None\<rparr> | Some s \<Rightarrow> s)
      in rbind (case sc_Parameters s of
                  None \<Rightarrow> Ok (Some noParamSchema)
                | Some p \<Rightarrow> wrap_err SchemaParameters (Kubo2openAPI (Some p) False)) (\<lambda>parameters.
         rbind (case sc_Context s of
                  None \<Rightarrow> Ok None
                | Some c \<Rightarrow> wrap_err SchemaContext (Kubo2openAPI (Some c) True)) (\<lambda>context.
           Ok \<lparr>sc_Parameters = parameters, sc_Context = context\<rparr>)))"

text \<open>The loop over the modules: the module at \<open>idx\<close>, its name not seen before.\<close>

definition groomModule ::
  "'t engine \<Rightarrow> string \<Rightarrow> configuration option \<Rightarrow> 't Module list \<Rightarrow> nat \<times> 't Module option \<Rightarrow> (package_error, 't Module list) result" where
  "groomModule eng header store groomed = (\<lambda>(idx, module).
     (case module of
        None \<Rightarrow> Err (NilItem idx)
      | Some m \<Rightarrow>
          rbind (wrap_err (ModuleFailed (md_Name (moduleDefaults idx store m))) (module_groom eng header idx store m)) (\<lambda>m'.
            if md_Name m' \<in> md_Name ` set groomed then Err (DuplicateModule (md_Name m')) else Ok (groomed @ [m']))))"

definition groomModules ::
  "'t engine \<Rightarrow> string \<Rightarrow> configuration option \<Rightarrow> 't Module option list \<Rightarrow> (package_error, 't Module list) result" where
  "groomModules eng header store modules = rfold (groomModule eng header store) [] (enumerate 0 modules)"

definition packageTemplatesOf :: "'t engine \<Rightarrow> 't Package \<Rightarrow> (package_error, 't packageTemplates) result" where
  "packageTemplatesOf eng pck =
     (let header = pk_TemplateHeader pck
      in rbind (wrap_err (PackageTemplate ''description'') (New_tmpl eng (pk_Description pck) header)) (\<lambda>description.
         rbind (wrap_err (PackageTemplate ''roles'') (NewFromAny eng (pk_Roles pck) header)) (\<lambda>roles.
         rbind (wrap_err (PackageTemplate ''dependencies'') (NewFromAny eng (pk_Dependencies pck) header)) (\<lambda>dependencies.
         rbind (rmap (\<lambda>key. rbind (wrap_err (PackageTemplate (''usage['' @ key @ '']''))
                               (New_tmpl eng (case map_of (pk_Usage pck) key of None \<Rightarrow> '''' | Some u \<Rightarrow> u) header)) (\<lambda>t. Ok (key, t)))
                 (sort (keys (pk_Usage pck)))) (\<lambda>usage.
         rbind (wrap_err (PackageTemplate ''inputs'') (NewFromAny eng (pk_Inputs pck) header)) (\<lambda>inputs.
         rbind (wrap_err (PackageTemplate ''outputs'') (NewFromAny eng (pk_Outputs pck) header)) (\<lambda>outputs.
         rbind (wrap_err (PackageTemplate ''conditions'') (NewFromAny eng (pk_Conditions pck) header)) (\<lambda>conditions.
           Ok \<lparr>pt_usage = usage, pt_roles = roles, pt_dependencies = dependencies, pt_description = description,
               pt_outputs = outputs, pt_inputs = inputs, pt_conditions = conditions\<rparr>))))))))"

definition Groom :: "'t engine \<Rightarrow> configuration option \<Rightarrow> 't Package \<Rightarrow> (package_error, 't Package) result" where
  "Groom eng store pck0 =
     (let pck = pck0\<lparr>pk_Roles := (if pk_Roles pck0 = GNil then GStrs [] else pk_Roles pck0),
                     pk_Dependencies := (if pk_Dependencies pck0 = GNil then GStrs [] else pk_Dependencies pck0),
                     pk_Type := (if pk_Type pck0 = '''' then PackageType else pk_Type pck0)\<rparr>
      in if pk_ApiVersion pck \<noteq> PackageApiVersion then Err (InvalidApiVersion (pk_ApiVersion pck))
         else if pk_Type pck \<noteq> PackageType then Err InvalidPackageType
         else if nonEmpties [pk_Name pck, pk_Tag pck] \<noteq> 2 then Err NameAndTag
         else if \<not> ValidateK8sName (pk_Name pck) then Err InvalidPackageName
         else rbind (groomSchema (pk_Schema pck)) (\<lambda>schema.
              if pk_Modules pck = [] then Err NoModule
              else rbind (groomModules eng (pk_TemplateHeader pck) store (pk_Modules pck)) (\<lambda>modules.
                   rbind (packageTemplatesOf eng pck) (\<lambda>templates.
                     Ok (pck\<lparr>pk_Schema := Some schema, pk_Modules := map Some modules, pk_templates := Some templates\<rparr>)))))"

section \<open>Rendered packages\<close>

record OutputRendered =
  ro_Name :: string
  ro_Contract :: string
  ro_Kind :: string
  ro_DisplayName :: string
  ro_Priority :: int
  ro_Description :: string
  ro_Values :: gmap

record InputRendered =
  in_Contract :: string
  in_Kind :: string
  in_ConnectionName :: string
  in_ConnectionNamespace :: string
  in_ReleaseName :: string
  in_ReleaseNamespace :: string
  in_ReleaseOutput :: string
  in_Alias :: string
  in_Optional :: bool
  in_AllowMultiple :: bool
  in_contractLookupNamespace :: string

record ConditionRendered =
  co_Group :: string
  co_Kind :: string
  co_Name :: string
  co_Namespace :: string
  co_Cel :: string

record Rendered =
  re_Usage :: "(string \<times> string) list"
  re_Roles :: "string list"
  re_Dependencies :: "string list"
  re_ModuleRenderedByName :: "(string \<times> ModuleRendered) list"
  re_Description :: string
  re_Inputs :: "InputRendered list"
  re_Conditions :: "ConditionRendered list"
  re_Outputs :: "OutputRendered list"

definition connectionKinds :: "string list" where
  "connectionKinds = [''Connection'', ''ClusterConnection'']"

definition adjustOutput :: "nat \<times> OutputRendered option \<Rightarrow> (package_error, OutputRendered) result" where
  "adjustOutput = (\<lambda>(idx, output).
     (case output of
        None \<Rightarrow> Err (NilItem idx)
      | Some o1 \<Rightarrow>
          if ro_Contract o1 = '''' then Err (OutputNoContract idx)
          else let o2 = o1\<lparr>ro_Name := (if ro_Name o1 = '''' then ro_Contract o1 else ro_Name o1)\<rparr>;
                   o3 = o2\<lparr>ro_DisplayName := (if ro_DisplayName o2 = '''' then ro_Name o2 else ro_DisplayName o2),
                           ro_Kind := (if ro_Kind o2 = '''' then ''Connection'' else ro_Kind o2)\<rparr>
               in if ro_Kind o3 \<notin> set connectionKinds then Err (OutputKind idx)
                  else Ok (o3\<lparr>ro_Priority := (if ro_Priority o3 = 0 then 100 else ro_Priority o3)\<rparr>)))"

text \<open>The loop that detects a name given twice.\<close>

definition checkOutputNames :: "OutputRendered list \<Rightarrow> (package_error, string list) result" where
  "checkOutputNames outputs =
     rfold (\<lambda>seen (idx, output). if ro_Name output \<in> set seen then Err (OutputDuplicate idx) else Ok (ro_Name output # seen))
       [] (enumerate 0 outputs)"

text \<open>\<open>CoreKind\<close>: \<open>None\<close> is \<open>ErrConditionPolicy\<close>. A kind with a byte above 127 holds a rune above 127.\<close>

definition ascii_lower :: "char \<Rightarrow> char" where
  "ascii_lower c = (if CHR ''A'' \<le> c \<and> c \<le> CHR ''Z'' then char_of (of_char c + 32 :: nat) else c)"

definition CoreKind :: "ConditionRendered option \<Rightarrow> string option" where
  "CoreKind condition =
     (case condition of
        None \<Rightarrow> None
      | Some c \<Rightarrow>
          if co_Group c \<noteq> '''' \<or> list_ex (\<lambda>ch. (of_char ch :: nat) > 127) (co_Kind c) then None
          else if map ascii_lower (co_Kind c) = ''secret'' then Some ''Secret''
          else if map ascii_lower (co_Kind c) = ''configmap'' then Some ''ConfigMap'' else None)"

definition checkCondition :: "string \<Rightarrow> nat \<times> ConditionRendered option \<Rightarrow> (package_error, ConditionRendered) result" where
  "checkCondition targetNamespace = (\<lambda>(idx, condition).
     (case CoreKind condition of
        None \<Rightarrow> Err (ConditionPolicy idx)
      | Some kind \<Rightarrow>
          (case condition of
             None \<Rightarrow> Err (NilItem idx)
           | Some c \<Rightarrow>
               if co_Namespace c \<noteq> '''' \<and> co_Namespace c \<noteq> targetNamespace then Err (ConditionPolicy idx)
               else if co_Name c = '''' then Err (ConditionNoName idx)
               else Ok (c\<lparr>co_Kind := kind, co_Namespace := targetNamespace\<rparr>))))"

text \<open>The decoders of the lists that the templates render to.\<close>

record decoders =
  de_outputs :: "string \<Rightarrow> (string, OutputRendered option list) result"
  de_conditions :: "string \<Rightarrow> (string, ConditionRendered option list) result"
  de_inputs :: "string \<Rightarrow> (string, InputRendered option list) result"

definition renderModules ::
  "'t engine \<Rightarrow> 't Module option list \<Rightarrow> (string \<times> tdata) list \<Rightarrow> (package_error, (string \<times> ModuleRendered) list) result" where
  "renderModules eng modules model =
     rfold (\<lambda>byName module.
       (case module of
          None \<Rightarrow> Err (NilItem 0)
        | Some m \<Rightarrow> rbind (wrap_err (ModuleFailed (md_Name m)) (module_Render eng m model)) (\<lambda>r. Ok (mput (md_Name m) r byName))))
       [] modules"

definition checkDependsOn :: "'t Module option list \<Rightarrow> (string \<times> ModuleRendered) list \<Rightarrow> (package_error, unit) result" where
  "checkDependsOn modules byName =
     rfold (\<lambda>_ module.
       (case Option.bind module (\<lambda>m. map_option (\<lambda>r. (md_Name m, r)) (map_of byName (md_Name m))) of
          None \<Rightarrow> Err (NilItem 0)
        | Some (name, rendered) \<Rightarrow>
            rfold (\<lambda>_ (idx, dep). if mhas byName dep then Ok () else Err (UnknownDependency name idx))
              () (enumerate 0 (mr_DependsOn rendered))))
       () modules"

definition Render ::
  "'t engine \<Rightarrow> decoders \<Rightarrow> 't Package \<Rightarrow> (string \<times> tdata) list \<Rightarrow> Release \<Rightarrow> (package_error, Rendered) result" where
  "Render eng dec pck model release =
     (case pk_templates pck of
        None \<Rightarrow> Err (NilItem 0)
      | Some t \<Rightarrow>
          rbind (rmap (\<lambda>key. rbind (case map_of (pt_usage t) key of
                                      None \<Rightarrow> Err (NilItem 0)
                                    | Some u \<Rightarrow> wrap_err (PackageRender (''usage['' @ key @ '']'')) (RenderToText eng u model))
                               (\<lambda>text. Ok (key, text)))
                  (sort (keys (pt_usage t)))) (\<lambda>usage.
          rbind (wrap_err (PackageRender ''roles'') (RenderToStringList eng (pt_roles t) model)) (\<lambda>roles.
          rbind (wrap_err (PackageRender ''dependencies'') (RenderToStringList eng (pt_dependencies t) model)) (\<lambda>dependencies.
          rbind (wrap_err (PackageRender ''description'') (RenderToText eng (pt_description t) model)) (\<lambda>description.
          rbind (renderModules eng (pk_Modules pck) model) (\<lambda>byName.
          rbind (checkDependsOn (pk_Modules pck) byName) (\<lambda>_.
          rbind (wrap_err (PackageRender ''outputs'') (RenderInto eng (pt_outputs t) model (de_outputs dec))) (\<lambda>decoded.
          rbind (rmap adjustOutput (enumerate 0 decoded)) (\<lambda>outputs.
          rbind (checkOutputNames outputs) (\<lambda>_.
          rbind (wrap_err (PackageRender ''conditions'') (RenderInto eng (pt_conditions t) model (de_conditions dec))) (\<lambda>decodedConditions.
          let targetNamespace = (if rs_TargetNamespace (rl_Spec release) = '''' then om_Namespace (rl_meta release)
                                 else rs_TargetNamespace (rl_Spec release))
          in rbind (rmap (checkCondition targetNamespace) (enumerate 0 decodedConditions)) (\<lambda>conditions.
               Ok \<lparr>re_Usage = usage, re_Roles = roles, re_Dependencies = dependencies, re_ModuleRenderedByName = byName,
                   re_Description = description, re_Inputs = [], re_Conditions = conditions, re_Outputs = outputs\<rparr>))))))))))))"

text \<open>One input: its alias, its namespaces and, when it names nothing, the namespace its contract is looked up in.\<close>

definition adjustInput :: "string \<Rightarrow> nat \<times> InputRendered option \<Rightarrow> (package_error, InputRendered) result" where
  "adjustInput defaultNamespace = (\<lambda>(idx, input).
     (case input of
        None \<Rightarrow> Err (NilItem idx)
      | Some i0 \<Rightarrow>
          let i1 = i0\<lparr>in_Alias := (if in_Alias i0 = '''' then in_Contract i0 else in_Alias i0)\<rparr>
          in if in_Contract i1 = '''' then Err (InputNoContract idx)
             else if in_Kind i1 \<noteq> '''' \<and> in_Kind i1 \<notin> set connectionKinds then Err (InputKind idx)
             else if in_ConnectionName i1 \<noteq> '''' \<and> in_ConnectionNamespace i1 \<noteq> '''' \<and> in_Kind i1 = ''ClusterConnection''
             then Err (InputNamespaceForCluster idx)
             else let i2 = i1\<lparr>in_ConnectionNamespace :=
                               (if in_ConnectionName i1 \<noteq> '''' \<and> in_ConnectionNamespace i1 = '''' \<and> in_Kind i1 \<noteq> ''ClusterConnection''
                                then defaultNamespace else in_ConnectionNamespace i1),
                             in_ReleaseNamespace :=
                               (if in_ReleaseName i1 \<noteq> '''' \<and> in_ReleaseNamespace i1 = '''' then defaultNamespace
                                else in_ReleaseNamespace i1)\<rparr>;
                      x = nonEmpties [in_ConnectionName i2, in_ReleaseName i2];
                      y = nonEmpties [in_ConnectionNamespace i2, in_ReleaseNamespace i2]
                  in if x > 1 then Err (InputTwoNames idx)
                     else if x = 0
                     then if y > 1 then Err (InputTwoNamespaces idx)
                          else Ok (i2\<lparr>in_contractLookupNamespace :=
                                 (if y = 0 then defaultNamespace
                                  else if in_ConnectionNamespace i2 \<noteq> '''' then in_ConnectionNamespace i2
                                  else in_ReleaseNamespace i2)\<rparr>)
                     else Ok i2))"

definition RenderInputs ::
  "'t engine \<Rightarrow> decoders \<Rightarrow> 't Package \<Rightarrow> (string \<times> tdata) list \<Rightarrow> string \<Rightarrow> (package_error, InputRendered list) result" where
  "RenderInputs eng dec pck model defaultNamespace =
     (case pk_templates pck of
        None \<Rightarrow> Err (NilItem 0)
      | Some t \<Rightarrow>
          rbind (wrap_err (PackageRender ''inputs'') (RenderInto eng (pt_inputs t) model (de_inputs dec))) (\<lambda>decoded.
          rmap (adjustInput defaultNamespace) (enumerate 0 decoded)))"

section \<open>Reports of a failed validation\<close>

text \<open>
  An error of the JSON schema library: its context as the library prints it with NUL as the separator, its type, its
  description and the printed list of allowed values.
\<close>

record ResultError =
  rx_Context :: "string option"
  rx_Type :: string
  rx_Description :: string
  rx_Allowed :: string

definition describedErrorTypes :: "string list" where
  "describedErrorTypes = [''required'', ''invalid_type'', ''false'', ''missing_dependency'',
     ''number_any_of'', ''number_one_of'', ''number_all_of'', ''number_not'', ''condition_then'', ''condition_else'',
     ''contains'', ''unique'', ''array_no_additional_items'', ''array_min_items'', ''array_max_items'',
     ''array_min_properties'', ''array_max_properties'', ''string_gte'', ''string_lte'', ''pattern'', ''format'',
     ''multiple_of'', ''number_gte'', ''number_gt'', ''number_lte'', ''number_lt'']"

fun schemaPathLoop :: "gmap \<Rightarrow> gval \<Rightarrow> string list \<Rightarrow> string list" where
  "schemaPathLoop node val [] = []"
| "schemaPathLoop node val (segment # segments) =
     (case val of
        GList list \<Rightarrow>
          (case (getMap node ''items'', Atoi segment) of
             (Some items, Some index) \<Rightarrow>
               if index < 0 \<or> index \<ge> int (length list) \<or> Itoa index \<noteq> segment then []
               else segment # schemaPathLoop items (list ! nat index) segments
           | _ \<Rightarrow> [])
      | _ \<Rightarrow>
          (case (getMap (mapOr node ''properties'') segment, val) of
             (Some child, GMap object) \<Rightarrow>
               segment # schemaPathLoop child (case map_of object segment of None \<Rightarrow> GNil | Some v \<Rightarrow> v) segments
           | _ \<Rightarrow> []))"

definition schemaPath :: "string option \<Rightarrow> gmap \<Rightarrow> gval \<Rightarrow> string" where
  "schemaPath context schema inst =
     (case context of
        None \<Rightarrow> ''(root)''
      | Some c \<Rightarrow>
          (let path = schemaPathLoop schema inst (tl (Split (CHR 0x00) c))
           in if path = [] then ''(root)'' else Join ''.'' path))"

definition schemaReason :: "ResultError \<Rightarrow> string" where
  "schemaReason e =
     (if rx_Type e = ''additional_property_not_allowed'' then ''a property is not declared in the schema''
      else if rx_Type e = ''invalid_property_pattern'' \<or> rx_Type e = ''invalid_property_name''
      then ''a property name does not match the schema''
      else if rx_Type e = ''enum'' then ''must be one of the following: '' @ rx_Allowed e
      else if rx_Type e = ''const'' then ''must be '' @ rx_Allowed e
      else if rx_Type e \<in> set describedErrorTypes then rx_Description e
      else ''does not satisfy the schema ('' @ rx_Type e @ '')'')"

definition SchemaError :: "ResultError list \<Rightarrow> gmap \<Rightarrow> gval \<Rightarrow> string" where
  "SchemaError errors schema inst =
     hd (sort (map (\<lambda>e. schemaPath (rx_Context e) schema inst @ '': '' @ schemaReason e) errors))"

section \<open>The container of a package\<close>

text \<open>\<open>'g\<close> is a compiled schema of the JSON schema library, which \<open>newSchema\<close> makes and \<open>validate\<close> applies.\<close>

record ('t, 'g) PckContainer =
  pc_Package :: "'t Package"
  pc_Revision :: string
  pc_Status :: "PackageStatus option"
  pc_DefaultParameters :: gmap
  pc_DefaultContext :: gmap
  pc_ParameterSchema :: "'g option"
  pc_ContextSchema :: "'g option"
  pc_ParamConnectionDecls :: "ConnectionDecl list"
  pc_ContextConnectionDecls :: "ConnectionDecl list"

record 'g jsonschema =
  js_NewSchema :: "gmap \<Rightarrow> (string, 'g) result"
  js_Validate :: "'g \<Rightarrow> gmap \<Rightarrow> (string, ResultError list) result"

datatype container_error =
    RevisionPanic string
  | GroomFailed package_error
  | DefaultParameters default_error
  | DefaultContext default_error
  | ParameterSchema string
  | ContextSchema string
  | ParametersDecls decl_error
  | ContextDecls decl_error
  | Validation string
  | SchemaViolation string

text \<open>\<open>strings.Split(revision, ":")[1][:12]\<close>: \<open>None\<close> when an index is out of range, which panics.\<close>

definition shortRevision :: "string \<Rightarrow> string option" where
  "shortRevision revision =
     (case Split (CHR '':'') revision of
        _ # r # _ \<Rightarrow> if 12 \<le> length r then Some (take 12 r) else None
      | _ \<Rightarrow> None)"

definition compileSchema :: "'g jsonschema \<Rightarrow> (string \<Rightarrow> container_error) \<Rightarrow> gmap option \<Rightarrow> (container_error, 'g option) result" where
  "compileSchema js wrap schema =
     (case schema of
        None \<Rightarrow> Ok None
      | Some s \<Rightarrow> if s = [] then Ok None else rbind (wrap_err wrap (js_NewSchema js s)) (\<lambda>g. Ok (Some g)))"

abbreviation schemaOr :: "gmap option \<Rightarrow> gmap" where
  "schemaOr schema \<equiv> (case schema of None \<Rightarrow> [] | Some s \<Rightarrow> s)"

definition SetPackage ::
  "'t engine \<Rightarrow> 'g jsonschema \<Rightarrow> configuration option \<Rightarrow> 't Package \<Rightarrow> PackageStatus option \<Rightarrow> string
     \<Rightarrow> (container_error, ('t, 'g) PckContainer) result" where
  "SetPackage eng js store pck0 status revision =
     (case shortRevision revision of
        None \<Rightarrow> Err (RevisionPanic revision)
      | Some short \<Rightarrow>
          rbind (wrap_err GroomFailed (Groom eng store pck0)) (\<lambda>pck.
          let container = \<lparr>pc_Package = pck, pc_Revision = short, pc_Status = status, pc_DefaultParameters = [], pc_DefaultContext = [],
                 pc_ParameterSchema = None, pc_ContextSchema = None, pc_ParamConnectionDecls = [], pc_ContextConnectionDecls = []\<rparr>
          in case pk_Schema pck of
               None \<Rightarrow> Ok container
             | Some schema \<Rightarrow>
                 rbind (wrap_err DefaultParameters (Defaulter (sc_Parameters schema))) (\<lambda>defaultParameters.
                 rbind (wrap_err DefaultContext (Defaulter (sc_Context schema))) (\<lambda>defaultContext.
                 rbind (compileSchema js ParameterSchema (sc_Parameters schema)) (\<lambda>parameterSchema.
                 rbind (compileSchema js ContextSchema (sc_Context schema)) (\<lambda>contextSchema.
                 rbind (wrap_err ParametersDecls (CollectConnectionDecls (schemaOr (sc_Parameters schema)) False)) (\<lambda>paramDecls.
                 rbind (wrap_err ContextDecls (CollectConnectionDecls (schemaOr (sc_Context schema)) True)) (\<lambda>contextDecls.
                   Ok (container\<lparr>pc_DefaultParameters := defaultParameters, pc_DefaultContext := defaultContext,
                         pc_ParameterSchema := parameterSchema, pc_ContextSchema := contextSchema,
                         pc_ParamConnectionDecls := paramDecls, pc_ContextConnectionDecls := contextDecls\<rparr>)))))))))"

definition validateWith ::
  "'g jsonschema \<Rightarrow> string \<Rightarrow> 'g option \<Rightarrow> gmap \<Rightarrow> gmap \<Rightarrow> (container_error, unit) result" where
  "validateWith js what compiled schema val =
     (case compiled of
        None \<Rightarrow> Ok ()
      | Some g \<Rightarrow>
          rbind (wrap_err Validation (js_Validate js g val)) (\<lambda>errors.
            if errors = [] then Ok ()
            else Err (SchemaViolation (what @ '' schema validation error: '' @ SchemaError errors schema (GMap val)))))"

definition ValidateParameters :: "'g jsonschema \<Rightarrow> ('t, 'g) PckContainer \<Rightarrow> gmap \<Rightarrow> (container_error, unit) result" where
  "ValidateParameters js p params =
     validateWith js ''parameters'' (pc_ParameterSchema p)
       (case pk_Schema (pc_Package p) of None \<Rightarrow> [] | Some s \<Rightarrow> schemaOr (sc_Parameters s)) params"

definition ValidateContext :: "'g jsonschema \<Rightarrow> ('t, 'g) PckContainer \<Rightarrow> gmap \<Rightarrow> (container_error, unit) result" where
  "ValidateContext js p context =
     validateWith js ''context'' (pc_ContextSchema p)
       (case pk_Schema (pc_Package p) of None \<Rightarrow> [] | Some s \<Rightarrow> schemaOr (sc_Context s)) context"

section \<open>Groomed packages\<close>

definition groomed_module :: "'t Module \<Rightarrow> bool" where
  "groomed_module m \<longleftrightarrow> md_Name m \<noteq> '''' \<and> md_Type m \<in> {HelmChartType, PackageType} \<and> md_templates m \<noteq> None
     \<and> checkSource (md_Source m) = Ok () \<and> (md_Type m = PackageType \<longrightarrow> IsZero (md_Values m))
     \<and> (md_Type m = HelmChartType \<longrightarrow> IsZero (md_Parameters m))"

text \<open>A schema that \<open>Groom\<close> leaves carries the mark of a converted one, unless there is none.\<close>

definition marked :: "gmap option \<Rightarrow> bool" where
  "marked schema \<longleftrightarrow> (case schema of None \<Rightarrow> True | Some s \<Rightarrow> mhas s ''$schema'')"

definition groomed :: "'t Package \<Rightarrow> bool" where
  "groomed p \<longleftrightarrow> pk_Type p = PackageType \<and> pk_Tag p \<noteq> '''' \<and> ValidateK8sName (pk_Name p) \<and> pk_templates p \<noteq> None
     \<and> pk_Modules p \<noteq> [] \<and> (\<exists>ms. pk_Modules p = map Some ms \<and> distinct (map md_Name ms) \<and> (\<forall>m\<in>set ms. groomed_module m))
     \<and> (\<exists>s. pk_Schema p = Some s \<and> marked (sc_Parameters s) \<and> marked (sc_Context s))"

lemma Kubo2openAPI_marked: "Kubo2openAPI schema ap = Inr out \<Longrightarrow> marked out"
  by (auto simp: Kubo2openAPI_def marked_def rbind_Inr mhas_def split: option.splits if_splits)

lemma groomSchema_marked: "groomSchema schema = Inr s \<Longrightarrow> marked (sc_Parameters s) \<and> marked (sc_Context s)"
  by (auto simp: groomSchema_def Let_def rbind_Inr wrap_err_Inr dest!: Kubo2openAPI_marked split: option.splits)
    (auto simp: marked_def noParamSchema_def mhas_def)

lemma parseTemplates_frame:
  "parseTemplates eng m header = Inr m' \<Longrightarrow> md_templates m' \<noteq> None \<and> m' = m\<lparr>md_templates := md_templates m'\<rparr>"
  by (auto simp: parseTemplates_def rbind_Inr)

lemma moduleDefaults_name [simp]: "md_Name (moduleDefaults idx store m) \<noteq> ''''"
  by (simp add: moduleDefaults_def)

lemma module_groom_groomed: "module_groom eng header idx store m = Inr m' \<Longrightarrow> groomed_module m'"
proof -
  assume a: "module_groom eng header idx store m = Inr m'"
  let ?d = "moduleDefaults idx store m"
  have t: "parseTemplates eng ?d header = Inr m'" and c: "md_Type ?d = HelmChartType \<or> md_Type ?d = PackageType"
      "checkSource (md_Source ?d) = Inr ()" "md_Type ?d = PackageType \<longrightarrow> IsZero (md_Values ?d)"
      "md_Type ?d = HelmChartType \<longrightarrow> IsZero (md_Parameters ?d)"
    using a by (auto simp: module_groom_def Let_def rbind_Inr split: if_splits)
  obtain tm where m': "m' = ?d\<lparr>md_templates := Some tm\<rparr>" using parseTemplates_frame [OF t] by (metis not_None_eq)
  show ?thesis unfolding m' groomed_module_def using c by simp
qed

lemma groomModule_step:
  "groomModule eng header store ms (idx, mo) = Inr ms' \<Longrightarrow>
     \<exists>m m'. mo = Some m \<and> module_groom eng header idx store m = Inr m' \<and> md_Name m' \<notin> md_Name ` set ms \<and> ms' = ms @ [m']"
  by (auto simp: groomModule_def rbind_Inr wrap_err_Inr split: option.splits if_splits)

lemma groomModules_groomed:
  "groomModules eng header store modules = Inr ms \<Longrightarrow>
     length ms = length modules \<and> distinct (map md_Name ms) \<and> (\<forall>m\<in>set ms. groomed_module m)"
proof -
  have "length out = length acc + length xs \<and> distinct (map md_Name out) \<and> (\<forall>m\<in>set out. groomed_module m)"
    if "rfold (groomModule eng header store) acc xs = Inr out" "distinct (map md_Name acc)" "\<forall>m\<in>set acc. groomed_module m"
    for acc xs out
    using that
  proof (induction xs arbitrary: acc)
    case (Cons x xs)
    then obtain acc' where s: "groomModule eng header store acc x = Inr acc'" "rfold (groomModule eng header store) acc' xs = Inr out"
      by (auto split: sum.splits)
    obtain idx mo where x: "x = (idx, mo)" by (cases x)
    obtain m m' where m: "module_groom eng header idx store m = Inr m'" "md_Name m' \<notin> md_Name ` set acc" "acc' = acc @ [m']"
      using groomModule_step s(1) unfolding x by blast
    show ?case using Cons.IH [OF s(2)] Cons.prems(2,3) m module_groom_groomed [OF m(1)] by simp
  qed simp
  then show "groomModules eng header store modules = Inr ms \<Longrightarrow> ?thesis" by (fastforce simp: groomModules_def)
qed

section \<open>Lemmas on rendered packages\<close>

definition sound_output :: "OutputRendered \<Rightarrow> bool" where
  "sound_output output \<longleftrightarrow> ro_Contract output \<noteq> '''' \<and> ro_Name output \<noteq> '''' \<and> ro_DisplayName output \<noteq> ''''
     \<and> ro_Kind output \<in> set connectionKinds \<and> ro_Priority output \<noteq> 0"

definition sound_condition :: "string \<Rightarrow> ConditionRendered \<Rightarrow> bool" where
  "sound_condition ns c \<longleftrightarrow> co_Group c = '''' \<and> co_Kind c \<in> {''Secret'', ''ConfigMap''} \<and> co_Name c \<noteq> '''' \<and> co_Namespace c = ns"

lemma adjustOutput_sound: "adjustOutput x = Inr output \<Longrightarrow> sound_output output"
  by (auto simp: adjustOutput_def sound_output_def connectionKinds_def Let_def split: prod.splits option.splits if_splits)

lemma checkCondition_sound: "checkCondition ns x = Inr c \<Longrightarrow> sound_condition ns c"
  by (auto simp: checkCondition_def sound_condition_def CoreKind_def split: prod.splits option.splits if_splits)

lemma checkOutputNames_distinct: "checkOutputNames outputs = Inr seen \<Longrightarrow> distinct (map ro_Name outputs)"
proof -
  assume a: "checkOutputNames outputs = Inr seen"
  have step: "distinct (map (ro_Name \<circ> snd) xs) \<and> (\<forall>x\<in>set xs. ro_Name (snd x) \<notin> set acc)"
    if "rfold (\<lambda>seen (idx, output). if ro_Name output \<in> set seen then Inl (OutputDuplicate idx) else Inr (ro_Name output # seen)) acc xs = Inr out"
    for acc and xs :: "(nat \<times> OutputRendered) list" and out
    using that
  proof (induction xs arbitrary: acc)
    case (Cons x xs)
    then have c: "ro_Name (snd x) \<notin> set acc" and f: "rfold (\<lambda>seen (idx, output). if ro_Name output \<in> set seen
        then Inl (OutputDuplicate idx) else Inr (ro_Name output # seen)) (ro_Name (snd x) # acc) xs = Inr out"
      by (auto split: prod.splits if_splits sum.splits)
    show ?case using c Cons.IH [OF f] by auto
  qed simp
  moreover have "map (ro_Name \<circ> snd) (enumerate 0 outputs) = map ro_Name outputs"
    by (simp flip: map_map)
  ultimately show ?thesis using step [of "[]" "enumerate 0 outputs" seen] a unfolding checkOutputNames_def by simp
qed

lemma renderModules_keys:
  "rfold (\<lambda>byName mo. (case mo of None \<Rightarrow> Err (NilItem 0)
       | Some m \<Rightarrow> rbind (wrap_err (ModuleFailed (md_Name m)) (module_Render eng m model)) (\<lambda>r. Ok (mput (md_Name m) r byName)))) acc modules = Inr out
   \<Longrightarrow> set (keys out) = set (keys acc) \<union> {md_Name m | m. Some m \<in> set modules}"
proof (induction modules arbitrary: acc)
  case (Cons x modules)
  then obtain m r where x: "x = Some m" "set (keys out) = set (keys (mput (md_Name m) r acc)) \<union> {md_Name m | m. Some m \<in> set modules}"
    by (auto simp: rbind_Inr split: option.splits sum.splits)
  then show ?case by auto
qed simp

text \<open>Every rendered dependency of a mo of the package names a mo of the package.\<close>

lemma rfold_unit_all: "rfold (\<lambda>_ x. f x) () xs = Inr () \<longleftrightarrow> (\<forall>x\<in>set xs. f x = Inr ())"
proof (induction xs)
  case (Cons x xs)
  then show ?case by (cases "f x") auto
qed simp

lemma checkDependsOn_known:
  assumes "checkDependsOn modules byName = Inr ()" "Some m \<in> set modules" "map_of byName (md_Name m) = Some r" "dep \<in> set (mr_DependsOn r)"
  shows "dep \<in> set (keys byName)"
proof -
  have "rfold (\<lambda>_ (idx, dep). if mhas byName dep then Inr () else Inl (UnknownDependency (md_Name m) idx)) () (enumerate 0 (mr_DependsOn r)) = Inr ()"
    using bspec [OF assms(1) [unfolded checkDependsOn_def rfold_unit_all] assms(2)] assms(3) by simp
  then have "\<forall>x\<in>set (enumerate 0 (mr_DependsOn r)). (\<lambda>(idx, dep). if mhas byName dep then Inr () else Inl (UnknownDependency (md_Name m) idx)) x = Inr ()"
    unfolding rfold_unit_all .
  moreover obtain i where "(i, dep) \<in> set (enumerate 0 (mr_DependsOn r))"
    using assms(4) by (metis in_set_conv_nth length_enumerate nth_enumerate_eq)
  ultimately show ?thesis by (fastforce simp: mhas_iff split: if_splits)
qed

lemma Render_parts:
  assumes "Render eng dec pck model release = Inr r"
  obtains t decoded decodedConditions seen where "pk_templates pck = Some t"
    "renderModules eng (pk_Modules pck) model = Inr (re_ModuleRenderedByName r)"
    "checkDependsOn (pk_Modules pck) (re_ModuleRenderedByName r) = Inr ()"
    "rmap adjustOutput (enumerate 0 decoded) = Inr (re_Outputs r)" "checkOutputNames (re_Outputs r) = Inr seen"
    "rmap (checkCondition (if rs_TargetNamespace (rl_Spec release) = '''' then om_Namespace (rl_meta release)
       else rs_TargetNamespace (rl_Spec release))) (enumerate 0 decodedConditions) = Inr (re_Conditions r)"
  using assms by (cases "pk_templates pck") (auto simp: Render_def rbind_Inr Let_def)

section \<open>Lemmas on the reports\<close>

text \<open>A path of names that the schema declares, and of decimal indexes where it declares items.\<close>

fun declared :: "gmap \<Rightarrow> string list \<Rightarrow> bool" where
  "declared node [] = True"
| "declared node (segment # segments) =
     ((\<exists>child. map_of (mapOr node ''properties'') segment = Some (GMap child) \<and> declared child segments)
      \<or> (\<exists>items i. segment = nat_digits i \<and> map_of node ''items'' = Some (GMap items) \<and> declared items segments))"

lemma schemaPathLoop_declared: "declared node (schemaPathLoop node val segments) \<and> prefix (schemaPathLoop node val segments) segments"
proof (induction segments arbitrary: node val)
  case (Cons segment segments)
  show ?case
  proof (cases "\<exists>list. val = GList list")
    case True
    then obtain list where l: "val = GList list" by blast
    show ?thesis
    proof (cases "\<exists>items index. map_of node ''items'' = Some (GMap items) \<and> Atoi segment = Some index
        \<and> \<not> (index < 0 \<or> index \<ge> int (length list) \<or> Itoa index \<noteq> segment)")
      case True
      then obtain items index where i: "map_of node ''items'' = Some (GMap items)" "Atoi segment = Some index"
        "\<not> (index < 0 \<or> index \<ge> int (length list) \<or> Itoa index \<noteq> segment)" by blast
      have d: "segment = nat_digits (nat index)" using i(3) by (simp add: Itoa_def split: if_splits)
      have "schemaPathLoop node val (segment # segments) = segment # schemaPathLoop items (list ! nat index) segments"
        using l i by (simp add: getMap_def)
      then show ?thesis using Cons.IH [of items "list ! nat index"] d i(1) by auto
    next
      case False
      then have "schemaPathLoop node val (segment # segments) = []"
        using l by (auto simp: getMap_iff split: option.splits)
      then show ?thesis by simp
    qed
  next
    case False
    show ?thesis
    proof (cases "getMap (mapOr node ''properties'') segment")
      case (Some child)
      then have "map_of (mapOr node ''properties'') segment = Some (GMap child)" by (simp add: getMap_iff)
      then show ?thesis using False Cons.IH Some by (cases val) auto
    qed (use False in \<open>cases val; auto\<close>)
  qed
qed simp

section \<open>Properties\<close>


text \<open>C26: what \<open>Render\<close> returns for a package is sound. The outputs have a contract, a known kind, a priority and distinct
  names; every condition is about a Secret or a ConfigMap in the target namespace of the Release, whatever the package
  asked for; and every dependency of a module names a module of the package.\<close>

theorem Render_sound:
  assumes "Render eng dec pck model release = Ok r"
  shows "(\<forall>output\<in>set (re_Outputs r). sound_output output) \<and> distinct (map ro_Name (re_Outputs r))
   \<and> (\<forall>c\<in>set (re_Conditions r). sound_condition (if rs_TargetNamespace (rl_Spec release) = ''''
        then om_Namespace (rl_meta release) else rs_TargetNamespace (rl_Spec release)) c)
   \<and> (\<forall>m mr. Some m \<in> set (pk_Modules pck) \<longrightarrow> map_of (re_ModuleRenderedByName r) (md_Name m) = Some mr
        \<longrightarrow> (\<forall>dep\<in>set (mr_DependsOn mr). \<exists>m'. Some m' \<in> set (pk_Modules pck) \<and> md_Name m' = dep))"
proof -
  obtain decoded dc seen where
    ms: "renderModules eng (pk_Modules pck) model = Inr (re_ModuleRenderedByName r)"
    and dep: "checkDependsOn (pk_Modules pck) (re_ModuleRenderedByName r) = Inr ()"
    and outs: "rmap adjustOutput (enumerate 0 decoded) = Inr (re_Outputs r)" "checkOutputNames (re_Outputs r) = Inr seen"
    and cs: "rmap (checkCondition (if rs_TargetNamespace (rl_Spec release) = '''' then om_Namespace (rl_meta release)
       else rs_TargetNamespace (rl_Spec release))) (enumerate 0 dc) = Inr (re_Conditions r)"
    using Render_parts [OF assms] by metis
  have keys: "set (keys (re_ModuleRenderedByName r)) = {md_Name m | m. Some m \<in> set (pk_Modules pck)}"
    using renderModules_keys [of eng model "[]" "pk_Modules pck"] ms unfolding renderModules_def by simp
  have "\<exists>m'. Some m' \<in> set (pk_Modules pck) \<and> md_Name m' = d"
    if "Some m \<in> set (pk_Modules pck)" "map_of (re_ModuleRenderedByName r) (md_Name m) = Some mr" "d \<in> set (mr_DependsOn mr)"
    for m mr d using checkDependsOn_known [OF dep that] keys by auto
  moreover have "\<forall>output\<in>set (re_Outputs r). sound_output output"
    using rmap_set [OF outs(1)] adjustOutput_sound by blast
  moreover have "distinct (map ro_Name (re_Outputs r))" using checkOutputNames_distinct [OF outs(2)] .
  ultimately show ?thesis using rmap_set [OF cs] checkCondition_sound by blast
qed


section \<open>Witnesses\<close>

definition sample_module :: "string \<Rightarrow> string Module" where
  "sample_module name = \<lparr>md_Name = name, md_Type = '''',
     md_Source = \<lparr>src_HelmRepository = None, src_Oci = Some \<lparr>oci_Repository = ''oci://r/c'', oci_Tag = ''1.0'', oci_Insecure = False\<rparr>,
        src_Git = None, src_Local = None\<rparr>,
     md_Parameters = GNil, md_Values = GNil, md_SpecPatch = GNil, md_OnFailureStrategy = '''', md_Timeout = '''', md_Interval = '''',
     md_TargetNamespace = '''', md_Enabled = '''', md_DependsOn = GNil, md_templates = None\<rparr>"

definition sample_package :: "string Package" where
  "sample_package = \<lparr>pk_ApiVersion = ''v1alpha1'', pk_Type = '''', pk_Name = ''redis'', pk_Tag = ''1.0'', pk_Description = '''', pk_Usage = [],
     pk_Protected = False, pk_Schema = None, pk_Modules = [Some (sample_module ''main''), Some (sample_module '''')], pk_Roles = GNil,
     pk_Dependencies = GNil, pk_TemplateHeader = '''', pk_Inputs = GNil, pk_Conditions = GNil, pk_Outputs = GNil, pk_templates = None\<rparr>"

definition sample_groomed :: "string Package" where
  "sample_groomed = (case Groom sample_engine None sample_package of Inr p \<Rightarrow> p | Inl _ \<Rightarrow> sample_package)"

lemma sample_Groom: "Groom sample_engine None sample_package = Ok sample_groomed"
proof -
  have "\<exists>p. Groom sample_engine None sample_package = Ok p"
    by (simp add: Groom_def sample_package_def Let_def CountNonZero_def PackageApiVersion_def PackageType_def HelmChartType_def
        ValidateK8sName_def k8s_alnum_def is_digit_def less_eq_char_def groomSchema_def groomModules_def groomModule_def
        module_groom_def moduleDefaults_def sample_module_def checkSource_def parseTemplates_def NewFromAny_def New_tmpl_def
        sample_engine_def packageTemplatesOf_def nat_digits.simps pad_zeros_def digit_char_def)
  then show ?thesis by (auto simp: sample_groomed_def)
qed


definition sample_model :: "(string \<times> tdata) list" where
  "sample_model = [(''Release'', DMap [(''spec'', DMap [(''createNamespace'', DScalar (GBool True))])])]"

definition sample_tmpl :: "string tmpl" where
  "sample_tmpl = \<lparr>tt_template = '''', tt_header = ''''\<rparr>"

definition sample_parsed :: "string Package" where
  "sample_parsed = sample_package\<lparr>
     pk_Modules := [Some ((sample_module ''main'')\<lparr>md_templates := Some \<lparr>mt_parameters = sample_tmpl, mt_values = sample_tmpl,
        mt_specPatch = sample_tmpl, mt_targetNamespace = sample_tmpl, mt_enabled = sample_tmpl, mt_dependsOn = sample_tmpl,
        mt_timeout = sample_tmpl, mt_interval = sample_tmpl, mt_onFailureStrategy = sample_tmpl\<rparr>\<rparr>)],
     pk_templates := Some \<lparr>pt_usage = [], pt_roles = sample_tmpl, pt_dependencies = sample_tmpl, pt_description = sample_tmpl,
        pt_outputs = sample_tmpl, pt_inputs = sample_tmpl, pt_conditions = sample_tmpl\<rparr>\<rparr>"

text \<open>The decoders give two outputs, a condition that names no namespace, and an input by contract.\<close>

definition sample_output :: "string \<Rightarrow> OutputRendered" where
  "sample_output name = \<lparr>ro_Name = name, ro_Contract = ''sql'', ro_Kind = '''', ro_DisplayName = '''', ro_Priority = 0, ro_Description = '''',
     ro_Values = []\<rparr>"

definition sample_condition :: ConditionRendered where
  "sample_condition = \<lparr>co_Group = '''', co_Kind = ''secret'', co_Name = ''creds'', co_Namespace = '''', co_Cel = ''true''\<rparr>"

definition sample_input :: InputRendered where
  "sample_input = \<lparr>in_Contract = ''sql'', in_Kind = '''', in_ConnectionName = '''', in_ConnectionNamespace = '''', in_ReleaseName = '''',
     in_ReleaseNamespace = '''', in_ReleaseOutput = '''', in_Alias = '''', in_Optional = False, in_AllowMultiple = False,
     in_contractLookupNamespace = ''''\<rparr>"

definition sample_decoders :: decoders where
  "sample_decoders = \<lparr>de_outputs = (\<lambda>_. Ok [Some (sample_output ''''), Some (sample_output ''admin'')]),
     de_conditions = (\<lambda>_. Ok [Some sample_condition]), de_inputs = (\<lambda>_. Ok [Some sample_input])\<rparr>"

definition sample_rendered :: "Release \<Rightarrow> Rendered" where
  "sample_rendered release =
     (case Render sample_engine sample_decoders sample_parsed sample_model release of Inr r \<Rightarrow> r | Inl _ \<Rightarrow>
        \<lparr>re_Usage = [], re_Roles = [], re_Dependencies = [], re_ModuleRenderedByName = [], re_Description = '''', re_Inputs = [],
         re_Conditions = [], re_Outputs = []\<rparr>)"

lemma sample_RenderToText [simp]: "RenderToText sample_engine sample_tmpl sample_model = Ok ''''"
  by (simp add: RenderToText_def plainCopy_def sample_model_def sample_engine_def sample_tmpl_def maxRenderedText_def Write_def
      remove_all.simps)

lemma sample_engine_simps:
  "en_yamlV2 sample_engine s = Ok (YScalar s)" "en_yamlMap sample_engine s = Ok []" "en_yamlStrings sample_engine s = Ok []"
  "en_ParseDuration sample_engine s = Some 0"
  by (simp_all add: sample_engine_def)

lemma sample_renders [simp]:
  "RenderToMap sample_engine sample_tmpl sample_model = Ok []"
  "RenderToStringList sample_engine sample_tmpl sample_model = Ok []"
  "RenderToDuration sample_engine sample_tmpl sample_model = Ok 0"
  "RenderToSingleLine sample_engine sample_tmpl sample_model = Ok ''''"
  "RenderToBool sample_engine sample_tmpl sample_model True = Ok True"
  "RenderInto sample_engine sample_tmpl sample_model (de_outputs sample_decoders) = Ok [Some (sample_output ''''), Some (sample_output ''admin'')]"
  "RenderInto sample_engine sample_tmpl sample_model (de_conditions sample_decoders) = Ok [Some sample_condition]"
  "RenderInto sample_engine sample_tmpl sample_model (de_inputs sample_decoders) = Ok [Some sample_input]"
  by (simp_all add: RenderToMap_def RenderToStringList_def RenderToDuration_def RenderToSingleLine_def RenderToBool_def RenderInto_def
      decodeYAML_def CheckYAMLKeys_def TrimSpace_def sample_decoders_def sample_engine_simps)

lemma sample_createNamespace: "createNamespaceOf sample_model = Some True"
  by (simp add: createNamespaceOf_def sample_model_def)

lemma sample_Render: "Render sample_engine sample_decoders sample_parsed sample_model release = Ok (sample_rendered release)"
proof -
  have "\<exists>r. Render sample_engine sample_decoders sample_parsed sample_model release = Ok r"
    by (simp add: Render_def sample_parsed_def sample_package_def renderModules_def module_Render_def checkDependsOn_def
        sample_createNamespace sample_module_def mput_code adjustOutput_def sample_output_def connectionKinds_def checkOutputNames_def
        checkCondition_def CoreKind_def sample_condition_def ascii_lower_def less_eq_char_def Let_def)
  then show ?thesis by (auto simp: sample_rendered_def)
qed

theorem Render_sound_witness:
  "sound_condition ''n'' (hd (re_Conditions (sample_rendered sample_release))) \<and> distinct (map ro_Name (re_Outputs (sample_rendered sample_release)))"
proof -
  have "re_Conditions (sample_rendered sample_release) \<noteq> []"
    by (simp add: sample_rendered_def Render_def sample_parsed_def sample_package_def renderModules_def module_Render_def checkDependsOn_def
        sample_createNamespace sample_module_def mput_code adjustOutput_def sample_output_def connectionKinds_def checkOutputNames_def
        checkCondition_def CoreKind_def sample_condition_def ascii_lower_def less_eq_char_def Let_def)
  then have "hd (re_Conditions (sample_rendered sample_release)) \<in> set (re_Conditions (sample_rendered sample_release))" by simp
  then show ?thesis using Render_sound [OF sample_Render [of sample_release]] by (fastforce simp: sample_release_def)
qed

text \<open>An error about an undeclared property below a declared one, whose name is left out.\<close>

definition sample_errors :: "ResultError list" where
  "sample_errors = [\<lparr>rx_Context = Some (''root'' @ CHR 0x00 # ''db'' @ CHR 0x00 # ''s3cret''), rx_Type = ''required'',
     rx_Description = ''host is required'', rx_Allowed = ''''\<rparr>]"


end
