(* ===== verification/ParamRefs.thy ===== *)
theory ParamRefs
  imports Package
begin

text \<open>
  \<open>internal/controller/release_paramrefs.go\<close>: the connection references of the parameters and the context of a Release. The
  declarations of the package schema are expanded against the actual values into inputs and bindings
  (\<open>GenerateRefInputs\<close>); once the inputs are resolved, the values replace the names in place (\<open>ApplyRefBindings\<close>).

  The trees are owned copies, so that a write in place is the functional update of the tree.
\<close>

section \<open>Generated inputs\<close>

record RefBinding =
  rb_Alias :: string
  rb_Path :: "string list"
  rb_InContext :: bool

datatype set_error = EmptyPath | NotListOrOutOfRange string | NotAMap string | IndexPanic string

datatype ref_error =
    NameRequired string
  | NotAName string
  | StanzaCollision string
  | NoResolvedValues string
  | Substitution string set_error
  | RefDefault string tmpl_error

definition formatAlias :: "string list \<Rightarrow> bool \<Rightarrow> string" where
  "formatAlias concrete inContext =
     (if inContext then ''context'' else ''parameters'')
     @ concat (map (\<lambda>seg. case Atoi seg of Some _ \<Rightarrow> ''['' @ seg @ '']'' | None \<Rightarrow> ''.'' @ seg) concrete)"

type_synonym ref_acc = "InputRendered list \<times> RefBinding list"

definition emitDecl ::
  "ConnectionDecl \<Rightarrow> string list \<Rightarrow> gval \<Rightarrow> bool \<Rightarrow> string \<Rightarrow> ref_acc \<Rightarrow> (ref_error, ref_acc) result" where
  "emitDecl decl concrete val inContext releaseNamespace = (\<lambda>(generated, bindings).
     let alias = formatAlias concrete inContext
     in case val of
          GStr name \<Rightarrow>
            if name = '''' then if cd_Required decl then Err (NameRequired alias) else Ok (generated, bindings)
            else Ok (generated @ [\<lparr>in_Contract = cd_Contract decl, in_Kind = cd_KindFilter decl, in_ConnectionName = name,
                        in_ConnectionNamespace = (if cd_KindFilter decl \<noteq> ''ClusterConnection'' then releaseNamespace else ''''),
                        in_ReleaseName = '''', in_ReleaseNamespace = '''', in_ReleaseOutput = '''', in_Alias = alias,
                        in_Optional = False, in_AllowMultiple = False, in_contractLookupNamespace = ''''\<rparr>],
                     bindings @ [\<lparr>rb_Alias = alias, rb_Path = concrete, rb_InContext = inContext\<rparr>])
        | _ \<Rightarrow> Err (NotAName alias))"

fun expandDecl ::
  "ConnectionDecl \<Rightarrow> string list \<Rightarrow> string list \<Rightarrow> gval \<Rightarrow> bool \<Rightarrow> string \<Rightarrow> ref_acc \<Rightarrow> (ref_error, ref_acc) result" where
  "expandDecl decl [] concrete node inContext ns acc = emitDecl decl concrete node inContext ns acc"
| "expandDecl decl (seg # rest) concrete node inContext ns acc =
     (if seg = ''[]''
      then (case node of
              GList list \<Rightarrow>
                rfold (\<lambda>acc item. expandDecl decl rest (concrete @ [Itoa (int (fst item))]) (snd item) inContext ns acc) acc (enumerate 0 list)
            | _ \<Rightarrow> Ok acc)
      else (case node of
              GMap nodeMap \<Rightarrow>
                (case map_of nodeMap seg of
                   None \<Rightarrow> if cd_Required decl \<and> rest = [] then Err (NameRequired (formatAlias (concrete @ [seg]) inContext)) else Ok acc
                 | Some child \<Rightarrow> expandDecl decl rest (concrete @ [seg]) child inContext ns acc)
            | _ \<Rightarrow> Ok acc))"

definition generateFromDecls ::
  "ConnectionDecl list \<Rightarrow> gmap \<Rightarrow> bool \<Rightarrow> string \<Rightarrow> ref_acc \<Rightarrow> (ref_error, ref_acc) result" where
  "generateFromDecls decls tree inContext ns acc =
     rfold (\<lambda>acc decl. expandDecl decl (cd_Path decl) [] (GMap tree) inContext ns acc) acc decls"

definition GenerateRefInputs ::
  "ConnectionDecl list \<Rightarrow> ConnectionDecl list \<Rightarrow> gmap \<Rightarrow> gmap \<Rightarrow> string \<Rightarrow> InputRendered list \<Rightarrow> (ref_error, ref_acc) result" where
  "GenerateRefInputs paramDecls contextDecls parameters context ns stanzaInputs =
     rbind (generateFromDecls paramDecls parameters False ns ([], [])) (\<lambda>acc.
     rbind (generateFromDecls contextDecls context True ns acc) (\<lambda>acc.
       case find (\<lambda>gi. in_Alias gi \<in> in_Alias ` set stanzaInputs) (fst acc) of
         Some gi \<Rightarrow> Err (StanzaCollision (in_Alias gi))
       | None \<Rightarrow> Ok acc))"

section \<open>Substitution\<close>

fun setAtPath :: "gval \<Rightarrow> string list \<Rightarrow> gval \<Rightarrow> (set_error, gval) result" where
  "setAtPath node [] val = Err EmptyPath"
| "setAtPath node (seg # path) val =
     (case Atoi seg of
        Some idx \<Rightarrow>
          (case node of
             GList list \<Rightarrow>
               if idx \<ge> int (length list) then Err (NotListOrOutOfRange seg)
               else if idx < 0 then Err (IndexPanic seg)
               else rbind (if path = [] then Ok val else setAtPath (list ! nat idx) path val) (\<lambda>child.
                    Ok (GList (list[nat idx := child])))
           | _ \<Rightarrow> Err (NotListOrOutOfRange seg))
      | None \<Rightarrow>
          (case node of
             GMap m \<Rightarrow>
               rbind (if path = [] then Ok val else setAtPath (case map_of m seg of None \<Rightarrow> GNil | Some c \<Rightarrow> c) path val) (\<lambda>child.
                 Ok (GMap (mput seg child m)))
           | _ \<Rightarrow> Err (NotAMap seg)))"

text \<open>The input model, the parameters and the context.\<close>

type_synonym trees = "gmap \<times> gval \<times> gval"

definition applyBinding :: "trees \<Rightarrow> RefBinding \<Rightarrow> (ref_error, trees) result" where
  "applyBinding = (\<lambda>(inputModel, parameters, context) b.
     (case map_of inputModel (rb_Alias b) of
        None \<Rightarrow> Err (NoResolvedValues (rb_Alias b))
      | Some vals \<Rightarrow>
          if rb_InContext b
          then rbind (wrap_err (Substitution (rb_Alias b)) (setAtPath context (rb_Path b) vals)) (\<lambda>context'.
               Ok (mdel (rb_Alias b) inputModel, parameters, context'))
          else rbind (wrap_err (Substitution (rb_Alias b)) (setAtPath parameters (rb_Path b) vals)) (\<lambda>parameters'.
               Ok (mdel (rb_Alias b) inputModel, parameters', context))))"

definition ApplyRefBindings :: "RefBinding list \<Rightarrow> trees \<Rightarrow> (ref_error, trees) result" where
  "ApplyRefBindings bindings t = rfold applyBinding t bindings"

section \<open>Templated defaults\<close>

text \<open>\<open>isSetAt\<close>, and the rendering of the defaults that the Release leaves unset; \<open>render\<close> parses and renders a text.\<close>

fun isSetAt :: "gmap \<Rightarrow> string list \<Rightarrow> bool" where
  "isSetAt node [] = False"
| "isSetAt node (seg # path) =
     (if seg = ''[]'' then True
      else (case map_of node seg of
              None \<Rightarrow> False
            | Some val \<Rightarrow> path = [] \<or> (case val of GMap m \<Rightarrow> isSetAt m path | _ \<Rightarrow> True)))"

fun renderRefDefaultAt :: "(string \<Rightarrow> (tmpl_error, string) result) \<Rightarrow> string list \<Rightarrow> gval \<Rightarrow> (tmpl_error, gval) result" where
  "renderRefDefaultAt render [] node = Ok node"
| "renderRefDefaultAt render (seg # path) node =
     (if seg = ''[]''
      then (case node of
              GList list \<Rightarrow> rbind (rmap (renderRefDefaultAt render path) list) (\<lambda>l. Ok (GList l))
            | _ \<Rightarrow> Ok node)
      else (case node of
              GMap nodeMap \<Rightarrow>
                if path = []
                then (case map_of nodeMap seg of
                        Some (GStr val) \<Rightarrow>
                          if Contains val ''{{'' then rbind (render val) (\<lambda>rendered. Ok (GMap (mput seg (GStr rendered) nodeMap)))
                          else Ok node
                      | _ \<Rightarrow> Ok node)
                else (case map_of nodeMap seg of
                        None \<Rightarrow> Ok node
                      | Some child \<Rightarrow> rbind (renderRefDefaultAt render path child) (\<lambda>c. Ok (GMap (mput seg c nodeMap))))
            | _ \<Rightarrow> Ok node))"

definition RenderRefDefaults ::
  "'t engine \<Rightarrow> ConnectionDecl list \<Rightarrow> gval \<Rightarrow> gmap \<Rightarrow> (string \<times> tdata) list \<Rightarrow> (ref_error, gval) result" where
  "RenderRefDefaults eng decls parameters releaseParameters model =
     rfold (\<lambda>tree decl.
       if cd_Default decl = '''' \<or> isSetAt releaseParameters (cd_Path decl) then Ok tree
       else wrap_err (RefDefault (Join ''.'' (cd_Path decl)))
              (renderRefDefaultAt (\<lambda>val. rbind (New_tmpl eng val '''') (\<lambda>t. RenderToSingleLine eng t model)) (cd_Path decl) tree))
       parameters decls"

text \<open>\<open>DeepCopyTree\<close> is the copy of \<open>Values\<close>.\<close>

definition DeepCopyTree :: "gmap \<Rightarrow> gmap" where
  "DeepCopyTree src = (case deepCopy (GMap src) of GMap out \<Rightarrow> out | _ \<Rightarrow> [])"

section \<open>Lemmas on paths\<close>

text \<open>The value at a path of keys and decimal indexes. A canonical path writes each index as \<open>strconv.Itoa\<close> does.\<close>

fun getAt :: "gval \<Rightarrow> string list \<Rightarrow> gval option" where
  "getAt node [] = Some node"
| "getAt node (seg # path) =
     (case Atoi seg of
        Some idx \<Rightarrow> (case node of GList l \<Rightarrow> if 0 \<le> idx \<and> idx < int (length l) then getAt (l ! nat idx) path else None | _ \<Rightarrow> None)
      | None \<Rightarrow> (case node of GMap m \<Rightarrow> (case map_of m seg of None \<Rightarrow> None | Some c \<Rightarrow> getAt c path) | _ \<Rightarrow> None))"

definition canonical :: "string list \<Rightarrow> bool" where
  "canonical path \<longleftrightarrow> (\<forall>seg\<in>set path. case Atoi seg of None \<Rightarrow> True | Some i \<Rightarrow> seg = Itoa i)"

definition apart :: "string list \<Rightarrow> string list \<Rightarrow> bool" where
  "apart p q \<longleftrightarrow> \<not> prefix p q \<and> \<not> prefix q p"

text \<open>A Go slice has fewer than \<open>2 ^ 63\<close> elements.\<close>

definition addressable :: "gval \<Rightarrow> bool" where
  "addressable node \<longleftrightarrow> (\<forall>p l. getAt node p = Some (GList l) \<longrightarrow> length l < 2 ^ 63)"

lemma getAt_append: "getAt node (p @ q) = Option.bind (getAt node p) (\<lambda>n. getAt n q)"
  by (induction p arbitrary: node) (auto split: option.splits gval.splits)

lemma getAt_size: "getAt node p = Some v \<Longrightarrow> size v \<le> size node"
proof (induction p arbitrary: node)
  case (Cons seg p)
  show ?case
  proof (cases "Atoi seg")
    case None
    then obtain m c where m: "node = GMap m" "map_of m seg = Some c" "getAt c p = Some v"
      using Cons.prems by (auto split: gval.splits option.splits)
    show ?thesis using Cons.IH [OF m(3)] size_lookup_gmap [OF m(2)] m(1) by simp
  next
    case (Some idx)
    then obtain l where l: "node = GList l" "0 \<le> idx" "idx < int (length l)" "getAt (l ! nat idx) p = Some v"
      using Cons.prems by (auto split: gval.splits option.splits if_splits)
    have "l ! nat idx \<in> set l" using l(2,3) by (simp add: nat_less_iff)
    then show ?thesis using Cons.IH [OF l(4)] size_mem_glist [of "l ! nat idx" l] l(1) by simp
  qed
qed simp

lemma addressable_size: "size node < 2 ^ 63 \<Longrightarrow> addressable node"
proof -
  have "length l \<le> size (GList l)" for l by (induction l) auto
  then show "size node < 2 ^ 63 \<Longrightarrow> ?thesis" unfolding addressable_def using getAt_size by (meson le_less_trans order_trans)
qed

lemma getAt_leaf: "getAt (GStr s) q = Some v \<Longrightarrow> q = []"
  by (cases q) (auto split: option.splits)

lemma setAtPath_frame:
  assumes "getAt node p = Some x" "p \<noteq> []" "canonical p"
  shows "\<exists>n'. setAtPath node p v = Inr n' \<and> getAt n' p = Some v \<and> (\<forall>q. canonical q \<longrightarrow> apart p q \<longrightarrow> getAt n' q = getAt node q)"
  using assms
proof (induction p arbitrary: node)
  case (Cons seg p)
  show ?case
  proof (cases "Atoi seg")
    case None
    then obtain m c where m: "node = GMap m" "map_of m seg = Some c" "getAt c p = Some x"
      using Cons.prems(1) by (auto split: gval.splits option.splits)
    obtain c' where c: "(if p = [] then Inr v else setAtPath c p v) = Inr c'" "getAt c' p = Some v"
      and f: "\<And>q. canonical q \<Longrightarrow> apart p q \<Longrightarrow> getAt c' q = getAt c q"
      using Cons.IH [OF m(3)] Cons.prems(3) by (cases "p = []") (auto simp: canonical_def apart_def)
    have "getAt (GMap (mput seg c' m)) q = getAt node q" if "canonical q" "apart (seg # p) q" for q
      using that m f None by (cases q) (auto simp: apart_def canonical_def split: option.splits)
    then show ?thesis using m c None by auto
  next
    case (Some idx)
    then obtain l where l: "node = GList l" "0 \<le> idx" "idx < int (length l)" "getAt (l ! nat idx) p = Some x"
      using Cons.prems(1) by (auto split: gval.splits option.splits if_splits)
    obtain c' where c: "(if p = [] then Inr v else setAtPath (l ! nat idx) p v) = Inr c'" "getAt c' p = Some v"
      and f: "\<And>q. canonical q \<Longrightarrow> apart p q \<Longrightarrow> getAt c' q = getAt (l ! nat idx) q"
      using Cons.IH [OF l(4)] Cons.prems(3) by (cases "p = []") (auto simp: canonical_def apart_def)
    have can: "canonical (seg # p)" by (rule Cons.prems(3))
    have "getAt (GList (l[nat idx := c'])) q = getAt node q" if q: "canonical q" "apart (seg # p) q" for q
    proof (cases q)
      case (Cons seg' q')
      show ?thesis
      proof (cases "Atoi seg' = Some idx")
        case True
        then have "seg' = seg" using Some q(1) can unfolding Cons canonical_def by (auto split: option.splits)
        then have "canonical q'" "apart p q'" using q unfolding Cons by (simp_all add: apart_def canonical_def)
        then show ?thesis using f [of q'] True l unfolding Cons by simp
      next
        case False
        then show ?thesis using l unfolding Cons by (auto simp: nth_list_update split: option.splits)
      qed
    qed (use q in \<open>simp add: apart_def\<close>)
    then show ?thesis using l c Some by auto
  qed
qed simp

section \<open>Lemmas on the generated inputs\<close>

text \<open>A binding of a tree points at a connection name of it, under its alias.\<close>

definition binds :: "gval \<Rightarrow> gval \<Rightarrow> RefBinding \<Rightarrow> bool" where
  "binds parameters kctx b \<longleftrightarrow> rb_Alias b = formatAlias (rb_Path b) (rb_InContext b) \<and> canonical (rb_Path b) \<and> rb_Path b \<noteq> []
     \<and> (\<exists>name. name \<noteq> '''' \<and> getAt (if rb_InContext b then kctx else parameters) (rb_Path b) = Some (GStr name))"

definition ref_ok :: "gmap \<Rightarrow> gmap \<Rightarrow> ref_acc \<Rightarrow> bool" where
  "ref_ok parameters kctx acc \<longleftrightarrow> map in_Alias (fst acc) = map rb_Alias (snd acc)
     \<and> (\<forall>b\<in>set (snd acc). binds (GMap parameters) (GMap kctx) b)
     \<and> (\<forall>i\<in>set (fst acc). \<not> in_Optional i \<and> \<not> in_AllowMultiple i \<and> in_ConnectionName i \<noteq> '''' \<and> in_ReleaseName i = '''')"

definition clean_path :: "string list \<Rightarrow> bool" where
  "clean_path path \<longleftrightarrow> (\<forall>seg\<in>set path. seg \<noteq> ''[]'' \<longrightarrow> Atoi seg = None)"

lemma emitDecl_ok:
  assumes "emitDecl decl concrete node inContext ns acc = Inr acc'" "ref_ok parameters kctx acc"
    and "canonical concrete" "getAt (GMap (if inContext then kctx else parameters)) concrete = Some node"
  shows "ref_ok parameters kctx acc'"
proof -
  obtain g b where a: "acc = (g, b)" by (cases acc)
  have "concrete \<noteq> []" if "node = GStr name" for name using that assms(4) by auto
  then show ?thesis
    using assms unfolding a by (cases inContext) (auto simp: emitDecl_def ref_ok_def binds_def Let_def split: gval.splits if_splits)
qed

lemma expandDecl_ok:
  assumes "expandDecl decl remaining concrete node inContext ns acc = Inr acc'" "ref_ok parameters kctx acc"
    and "canonical concrete" "getAt (GMap (if inContext then kctx else parameters)) concrete = Some node"
    and "clean_path remaining" "addressable (GMap (if inContext then kctx else parameters))"
  shows "ref_ok parameters kctx acc'"
  using assms
proof (induction remaining arbitrary: concrete node acc acc')
  case Nil
  then show ?case using emitDecl_ok by simp
next
  case (Cons seg rest)
  let ?root = "GMap (if inContext then kctx else parameters)"
  have clean: "clean_path rest" using Cons.prems(5) by (simp add: clean_path_def)
  consider (items) l where "seg = ''[]''" "node = GList l" | (child) m c where "seg \<noteq> ''[]''" "node = GMap m" "map_of m seg = Some c"
    | (stop) "acc' = acc"
    using Cons.prems(1) by (cases node) (auto split: if_splits option.splits)
  then show ?case
  proof cases
    case items
    have len: "length l < 2 ^ 63" using Cons.prems(4,6) items(2) unfolding addressable_def by blast
    have "expandDecl decl (seg # rest) concrete node inContext ns acc
        = rfold (\<lambda>acc item. expandDecl decl rest (concrete @ [Itoa (int (fst item))]) (snd item) inContext ns acc) acc (enumerate 0 l)"
      using items by simp
    then have r: "rfold (\<lambda>acc item. expandDecl decl rest (concrete @ [Itoa (int (fst item))]) (snd item) inContext ns acc) acc (enumerate 0 l) = Inr acc'"
      using Cons.prems(1) by simp
    show ?thesis
    proof (rule rfold_inv [where P = "ref_ok parameters kctx", OF r Cons.prems(2)])
      fix u v item
      assume i: "item \<in> set (enumerate 0 l)" and u: "ref_ok parameters kctx u"
        and e: "expandDecl decl rest (concrete @ [Itoa (int (fst item))]) (snd item) inContext ns u = Inr v"
      have i': "fst item < length l" "snd item = l ! fst item" using i by (auto simp: in_set_enumerate_eq)
      then have at: "Atoi (Itoa (int (fst item))) = Some (int (fst item))" using len by (intro Atoi_Itoa) auto
      have "canonical (concrete @ [Itoa (int (fst item))])" using Cons.prems(3) at by (auto simp: canonical_def)
      moreover have "getAt ?root (concrete @ [Itoa (int (fst item))]) = Some (snd item)"
        using Cons.prems(4) at i' items by (simp add: getAt_append)
      ultimately show "ref_ok parameters kctx v" using Cons.IH [OF e u _ _ clean Cons.prems(6)] by blast
    qed
  next
    case child
    then have at: "Atoi seg = None" using Cons.prems(5) by (simp add: clean_path_def)
    have e: "expandDecl decl rest (concrete @ [seg]) c inContext ns acc = Inr acc'" using Cons.prems(1) child by simp
    have "canonical (concrete @ [seg])" using Cons.prems(3) at by (auto simp: canonical_def)
    moreover have "getAt ?root (concrete @ [seg]) = Some c" using Cons.prems(4) at child by (simp add: getAt_append)
    ultimately show ?thesis using Cons.IH [OF e Cons.prems(2) _ _ clean Cons.prems(6)] by blast
  qed (use Cons.prems in simp)
qed

lemma generateFromDecls_ok:
  assumes "generateFromDecls decls (if inContext then kctx else parameters) inContext ns acc = Inr acc'" "ref_ok parameters kctx acc"
    and "\<forall>d\<in>set decls. clean_path (cd_Path d)" "addressable (GMap (if inContext then kctx else parameters))"
  shows "ref_ok parameters kctx acc'"
  using assms(1) unfolding generateFromDecls_def
  by (rule rfold_inv [where P = "ref_ok parameters kctx", OF _ assms(2)]) (use expandDecl_ok assms(3,4) in \<open>auto simp: canonical_def\<close>)

lemma GenerateRefInputs_ok:
  assumes "GenerateRefInputs paramDecls contextDecls parameters kctx ns stanza = Inr acc"
    and "\<forall>d\<in>set (paramDecls @ contextDecls). clean_path (cd_Path d)" "addressable (GMap parameters)" "addressable (GMap kctx)"
  shows "ref_ok parameters kctx acc"
proof -
  obtain a where p: "generateFromDecls paramDecls parameters False ns ([], []) = Inr a"
    and c: "generateFromDecls contextDecls kctx True ns a = Inr acc"
    using assms(1) by (auto simp: GenerateRefInputs_def rbind_Inr split: option.splits)
  have "ref_ok parameters kctx a"
    using generateFromDecls_ok [of paramDecls False kctx parameters ns "([], [])" a] p assms(2,3) by (simp add: ref_ok_def)
  then show ?thesis
    using generateFromDecls_ok [of contextDecls True kctx parameters ns a acc] c assms(2,4) by simp
qed

section \<open>Lemmas on the substitution\<close>

lemma binds_apart:
  assumes "binds P C a" "binds P C b" "rb_InContext a = rb_InContext b" "rb_Alias a \<noteq> rb_Alias b"
  shows "apart (rb_Path a) (rb_Path b)"
proof -
  have ne: "rb_Path a \<noteq> rb_Path b" using assms by (auto simp: binds_def)
  have leaf: "q = p" if "prefix p q" "getAt t p = Some (GStr s)" "getAt t q = Some v" for p q t s v
    using that getAt_leaf by (auto simp: prefix_def getAt_append)
  obtain s s' where "getAt (if rb_InContext a then C else P) (rb_Path a) = Some (GStr s)"
    "getAt (if rb_InContext a then C else P) (rb_Path b) = Some (GStr s')"
    using assms(1-3) unfolding binds_def by metis
  then show ?thesis unfolding apart_def using ne leaf by metis
qed

lemma apart_sym: "apart p q \<Longrightarrow> apart q p"
  by (auto simp: apart_def)

lemma binds_kept:
  assumes "binds P C b"
    and "getAt (if rb_InContext b then C' else P') (rb_Path b) = getAt (if rb_InContext b then C else P) (rb_Path b)"
  shows "binds P' C' b"
  using assms by (auto simp: binds_def)

text \<open>One substitution: the values arrive, the other places of both trees stay.\<close>

lemma applyBinding_step:
  assumes "binds P C b" "map_of im (rb_Alias b) = Some v"
  obtains P' C' where "applyBinding (im, P, C) b = Inr (mdel (rb_Alias b) im, P', C')"
    "getAt (if rb_InContext b then C' else P') (rb_Path b) = Some v"
    "\<And>c q. canonical q \<Longrightarrow> (c = rb_InContext b \<Longrightarrow> apart (rb_Path b) q)
       \<Longrightarrow> getAt (if c then C' else P') q = getAt (if c then C else P) q"
proof (cases "rb_InContext b")
  case True
  then obtain n' where "setAtPath C (rb_Path b) v = Inr n'" "getAt n' (rb_Path b) = Some v"
    "\<forall>q. canonical q \<longrightarrow> apart (rb_Path b) q \<longrightarrow> getAt n' q = getAt C q"
    using setAtPath_frame assms(1) by (fastforce simp: binds_def)
  then show ?thesis using True assms(2) by (intro that [of P n']) (simp_all add: applyBinding_def)
next
  case False
  then obtain n' where "setAtPath P (rb_Path b) v = Inr n'" "getAt n' (rb_Path b) = Some v"
    "\<forall>q. canonical q \<longrightarrow> apart (rb_Path b) q \<longrightarrow> getAt n' q = getAt P q"
    using setAtPath_frame assms(1) by (fastforce simp: binds_def)
  then show ?thesis using False assms(2) by (intro that [of n' C]) (simp_all add: applyBinding_def)
qed

lemma ApplyRefBindings_substitute:
  assumes "\<forall>b\<in>set bs. binds P C b" "distinct (map rb_Alias bs)" "\<forall>b\<in>set bs. mhas im (rb_Alias b)"
  shows "\<exists>im' P' C'. ApplyRefBindings bs (im, P, C) = Inr (im', P', C')
     \<and> (\<forall>b\<in>set bs. getAt (if rb_InContext b then C' else P') (rb_Path b) = map_of im (rb_Alias b))
     \<and> (\<forall>c q. canonical q \<longrightarrow> (\<forall>b\<in>set bs. rb_InContext b = c \<longrightarrow> apart (rb_Path b) q)
          \<longrightarrow> getAt (if c then C' else P') q = getAt (if c then C else P) q)
     \<and> map_of im' = map_of im |` (- rb_Alias ` set bs)"
  using assms
proof (induction bs arbitrary: im P C)
  case Nil
  then show ?case by (simp add: ApplyRefBindings_def)
next
  case (Cons b bs)
  obtain v where v: "map_of im (rb_Alias b) = Some v" using Cons.prems(3) by (auto simp: mhas_def)
  obtain P1 C1 where s: "applyBinding (im, P, C) b = Inr (mdel (rb_Alias b) im, P1, C1)"
    and g: "getAt (if rb_InContext b then C1 else P1) (rb_Path b) = Some v"
    and f: "\<And>c q. canonical q \<Longrightarrow> (c = rb_InContext b \<Longrightarrow> apart (rb_Path b) q)
       \<Longrightarrow> getAt (if c then C1 else P1) q = getAt (if c then C else P) q"
    using applyBinding_step [OF _ v, of P C] Cons.prems(1) by (metis list.set_intros(1))
  have apart: "apart (rb_Path b) (rb_Path x) \<and> apart (rb_Path x) (rb_Path b)" if "x \<in> set bs" "rb_InContext x = rb_InContext b" for x
    using binds_apart [of P C b x] apart_sym that Cons.prems(1,2) by force
  have b1: "\<forall>x\<in>set bs. binds P1 C1 x"
  proof
    fix x
    assume x: "x \<in> set bs"
    have "canonical (rb_Path x)" using Cons.prems(1) x by (simp add: binds_def)
    then show "binds P1 C1 x" using binds_kept [of P C x] Cons.prems(1) f [of "rb_Path x" "rb_InContext x"] apart x by auto
  qed
  have fresh: "rb_Alias x \<noteq> rb_Alias b" if "x \<in> set bs" for x using Cons.prems(2) that by (auto simp: image_iff)
  then have "\<forall>x\<in>set bs. mhas (mdel (rb_Alias b) im) (rb_Alias x)" using Cons.prems(3) by (auto simp: mhas_def)
  then obtain im' P' C' where r: "ApplyRefBindings bs (mdel (rb_Alias b) im, P1, C1) = Inr (im', P', C')"
      "\<forall>x\<in>set bs. getAt (if rb_InContext x then C' else P') (rb_Path x) = map_of (mdel (rb_Alias b) im) (rb_Alias x)"
      "map_of im' = map_of (mdel (rb_Alias b) im) |` (- rb_Alias ` set bs)"
    and f': "\<And>c q. canonical q \<Longrightarrow> \<forall>x\<in>set bs. rb_InContext x = c \<longrightarrow> apart (rb_Path x) q
       \<Longrightarrow> getAt (if c then C' else P') q = getAt (if c then C1 else P1) q"
    using Cons.IH [OF b1, of "mdel (rb_Alias b) im"] Cons.prems(2) unfolding list.map distinct.simps by blast
  have "ApplyRefBindings (b # bs) (im, P, C) = Inr (im', P', C')" using r(1) s by (simp add: ApplyRefBindings_def)
  moreover have "\<forall>x\<in>set (b # bs). getAt (if rb_InContext x then C' else P') (rb_Path x) = map_of im (rb_Alias x)"
    using r(2) g v f' [of "rb_Path b" "rb_InContext b"] apart fresh Cons.prems(1) by (auto simp: binds_def)
  moreover have "\<forall>c q. canonical q \<longrightarrow> (\<forall>x\<in>set (b # bs). rb_InContext x = c \<longrightarrow> apart (rb_Path x) q)
      \<longrightarrow> getAt (if c then C' else P') q = getAt (if c then C else P) q"
    using f f' by (metis list.set_intros(1,2))
  moreover have "map_of im' = map_of im |` (- rb_Alias ` set (b # bs))"
    unfolding r(3) by (auto simp: restrict_map_def fun_eq_iff)
  ultimately show ?case by blast
qed

section \<open>Lemmas on the aliases\<close>

text \<open>A segment that cannot be confused with the punctuation of an alias.\<close>

definition plain_segment :: "string \<Rightarrow> bool" where
  "plain_segment seg \<longleftrightarrow> CHR ''.'' \<notin> set seg \<and> CHR ''['' \<notin> set seg"

lemma segments_injective:
  assumes "concat (map (\<lambda>seg. case Atoi seg of Some _ \<Rightarrow> ''['' @ seg @ '']'' | None \<Rightarrow> ''.'' @ seg) p)
      = concat (map (\<lambda>seg. case Atoi seg of Some _ \<Rightarrow> ''['' @ seg @ '']'' | None \<Rightarrow> ''.'' @ seg) q)"
    and "\<forall>seg\<in>set p. plain_segment seg" "\<forall>seg\<in>set q. plain_segment seg"
  shows "p = q"
proof -
  define F where "F seg = (case Atoi seg of Some _ \<Rightarrow> ''['' @ seg @ '']'' | None \<Rightarrow> ''.'' @ seg)" for seg
  define stop where "stop c \<longleftrightarrow> c \<noteq> CHR ''.'' \<and> c \<noteq> CHR ''[''" for c
  have tw: "takeWhile stop (tl (F s) @ concat (map F r)) = tl (F s)" "dropWhile stop (tl (F s) @ concat (map F r)) = concat (map F r)"
    if "plain_segment s" for s r
  proof -
    have all: "c \<in> set (tl (F s)) \<Longrightarrow> stop c" for c
      using that by (auto simp: F_def stop_def plain_segment_def split: option.splits)
    have "concat (map F r) = [] \<or> \<not> stop (hd (concat (map F r)))"
      by (cases r) (auto simp: F_def stop_def split: option.splits)
    then have "takeWhile stop (concat (map F r)) = []" "dropWhile stop (concat (map F r)) = concat (map F r)"
      using takeWhile_eq_Nil_iff dropWhile_eq_self_iff by blast+
    then show "takeWhile stop (tl (F s) @ concat (map F r)) = tl (F s)" "dropWhile stop (tl (F s) @ concat (map F r)) = concat (map F r)"
      using all by (simp_all add: takeWhile_append2 dropWhile_append2)
  qed
  have inj: "s = t" if "hd (F s) = hd (F t)" "tl (F s) = tl (F t)" for s t
    using that by (auto simp: F_def split: option.splits)
  have ne: "F s = hd (F s) # tl (F s)" for s by (auto simp: F_def split: option.splits)
  have "p = q" if "concat (map F p) = concat (map F q)" "\<forall>seg\<in>set p. plain_segment seg" "\<forall>seg\<in>set q. plain_segment seg"
    using that
  proof (induction p arbitrary: q)
    case Nil
    have "F (hd q) = []" if "q \<noteq> []" using that Nil(1) by (cases q) auto
    moreover have "F (hd q) \<noteq> []" using ne [of "hd q"] by (metis list.distinct(1))
    ultimately show ?case by auto
  next
    case (Cons s p)
    then obtain t r where q: "q = t # r"
      using ne [of s] by (cases q) (metis Nil_is_append_conv concat.simps list.distinct(1) list.map)+
    have e: "hd (F s) = hd (F t)" "tl (F s) @ concat (map F p) = tl (F t) @ concat (map F r)"
      using arg_cong [OF Cons.prems(1), of hd] arg_cong [OF Cons.prems(1), of tl] ne [of s] ne [of t] unfolding q
      by (metis append_Cons concat.simps(2) list.sel(1) list.simps(9), metis append_Cons concat.simps(2) list.sel(3) list.simps(9))
    have "tl (F s) = tl (F t)" "concat (map F p) = concat (map F r)"
      using tw [of s p] tw [of t r] e(2) Cons.prems(2,3) unfolding q by auto
    then show ?case using inj [of s t] e(1) Cons.IH [of r] Cons.prems(2,3) unfolding q by simp
  qed
  then show ?thesis using assms unfolding F_def by blast
qed

section \<open>Properties\<close>

text \<open>C25: the connection references of a Release are substituted where they are declared. For the bindings generated from
  the declarations, with distinct aliases that the input model all resolves, the substitution succeeds; every
  declared place then holds the resolved values; every place of both trees that is not above or below one stays as it
  was; and exactly the generated entries are gone from the input model.\<close>

theorem ApplyRefBindings_correct:
  assumes "GenerateRefInputs paramDecls contextDecls parameters kctx ns stanza = Ok (generated, bindings)"
    and "\<forall>d\<in>set (paramDecls @ contextDecls). clean_path (cd_Path d)" "addressable (GMap parameters)" "addressable (GMap kctx)"
    and "distinct (map in_Alias generated)" "\<forall>i\<in>set generated. mhas inputModel (in_Alias i)"
  shows "\<exists>inputModel' P C. ApplyRefBindings bindings (inputModel, GMap parameters, GMap kctx) = Ok (inputModel', P, C)
     \<and> (\<forall>b\<in>set bindings. getAt (if rb_InContext b then C else P) (rb_Path b) = map_of inputModel (rb_Alias b))
     \<and> (\<forall>c q. canonical q \<longrightarrow> (\<forall>b\<in>set bindings. rb_InContext b = c \<longrightarrow> apart (rb_Path b) q)
          \<longrightarrow> getAt (if c then C else P) q = getAt (if c then GMap kctx else GMap parameters) q)
     \<and> map_of inputModel' = map_of inputModel |` (- in_Alias ` set generated)"
proof -
  have r: "map in_Alias generated = map rb_Alias bindings" "\<forall>b\<in>set bindings. binds (GMap parameters) (GMap kctx) b"
    using GenerateRefInputs_ok [OF assms(1-4)] by (simp_all add: ref_ok_def)
  then have a: "in_Alias ` set generated = rb_Alias ` set bindings" by (metis list.set_map)
  then have "\<forall>b\<in>set bindings. mhas inputModel (rb_Alias b)" using assms(6) by (metis image_iff)
  from ApplyRefBindings_substitute [OF r(2) _ this] show ?thesis using assms(5) unfolding r(1) a by blast
qed

text \<open>An alias names its place: over segments without a dot or an opening bracket, two declarations have the same alias
  only if they are the same path of the same tree.\<close>

theorem formatAlias_injective:
  assumes "formatAlias p c = formatAlias q d" "\<forall>seg\<in>set p \<union> set q. plain_segment seg"
  shows "p = q \<and> c = d"
proof -
  have "c = d" using assms(1) by (auto simp: formatAlias_def split: if_splits)
  then show ?thesis using assms segments_injective [of p q] unfolding formatAlias_def by auto
qed

section \<open>Witnesses\<close>

text \<open>Two connections, one in a list, and their resolved values.\<close>

definition sample_decl :: "string list \<Rightarrow> ConnectionDecl" where
  "sample_decl path = \<lparr>cd_Path = path, cd_Contract = ''sql'', cd_Required = True, cd_Default = '''', cd_KindFilter = ''''\<rparr>"

definition sample_params :: gmap where
  "sample_params = [(''db'', GStr ''pg''), (''sources'', GList [GMap [(''cnx'', GStr ''s0'')]]), (''size'', GInt 3)]"

definition sample_refs :: ref_acc where
  "sample_refs = (case GenerateRefInputs [sample_decl [''db''], sample_decl [''sources'', ''[]'', ''cnx'']] [] sample_params [] ''n'' []
     of Inr acc \<Rightarrow> acc | Inl _ \<Rightarrow> ([], []))"

lemma Atoi_names: "Atoi ''db'' = None" "Atoi ''sources'' = None" "Atoi ''cnx'' = None" "Atoi ''size'' = None" "Atoi ''a.b'' = None" "Atoi ''a'' = None"
    "Atoi ''b'' = None" "Atoi ''0'' = Some 0"
  by (simp_all add: Atoi_def is_digit_iff digits_val_def digit_val_def)

lemma Itoa_0 [simp]: "Itoa 0 = ''0''"
  by (simp add: Itoa_def nat_digits.simps digit_char_def, code_simp)

lemma sample_refs_value:
  "GenerateRefInputs [sample_decl [''db''], sample_decl [''sources'', ''[]'', ''cnx'']] [] sample_params [] ''n'' [] = Ok sample_refs"
  "map in_Alias (fst sample_refs) = [''parameters.db'', ''parameters.sources[0].cnx'']"
  by (simp_all add: sample_refs_def GenerateRefInputs_def generateFromDecls_def sample_decl_def sample_params_def emitDecl_def
      formatAlias_def Atoi_names Let_def)

lemma sample_addressable: "addressable (GMap sample_params)" "addressable (GMap [])"
  by (rule addressable_size, simp add: sample_params_def)+

theorem ApplyRefBindings_correct_witness:
  "\<exists>inputModel' P C. ApplyRefBindings (snd sample_refs)
       ([(''parameters.db'', GMap [(''host'', GStr ''h'')]), (''parameters.sources[0].cnx'', GMap []), (''mine'', GNil)], GMap sample_params, GMap [])
     = Ok (inputModel', P, C)"
proof -
  obtain g b where r: "sample_refs = (g, b)" by (cases sample_refs)
  have "clean_path (cd_Path (sample_decl [''db'']))" "clean_path (cd_Path (sample_decl [''sources'', ''[]'', ''cnx'']))"
    by (simp_all add: sample_decl_def clean_path_def Atoi_names)
  moreover have al: "map in_Alias g = [''parameters.db'', ''parameters.sources[0].cnx'']" using sample_refs_value(2) unfolding r fst_conv .
  moreover have "\<forall>i\<in>set g. in_Alias i \<in> set [''parameters.db'', ''parameters.sources[0].cnx'']"
    using al by (metis image_eqI set_map)
  ultimately have "\<exists>inputModel' P C. ApplyRefBindings b
       ([(''parameters.db'', GMap [(''host'', GStr ''h'')]), (''parameters.sources[0].cnx'', GMap []), (''mine'', GNil)], GMap sample_params, GMap [])
     = Ok (inputModel', P, C)"
    using ApplyRefBindings_correct [of "[sample_decl [''db''], sample_decl [''sources'', ''[]'', ''cnx'']]" "[]" sample_params "[]" "''n''" "[]" g b
        "[(''parameters.db'', GMap [(''host'', GStr ''h'')]), (''parameters.sources[0].cnx'', GMap []), (''mine'', GNil)]"]
      sample_refs_value(1) sample_addressable r by (fastforce simp: mhas_def)
  then show ?thesis unfolding r snd_conv .
qed

theorem formatAlias_injective_witness: "formatAlias [''db''] False \<noteq> formatAlias [''db''] True"
  using formatAlias_injective [of "[''db'']" False "[''db'']" True] by (auto simp: plain_segment_def)

text \<open>
  With a dot in a property name two places share an alias: the second substitution then finds no values, although
  both connections were resolved.
\<close>

lemma dotted_names_collide:
  "formatAlias [''a.b''] False = formatAlias [''a'', ''b''] False"
  "ApplyRefBindings [\<lparr>rb_Alias = ''parameters.a.b'', rb_Path = [''a.b''], rb_InContext = False\<rparr>,
       \<lparr>rb_Alias = ''parameters.a.b'', rb_Path = [''a'', ''b''], rb_InContext = False\<rparr>]
     ([(''parameters.a.b'', GMap [])], GMap [(''a.b'', GStr ''x''), (''a'', GMap [(''b'', GStr ''y'')])], GMap [])
   = Err (NoResolvedValues ''parameters.a.b'')"
  by (simp_all add: formatAlias_def Atoi_names ApplyRefBindings_def applyBinding_def mdel_code)

end
