(* ===== verification/InputModel.thy ===== *)
theory InputModel
  imports ParamRefs K8s "HOL-Library.Product_Lexorder" "HOL-Library.Multiset"
begin

text \<open>
  \<open>internal/controller/release_buildinputmodel.go\<close>: the connections that the inputs of a package stand for. Each input is
  looked up by connection, by release or by contract; the candidates are filtered, one is elected by priority, and its
  values enter the model of the templates. What is not found yet becomes a message, which gates the Release.

  The lookups read the API server: they are the record \<open>bim_helper\<close>. The order in which \<open>sort.Slice\<close> leaves the elected
  connections is open where the comparison does not decide: the sort is a parameter, and the locale \<open>elected_sort\<close> is what
  \<open>sort.Slice\<close> documents.
\<close>

section \<open>The state and the lookups\<close>

record find_error =
  fe_base :: api_err
  fe_fatal :: bool
  fe_reason :: string

datatype bim_error =
    GetFailed nat Kind string
  | OtherContract nat
  | ListFailed nat Kind string bool string
  | ValuesNotMap nat
  | MissingInformation nat

record bim_helper =
  bh_Get :: "Kind \<Rightarrow> NamespacedName \<Rightarrow> (api_err, ConnectionFacade) result"
  bh_FindFromRelease :: "Kind \<Rightarrow> NamespacedName \<Rightarrow> (find_error, ConnectionFacade list) result"
  bh_FindFromContract :: "Kind \<Rightarrow> string \<Rightarrow> string \<Rightarrow> (find_error, ConnectionFacade list) result"
  bh_UnmarshalStrict :: "JSON \<Rightarrow> (string, gmap) result"
  bh_sort :: "ConnectionFacade list \<Rightarrow> ConnectionFacade list"
  bh_sections :: "(string \<times> string list) list"

text \<open>An entry of \<open>EffectiveInputConnections\<close> that is not set is \<open>None\<close>.\<close>

record BuildInputModelResult =
  br_InputModel :: gmap
  br_InputListModel :: "(string \<times> gmap list) list"
  br_Watched :: "InputConnectionReference list"
  br_Effective :: "InputConnectionReference option list"
  br_Messages :: "string list"

abbreviation cnx_GetName :: "ConnectionFacade \<Rightarrow> string" where
  "cnx_GetName c \<equiv> om_Name (cnx_meta c)"

definition cnx_ref :: "ConnectionFacade \<Rightarrow> InputConnectionReference" where
  "cnx_ref c = \<lparr>ic_Kind = cnx_GetKind c, ic_Name = cnx_GetName c, ic_Namespace = om_Namespace (cnx_meta c)\<rparr>"

definition kindText :: "Kind \<Rightarrow> string" where
  "kindText k = (case k of KindConnection \<Rightarrow> ''Connection'' | KindClusterConnection \<Rightarrow> ''ClusterConnection''
     | KindContract \<Rightarrow> ''Contract'' | KindClusterContract \<Rightarrow> ''ClusterContract'')"

definition wantsKind :: "InputRendered \<Rightarrow> Kind \<Rightarrow> bool" where
  "wantsKind input kind \<longleftrightarrow> in_Kind input = '''' \<or> in_Kind input = kindText kind"

section \<open>Electing a connection\<close>

definition parseValue :: "bim_helper \<Rightarrow> nat \<Rightarrow> ConnectionFacade \<Rightarrow> (bim_error, gmap) result" where
  "parseValue h idx conn =
     (case cnx_GetValuesRaw conn of
        None \<Rightarrow> Ok []
      | Some raw \<Rightarrow> (case bh_UnmarshalStrict h raw of Inl _ \<Rightarrow> Err (ValuesNotMap idx) | Inr m \<Rightarrow> Ok m))"

text \<open>The comparison that is given to \<open>sort.Slice\<close>: higher priority first, then the greater name.\<close>

definition elected_before :: "ConnectionFacade \<Rightarrow> ConnectionFacade \<Rightarrow> bool" where
  "elected_before a b =
     (if cnx_GetPriority a = cnx_GetPriority b then cnx_GetName a > cnx_GetName b else cnx_GetPriority a > cnx_GetPriority b)"

definition possible :: "InputRendered \<Rightarrow> ConnectionFacade \<Rightarrow> bool" where
  "possible input c \<longleftrightarrow> cnx_GetContract c = in_Contract input
     \<and> (in_ReleaseName input \<noteq> '''' \<and> in_ReleaseOutput input \<noteq> '''' \<longrightarrow> in_ReleaseOutput input = cnx_GetOutputName c)"

definition waitingMessage :: "nat \<Rightarrow> InputRendered \<Rightarrow> ConnectionFacade list \<Rightarrow> string" where
  "waitingMessage idx input poss =
     (let start = ''input#'' @ nat_digits (idx + 1) @ '': Waiting for '';
          mess = (if in_ReleaseName input \<noteq> ''''
                  then start @ ''connection from release '' @ [CHR 0x27] @ in_ReleaseNamespace input @ '':'' @ in_ReleaseName input @ [CHR 0x27]
                  else if in_ConnectionName input \<noteq> ''''
                  then start @ ''connection '' @ [CHR 0x27] @ in_ConnectionNamespace input @ '':'' @ in_ConnectionName input @ [CHR 0x27]
                  else if in_contractLookupNamespace input \<noteq> ''''
                  then start @ ''a connection with contract '' @ [CHR 0x27] @ in_Contract input @ [CHR 0x27] @ '' in namespace '' @ [CHR 0x27]
                    @ in_contractLookupNamespace input @ [CHR 0x27] @ '' or cluster scoped''
                  else start @ ''a connection with contract '' @ [CHR 0x27] @ in_Contract input @ [CHR 0x27])
      in if poss = [] then mess else mess @ ''  ('' @ Join '', '' (map cnx_GetName poss) @ '' not ready)'')"

definition electValues ::
  "bim_helper \<Rightarrow> nat \<Rightarrow> InputRendered \<Rightarrow> ConnectionFacade \<Rightarrow> BuildInputModelResult \<Rightarrow> (bim_error, BuildInputModelResult) result" where
  "electValues h idx input c r =
     rbind (parseValue h idx c) (\<lambda>vals.
       Ok (r\<lparr>br_InputModel := mput (in_Alias input) (GMap vals) (br_InputModel r),
             br_Effective := (br_Effective r)[idx := Some (cnx_ref c)]\<rparr>))"

text \<open>\<open>bimFilterConnection\<close>: the collector is changed in place, also when an error is returned.\<close>

definition bimFilterConnection ::
  "bim_helper \<Rightarrow> ConnectionFacade list \<Rightarrow> nat \<Rightarrow> InputRendered \<Rightarrow> BuildInputModelResult \<Rightarrow> bim_error option \<times> BuildInputModelResult" where
  "bimFilterConnection h connections idx input r0 =
     (let poss = filter (possible input) connections;
          elected = filter (\<lambda>c. cnx_GetStatusPhase c = ConnectionPhaseReady) poss;
          r = r0\<lparr>br_Watched := br_Watched r0 @ map cnx_ref poss\<rparr>
      in if elected = []
         then (None, if in_Optional input then r else r\<lparr>br_Messages := br_Messages r @ [waitingMessage idx input poss]\<rparr>)
         else if \<not> in_AllowMultiple input
         then if length poss > 1
              then (None, r\<lparr>br_Messages := br_Messages r @ [''input#'' @ nat_digits (idx + 1) @ '': Too many possible connections: ''
                      @ Join '','' (map cnx_GetName poss)]\<rparr>)
              else (case electValues h idx input (hd elected) r of Inl e \<Rightarrow> (Some e, r) | Inr r' \<Rightarrow> (None, r'))
         else let sorted = bh_sort h elected
              in case electValues h idx input (hd sorted) r of
                   Inl e \<Rightarrow> (Some e, r)
                 | Inr r' \<Rightarrow>
                     (case rmap (parseValue h idx) sorted of
                        Inl e \<Rightarrow> (Some e, r')
                      | Inr inputList \<Rightarrow> (None, r'\<lparr>br_InputListModel := mput (in_Alias input) inputList (br_InputListModel r')\<rparr>)))"

section \<open>Looking up an input\<close>

text \<open>One kind: the connection, none when it does not exist, which is then watched.\<close>

definition bimFetchConnectionRef ::
  "bim_helper \<Rightarrow> nat \<Rightarrow> InputRendered \<Rightarrow> Kind \<Rightarrow> BuildInputModelResult \<Rightarrow> (bim_error, ConnectionFacade list) result \<times> BuildInputModelResult" where
  "bimFetchConnectionRef h idx input kind r =
     (let key = nn (in_ConnectionNamespace input) (in_ConnectionName input)
      in case bh_Get h kind key of
           Inl e \<Rightarrow>
             if IsNotFound e
             then (Ok [], r\<lparr>br_Watched := br_Watched r @ [\<lparr>ic_Kind = kind, ic_Name = Name key, ic_Namespace = Namespace key\<rparr>]\<rparr>)
             else (Err (GetFailed idx kind (apiError (bh_sections h) e)), r)
         | Inr c \<Rightarrow> if cnx_GetContract c \<noteq> in_Contract input then (Err (OtherContract idx), r) else (Ok [c], r))"

definition bimHandleConnectionRef ::
  "bim_helper \<Rightarrow> nat \<Rightarrow> InputRendered \<Rightarrow> BuildInputModelResult \<Rightarrow> bim_error option \<times> BuildInputModelResult" where
  "bimHandleConnectionRef h idx input r0 =
     (case (if wantsKind input KindConnection then bimFetchConnectionRef h idx input KindConnection r0 else (Ok [], r0)) of
        (Inl e, r1) \<Rightarrow> (Some e, r1)
      | (Inr cs1, r1) \<Rightarrow>
          (case (if wantsKind input KindClusterConnection then bimFetchConnectionRef h idx input KindClusterConnection r1 else (Ok [], r1)) of
             (Inl e, r2) \<Rightarrow> (Some e, r2)
           | (Inr cs2, r2) \<Rightarrow> bimFilterConnection h (cs1 @ cs2) idx input r2))"

definition listError :: "bim_helper \<Rightarrow> nat \<Rightarrow> Kind \<Rightarrow> find_error \<Rightarrow> bim_error" where
  "listError h idx kind e = ListFailed idx kind (apiError (bh_sections h) (fe_base e)) (fe_fatal e) (fe_reason e)"

text \<open>A lookup by release or by contract: the connections of the kinds wanted, then the cluster connections.\<close>

definition findAll ::
  "bim_helper \<Rightarrow> (Kind \<Rightarrow> (find_error, ConnectionFacade list) result) \<Rightarrow> nat \<Rightarrow> InputRendered \<Rightarrow> (bim_error, ConnectionFacade list) result" where
  "findAll h lookup idx input =
     rbind (if wantsKind input KindConnection then wrap_err (listError h idx KindConnection) (lookup KindConnection) else Ok []) (\<lambda>cs1.
     rbind (if wantsKind input KindClusterConnection then wrap_err (listError h idx KindClusterConnection) (lookup KindClusterConnection) else Ok []) (\<lambda>cs2.
       Ok (cs1 @ cs2)))"

definition bimHandleReleaseRef ::
  "bim_helper \<Rightarrow> nat \<Rightarrow> InputRendered \<Rightarrow> BuildInputModelResult \<Rightarrow> bim_error option \<times> BuildInputModelResult" where
  "bimHandleReleaseRef h idx input r =
     (case findAll h (\<lambda>kind. bh_FindFromRelease h kind (nn (in_ReleaseNamespace input) (in_ReleaseName input))) idx input of
        Inl e \<Rightarrow> (Some e, r)
      | Inr cs \<Rightarrow> bimFilterConnection h cs idx input r)"

definition bimHandleContractConnection ::
  "bim_helper \<Rightarrow> nat \<Rightarrow> InputRendered \<Rightarrow> BuildInputModelResult \<Rightarrow> bim_error option \<times> BuildInputModelResult" where
  "bimHandleContractConnection h idx input r =
     (case findAll h (\<lambda>kind. bh_FindFromContract h kind (in_contractLookupNamespace input) (in_Contract input)) idx input of
        Inl e \<Rightarrow> (Some e, r)
      | Inr cs \<Rightarrow> bimFilterConnection h cs idx input r)"

definition bimHandleInput ::
  "bim_helper \<Rightarrow> nat \<Rightarrow> InputRendered \<Rightarrow> BuildInputModelResult \<Rightarrow> bim_error option \<times> BuildInputModelResult" where
  "bimHandleInput h idx input r =
     (if in_ConnectionName input \<noteq> '''' then bimHandleConnectionRef h idx input r
      else if in_ReleaseName input \<noteq> '''' then bimHandleReleaseRef h idx input r
      else if in_contractLookupNamespace input \<noteq> '''' then bimHandleContractConnection h idx input r
      else (Some (MissingInformation idx), r))"

fun bimLoop ::
  "bim_helper \<Rightarrow> nat \<Rightarrow> InputRendered list \<Rightarrow> BuildInputModelResult \<Rightarrow> bim_error option \<times> BuildInputModelResult" where
  "bimLoop h idx [] r = (None, r)"
| "bimLoop h idx (input # inputs) r =
     (case bimHandleInput h idx input r of
        (Some e, r') \<Rightarrow> (Some e, r')
      | (None, r') \<Rightarrow> bimLoop h (Suc idx) inputs r')"

definition BuildInputModel :: "bim_helper \<Rightarrow> InputRendered list \<Rightarrow> bim_error option \<times> BuildInputModelResult" where
  "BuildInputModel h inputs =
     bimLoop h 0 inputs \<lparr>br_InputModel = [], br_InputListModel = [], br_Watched = [], br_Effective = replicate (length inputs) None,
       br_Messages = []\<rparr>"

section \<open>The order of the elected connections\<close>

locale elected_sort =
  fixes sortElected :: "ConnectionFacade list \<Rightarrow> ConnectionFacade list"
  assumes perm: "mset (sortElected xs) = mset xs"
    and ordered: "i < j \<Longrightarrow> j < length xs \<Longrightarrow> \<not> elected_before (sortElected xs ! j) (sortElected xs ! i)"
begin

lemma same_set: "set (sortElected xs) = set xs"
  using perm mset_eq_setD by blast

lemma same_length: "length (sortElected xs) = length xs"
  using perm mset_eq_length by blast

lemma head_mem: "xs \<noteq> [] \<Longrightarrow> hd (sortElected xs) \<in> set xs"
  using same_set same_length by (metis hd_in_set length_0_conv)

text \<open>No connection comes before the first one.\<close>

lemma head_best:
  assumes "c \<in> set xs"
  shows "\<not> elected_before c (hd (sortElected xs))"
proof -
  obtain j where j: "j < length xs" "sortElected xs ! j = c"
    using assms same_set same_length by (metis in_set_conv_nth)
  have "hd (sortElected xs) = sortElected xs ! 0" using j(1) same_length by (metis hd_conv_nth length_0_conv less_nat_zero_code)
  then show ?thesis using ordered [of 0 j xs] j by (cases "j = 0") (auto simp: elected_before_def)
qed

end

text \<open>The stable sort by that comparison, which \<open>sort.Slice\<close> performs on up to twelve elements.\<close>

definition sortByPriority :: "ConnectionFacade list \<Rightarrow> ConnectionFacade list" where
  "sortByPriority xs = rev (sort_key (\<lambda>c. (cnx_GetPriority c, cnx_GetName c)) (rev xs))"

interpretation sp: elected_sort sortByPriority
proof
  fix xs
  show "mset (sortByPriority xs) = mset xs" by (simp add: sortByPriority_def)
next
  fix i j :: nat and xs :: "ConnectionFacade list"
  assume a: "i < j" "j < length xs"
  let ?k = "\<lambda>c. (cnx_GetPriority c, cnx_GetName c)"
  let ?s = "sort_key ?k (rev xs)"
  have "sorted (map ?k ?s)" by simp
  then have "map ?k ?s ! (length xs - Suc j) \<le> map ?k ?s ! (length xs - Suc i)"
    using a by (intro sorted_nth_mono) auto
  then have "?k (sortByPriority xs ! j) \<le> ?k (sortByPriority xs ! i)"
    using a by (simp add: sortByPriority_def rev_nth)
  then show "\<not> elected_before (sortByPriority xs ! j) (sortByPriority xs ! i)"
    by (auto simp: elected_before_def less_eq_prod_def)
qed

section \<open>What an input resolves to\<close>

text \<open>The connections that the lookup of an input finds, and the one that is elected.\<close>

definition of_kinds :: "InputRendered \<Rightarrow> (Kind \<Rightarrow> ConnectionFacade list) \<Rightarrow> ConnectionFacade list" where
  "of_kinds input lookup =
     (if wantsKind input KindConnection then lookup KindConnection else [])
     @ (if wantsKind input KindClusterConnection then lookup KindClusterConnection else [])"

definition found :: "bim_helper \<Rightarrow> InputRendered \<Rightarrow> ConnectionFacade list" where
  "found h input = of_kinds input (\<lambda>kind.
     if in_ConnectionName input \<noteq> ''''
     then (case bh_Get h kind (nn (in_ConnectionNamespace input) (in_ConnectionName input)) of Inl _ \<Rightarrow> [] | Inr c \<Rightarrow> [c])
     else case (if in_ReleaseName input \<noteq> '''' then bh_FindFromRelease h kind (nn (in_ReleaseNamespace input) (in_ReleaseName input))
                else bh_FindFromContract h kind (in_contractLookupNamespace input) (in_Contract input)) of
            Inl _ \<Rightarrow> [] | Inr cs \<Rightarrow> cs)"

definition candidates :: "bim_helper \<Rightarrow> InputRendered \<Rightarrow> ConnectionFacade list" where
  "candidates h input = filter (possible input) (found h input)"

definition ready_candidates :: "bim_helper \<Rightarrow> InputRendered \<Rightarrow> ConnectionFacade list" where
  "ready_candidates h input = filter (\<lambda>c. cnx_GetStatusPhase c = ConnectionPhaseReady) (candidates h input)"

definition electedOf :: "bim_helper \<Rightarrow> InputRendered \<Rightarrow> ConnectionFacade option" where
  "electedOf h input =
     (if ready_candidates h input = [] then None
      else if in_AllowMultiple input then Some (hd (bh_sort h (ready_candidates h input)))
      else if length (candidates h input) > 1 then None else Some (hd (ready_candidates h input)))"

text \<open>What one input adds to the collector when there is no error.\<close>

definition adds :: "bim_helper \<Rightarrow> nat \<Rightarrow> InputRendered \<Rightarrow> BuildInputModelResult \<Rightarrow> BuildInputModelResult \<Rightarrow> bool" where
  "adds h idx input r r' \<longleftrightarrow>
     (case electedOf h input of
        Some c \<Rightarrow> (\<exists>vals. parseValue h idx c = Ok vals \<and> br_InputModel r' = mput (in_Alias input) (GMap vals) (br_InputModel r)
                    \<and> br_Effective r' = (br_Effective r)[idx := Some (cnx_ref c)] \<and> br_Messages r' = br_Messages r)
      | None \<Rightarrow> br_InputModel r' = br_InputModel r \<and> br_Effective r' = br_Effective r
                 \<and> (if in_Optional input \<and> ready_candidates h input = [] then br_Messages r' = br_Messages r
                    else \<exists>m. br_Messages r' = br_Messages r @ [m]))
     \<and> set (map cnx_ref (candidates h input)) \<subseteq> set (br_Watched r') \<and> set (br_Watched r) \<subseteq> set (br_Watched r')"

lemma bimFilterConnection_adds:
  assumes "bimFilterConnection h (found h input) idx input r1 = (None, r')"
    and "br_InputModel r1 = br_InputModel r" "br_Effective r1 = br_Effective r" "br_Messages r1 = br_Messages r" "set (br_Watched r) \<subseteq> set (br_Watched r1)"
  shows "adds h idx input r r'"
  using assms unfolding bimFilterConnection_def candidates_def [symmetric] ready_candidates_def [symmetric] Let_def
  by (auto simp: adds_def electedOf_def electValues_def rbind_Inr split: if_splits sum.splits)

lemma findAll_found:
  assumes "findAll h lookup idx input = Inr cs"
  shows "cs = of_kinds input (\<lambda>kind. case lookup kind of Inl _ \<Rightarrow> [] | Inr cs \<Rightarrow> cs)"
  using assms by (auto simp: findAll_def of_kinds_def rbind_Inr wrap_err_Inr split: if_splits)

lemma bimFetch_found:
  assumes "bimFetchConnectionRef h idx input kind r = (Inr cs, r')"
  shows "cs = (case bh_Get h kind (nn (in_ConnectionNamespace input) (in_ConnectionName input)) of Inl _ \<Rightarrow> [] | Inr c \<Rightarrow> [c])
    \<and> br_InputModel r' = br_InputModel r \<and> br_Effective r' = br_Effective r \<and> br_Messages r' = br_Messages r \<and> set (br_Watched r) \<subseteq> set (br_Watched r')"
  using assms by (auto simp: bimFetchConnectionRef_def Let_def split: sum.splits if_splits)

lemma bimHandleConnectionRef_adds:
  assumes "bimHandleConnectionRef h idx input r = (None, r')" "in_ConnectionName input \<noteq> ''''"
  shows "adds h idx input r r'"
proof -
  let ?get = "\<lambda>kind. case bh_Get h kind (nn (in_ConnectionNamespace input) (in_ConnectionName input)) of Inl _ \<Rightarrow> [] | Inr c \<Rightarrow> [c]"
  let ?f = "\<lambda>kind r. if wantsKind input kind then bimFetchConnectionRef h idx input kind r else (Ok [], r)"
  obtain cs1 r1 cs2 r2 where s: "?f KindConnection r = (Inr cs1, r1)" "?f KindClusterConnection r1 = (Inr cs2, r2)"
    "bimFilterConnection h (cs1 @ cs2) idx input r2 = (None, r')"
    using assms(1) unfolding bimHandleConnectionRef_def by (auto split: prod.splits sum.splits)
  have step: "cs = (if wantsKind input kind then ?get kind else []) \<and> br_InputModel v = br_InputModel u
      \<and> br_Effective v = br_Effective u \<and> br_Messages v = br_Messages u \<and> set (br_Watched u) \<subseteq> set (br_Watched v)"
    if "?f kind u = (Inr cs, v)" for kind u cs v
    using that bimFetch_found [of h idx input kind u cs v] by (auto split: if_splits)
  have "cs1 @ cs2 = found h input" using step [OF s(1)] step [OF s(2)] assms(2) by (simp add: found_def of_kinds_def)
  then show ?thesis using s(3) step [OF s(1)] step [OF s(2)] by (intro bimFilterConnection_adds [of h input idx r2]) auto
qed

lemma bimHandleInput_adds:
  assumes "bimHandleInput h idx input r = (None, r')"
  shows "adds h idx input r r'"
proof -
  consider (connection) "in_ConnectionName input \<noteq> ''''" "bimHandleConnectionRef h idx input r = (None, r')"
    | (release) cs where "in_ConnectionName input = ''''" "in_ReleaseName input \<noteq> ''''"
        "findAll h (\<lambda>kind. bh_FindFromRelease h kind (nn (in_ReleaseNamespace input) (in_ReleaseName input))) idx input = Inr cs"
        "bimFilterConnection h cs idx input r = (None, r')"
    | (contract) cs where "in_ConnectionName input = ''''" "in_ReleaseName input = ''''"
        "findAll h (\<lambda>kind. bh_FindFromContract h kind (in_contractLookupNamespace input) (in_Contract input)) idx input = Inr cs"
        "bimFilterConnection h cs idx input r = (None, r')"
    using assms by (auto simp: bimHandleInput_def bimHandleReleaseRef_def bimHandleContractConnection_def split: if_splits sum.splits)
  then show ?thesis
  proof cases
    case connection
    then show ?thesis by (intro bimHandleConnectionRef_adds)
  next
    case release
    then have "cs = found h input" using findAll_found [OF release(3)] by (simp add: found_def)
    then show ?thesis using release(4) by (intro bimFilterConnection_adds [of h input idx r]) auto
  next
    case contract
    then have "cs = found h input" using findAll_found [OF contract(3)] by (simp add: found_def)
    then show ?thesis using contract(4) by (intro bimFilterConnection_adds [of h input idx r]) auto
  qed
qed

text \<open>The loop: an input that elects keeps its entry, as long as no later input has its alias.\<close>

definition resolved :: "bim_helper \<Rightarrow> BuildInputModelResult \<Rightarrow> nat \<Rightarrow> InputRendered \<Rightarrow> bool" where
  "resolved h r idx input \<longleftrightarrow>
     (case electedOf h input of
        Some c \<Rightarrow> (\<exists>vals. parseValue h idx c = Ok vals \<and> map_of (br_InputModel r) (in_Alias input) = Some (GMap vals))
                   \<and> br_Effective r ! idx = Some (cnx_ref c)
      | None \<Rightarrow> br_Effective r ! idx = None)"

lemma bimLoop_frame:
  assumes "bimLoop h idx inputs r = (None, r')"
  shows "(\<forall>k<idx. br_Effective r' ! k = br_Effective r ! k) \<and> length (br_Effective r') = length (br_Effective r)
    \<and> (\<forall>a. a \<notin> in_Alias ` set inputs \<longrightarrow> map_of (br_InputModel r') a = map_of (br_InputModel r) a)
    \<and> (\<exists>ms. br_Messages r' = br_Messages r @ ms) \<and> set (br_Watched r) \<subseteq> set (br_Watched r')"
  using assms
proof (induction inputs arbitrary: idx r)
  case (Cons input inputs)
  obtain r1 where s: "bimHandleInput h idx input r = (None, r1)" "bimLoop h (Suc idx) inputs r1 = (None, r')"
    using Cons.prems by (auto split: prod.splits option.splits)
  have "adds h idx input r r1" using bimHandleInput_adds [OF s(1)] .
  then have "(\<forall>k<idx. br_Effective r1 ! k = br_Effective r ! k) \<and> length (br_Effective r1) = length (br_Effective r)
    \<and> (\<forall>a. a \<noteq> in_Alias input \<longrightarrow> map_of (br_InputModel r1) a = map_of (br_InputModel r) a)
    \<and> (\<exists>ms. br_Messages r1 = br_Messages r @ ms) \<and> set (br_Watched r) \<subseteq> set (br_Watched r1)"
    by (auto simp: adds_def split: option.splits if_splits)
  then show ?case using Cons.IH [OF s(2)] by (force simp: less_Suc_eq)
qed simp

lemma bimLoop_resolved:
  assumes "bimLoop h idx inputs r = (None, r')" "distinct (map in_Alias inputs)"
    and "\<forall>k<length inputs. idx + k < length (br_Effective r) \<and> br_Effective r ! (idx + k) = None"
  shows "\<forall>k<length inputs. resolved h r' (idx + k) (inputs ! k)"
  using assms
proof (induction inputs arbitrary: idx r)
  case (Cons input inputs)
  obtain r1 where s: "bimHandleInput h idx input r = (None, r1)" "bimLoop h (Suc idx) inputs r1 = (None, r')"
    using Cons.prems(1) by (auto split: prod.splits option.splits)
  have a: "adds h idx input r r1" using bimHandleInput_adds [OF s(1)] .
  have eff: "length (br_Effective r1) = length (br_Effective r)" "\<And>k. k \<noteq> idx \<Longrightarrow> br_Effective r1 ! k = br_Effective r ! k"
    using a by (auto simp: adds_def split: option.splits)
  have "\<forall>k<length inputs. Suc idx + k < length (br_Effective r1) \<and> br_Effective r1 ! (Suc idx + k) = None"
    using Cons.prems(3) eff by (metis Suc_less_eq add_Suc_shift length_Cons n_not_Suc_n add_Suc not_add_less1 less_add_Suc1)
  then have rest: "\<forall>k<length inputs. resolved h r' (Suc idx + k) (inputs ! k)" using Cons.IH [OF s(2)] Cons.prems(2) by simp
  have "resolved h r1 idx input" using a Cons.prems(3) by (fastforce simp: adds_def resolved_def split: option.splits)
  moreover have "br_Effective r' ! idx = br_Effective r1 ! idx"
    "map_of (br_InputModel r') (in_Alias input) = map_of (br_InputModel r1) (in_Alias input)"
    using bimLoop_frame [OF s(2)] Cons.prems(2) by auto
  ultimately have "resolved h r' idx input" by (auto simp: resolved_def split: option.splits)
  then show ?case using rest by (auto simp: less_Suc_eq_0_disj)
qed simp

lemma bimLoop_messages:
  assumes "bimLoop h idx inputs r = (None, r')" "br_Messages r' = br_Messages r"
  shows "\<forall>input\<in>set inputs. electedOf h input \<noteq> None \<or> in_Optional input \<and> ready_candidates h input = []"
  using assms
proof (induction inputs arbitrary: idx r)
  case (Cons input inputs)
  obtain r1 where s: "bimHandleInput h idx input r = (None, r1)" "bimLoop h (Suc idx) inputs r1 = (None, r')"
    using Cons.prems(1) by (auto split: prod.splits option.splits)
  have a: "adds h idx input r r1" using bimHandleInput_adds [OF s(1)] .
  obtain m1 m2 where m: "br_Messages r1 = br_Messages r @ m1" "br_Messages r' = br_Messages r1 @ m2"
    using a bimLoop_frame [OF s(2)] by (fastforce simp: adds_def split: option.splits if_splits)
  then have e: "br_Messages r1 = br_Messages r" using Cons.prems(2) by simp
  have "electedOf h input \<noteq> None \<or> in_Optional input \<and> ready_candidates h input = []"
    using a e by (auto simp: adds_def split: option.splits if_splits)
  then show ?case using Cons.IH [OF s(2)] Cons.prems(2) e by simp
qed simp

lemma electedOf_best:
  assumes "elected_sort (bh_sort h)" "electedOf h input = Some c"
  shows "c \<in> set (found h input) \<and> possible input c \<and> cnx_GetStatusPhase c = ConnectionPhaseReady
    \<and> (\<forall>c'\<in>set (ready_candidates h input). cnx_GetPriority c' \<le> cnx_GetPriority c)"
proof -
  have ne: "ready_candidates h input \<noteq> []" using assms(2) by (auto simp: electedOf_def)
  have "c \<in> set (ready_candidates h input) \<and> (\<forall>c'\<in>set (ready_candidates h input). \<not> elected_before c' c)"
  proof (cases "in_AllowMultiple input")
    case True
    then have "c = hd (bh_sort h (ready_candidates h input))" using assms(2) ne by (simp add: electedOf_def)
    then show ?thesis
      using elected_sort.head_mem [OF assms(1) ne] elected_sort.head_best [OF assms(1)] by blast
  next
    case False
    then have c: "c = hd (ready_candidates h input)" "length (candidates h input) \<le> 1"
      using assms(2) ne by (auto simp: electedOf_def split: if_splits)
    have "length (ready_candidates h input) \<le> length (candidates h input)" by (simp add: ready_candidates_def)
    then have "length (ready_candidates h input) \<le> 1" using c(2) by simp
    then have "ready_candidates h input = [c]" using c(1) ne by (cases "ready_candidates h input") auto
    then show ?thesis by (simp add: elected_before_def)
  qed
  then show ?thesis
    by (auto simp: ready_candidates_def candidates_def elected_before_def not_less split: if_splits)
qed

lemma adjustInput_complete:
  assumes "adjustInput ns x = Inr input" "ns \<noteq> ''''"
  shows "in_ConnectionName input \<noteq> '''' \<or> in_ReleaseName input \<noteq> '''' \<or> in_contractLookupNamespace input \<noteq> ''''"
  using assms by (auto simp: adjustInput_def Let_def CountNonZero_def split: prod.splits option.splits if_splits)

text \<open>Only the lookup of an input that names nothing ends for want of information.\<close>

definition informed :: "bim_error option \<Rightarrow> bool" where
  "informed e \<longleftrightarrow> (\<forall>k. e \<noteq> Some (MissingInformation k))"

lemma bimFilterConnection_informed: "informed (fst (bimFilterConnection h cs idx input r))"
proof -
  have p: "parseValue h idx c \<noteq> Inl (MissingInformation k)" for c k
    by (auto simp: parseValue_def split: option.splits sum.splits)
  then have m: "rmap (parseValue h idx) xs \<noteq> Inl (MissingInformation k)" for xs k using rmap_Inl by metis
  have e: "electValues h idx input c r \<noteq> Inl (MissingInformation k)" for c k r using p by (auto simp: electValues_def rbind_Inl)
  show ?thesis using m e by (auto simp: informed_def bimFilterConnection_def Let_def split: sum.splits)
qed

lemma bimHandleConnectionRef_informed: "informed (fst (bimHandleConnectionRef h idx input r))"
proof -
  have f: "\<not> informed (Some e) \<Longrightarrow> bimFetchConnectionRef h idx input kind u \<noteq> (Inl e, v)" for e kind u v
    by (auto simp: informed_def bimFetchConnectionRef_def Let_def split: sum.splits if_splits)
  show ?thesis unfolding bimHandleConnectionRef_def
    using f bimFilterConnection_informed by (fastforce split: prod.splits sum.splits if_splits)
qed

lemma bimHandleInput_informed:
  assumes "in_ConnectionName input \<noteq> '''' \<or> in_ReleaseName input \<noteq> '''' \<or> in_contractLookupNamespace input \<noteq> ''''"
  shows "informed (fst (bimHandleInput h idx input r))"
proof -
  have f: "\<not> informed (Some e) \<Longrightarrow> findAll h lookup idx input \<noteq> Inl e" for e lookup
    by (auto simp: informed_def findAll_def rbind_Inl wrap_err_def listError_def split: sum.splits if_splits)
  show ?thesis
    using assms f bimFilterConnection_informed bimHandleConnectionRef_informed
    by (fastforce simp: bimHandleInput_def bimHandleReleaseRef_def bimHandleContractConnection_def split: sum.splits if_splits)
qed

lemma bimLoop_informed:
  assumes "\<forall>input\<in>set inputs. in_ConnectionName input \<noteq> '''' \<or> in_ReleaseName input \<noteq> '''' \<or> in_contractLookupNamespace input \<noteq> ''''"
  shows "informed (fst (bimLoop h idx inputs r))"
  using assms
proof (induction inputs arbitrary: idx r)
  case (Cons input inputs)
  then show ?case using bimHandleInput_informed [of input h idx r] by (auto split: prod.splits option.splits)
qed (simp add: informed_def)

section \<open>Properties\<close>

text \<open>C23: the connection that an input resolves to. When the inputs are handled without an error and have distinct aliases,
  every input that elects a connection has its values in the model and its reference recorded at its index; that
  connection was found by the lookup, has the contract of the input (and its output, when one is named), is READY, and no
  other READY candidate has a higher priority. An input that elects none has no reference.\<close>

theorem BuildInputModel_elects:
  assumes "BuildInputModel h inputs = (None, r)" "distinct (map in_Alias inputs)" "elected_sort (bh_sort h)" "k < length inputs"
  shows "case electedOf h (inputs ! k) of
      Some c \<Rightarrow> br_Effective r ! k = Some (cnx_ref c)
        \<and> (\<exists>vals. parseValue h k c = Ok vals \<and> map_of (br_InputModel r) (in_Alias (inputs ! k)) = Some (GMap vals))
        \<and> c \<in> set (found h (inputs ! k)) \<and> possible (inputs ! k) c \<and> cnx_GetStatusPhase c = ConnectionPhaseReady
        \<and> (\<forall>c'\<in>set (ready_candidates h (inputs ! k)). cnx_GetPriority c' \<le> cnx_GetPriority c)
    | None \<Rightarrow> br_Effective r ! k = None"
proof -
  have "resolved h r k (inputs ! k)"
    using bimLoop_resolved [OF assms(1) [unfolded BuildInputModel_def] assms(2)] assms(4) by simp
  then show ?thesis using electedOf_best [OF assms(3)] by (auto simp: resolved_def split: option.splits)
qed

text \<open>C24: a Release is not gated only when its inputs are resolved. When the inputs are handled without an error and without
  a message, every input that is not optional has elected a READY connection of its contract, and the model holds its
  values.\<close>

theorem BuildInputModel_gates:
  assumes "BuildInputModel h inputs = (None, r)" "br_Messages r = []" "distinct (map in_Alias inputs)" "elected_sort (bh_sort h)"
  shows "\<forall>input\<in>set inputs. in_Optional input \<or> (\<exists>c vals. electedOf h input = Some c \<and> cnx_GetStatusPhase c = ConnectionPhaseReady
     \<and> cnx_GetContract c = in_Contract input \<and> map_of (br_InputModel r) (in_Alias input) = Some (GMap vals))"
proof
  fix input
  assume "input \<in> set inputs"
  then obtain k where k: "k < length inputs" "inputs ! k = input" by (auto simp: in_set_conv_nth)
  have "electedOf h input \<noteq> None \<or> in_Optional input"
    using bimLoop_messages [OF assms(1) [unfolded BuildInputModel_def]] assms(2) \<open>input \<in> set inputs\<close> by auto
  moreover have "resolved h r k input"
    using bimLoop_resolved [OF assms(1) [unfolded BuildInputModel_def] assms(3)] k by force
  ultimately show "in_Optional input \<or> (\<exists>c vals. electedOf h input = Some c \<and> cnx_GetStatusPhase c = ConnectionPhaseReady
     \<and> cnx_GetContract c = in_Contract input \<and> map_of (br_InputModel r) (in_Alias input) = Some (GMap vals))"
    using electedOf_best [OF assms(4), of input] by (auto simp: resolved_def possible_def split: option.splits)
qed

text \<open>What the rendering of the inputs accepts can always be looked up. For the inputs that \<open>RenderInputs\<close> returns, with the
  namespace of the Release as the default, \<open>BuildInputModel\<close> never ends for want of information, whatever the lookups give.\<close>

theorem rendered_inputs_informed:
  assumes "RenderInputs eng dec pck model ns = Ok inputs" "ns \<noteq> ''''"
  shows "fst (BuildInputModel h inputs) \<noteq> Some (MissingInformation k)"
proof -
  obtain decoded where "rmap (adjustInput ns) (enumerate 0 decoded) = Inr inputs"
    using assms(1) by (auto simp: RenderInputs_def rbind_Inr split: option.splits)
  then have "\<forall>input\<in>set inputs. in_ConnectionName input \<noteq> '''' \<or> in_ReleaseName input \<noteq> '''' \<or> in_contractLookupNamespace input \<noteq> ''''"
    using rmap_set adjustInput_complete [OF _ assms(2)] by metis
  from bimLoop_informed [OF this] show ?thesis by (auto simp: informed_def BuildInputModel_def)
qed


section \<open>Witnesses\<close>

definition sample_cnx :: "string \<Rightarrow> int \<Rightarrow> ConnectionFacade" where
  "sample_cnx name priority = CConnection
     \<lparr>cn_meta = \<lparr>om_Name = name, om_Namespace = ''n'', om_UID = '''', om_Generation = 1, om_ResourceVersion = '''',
        om_Labels = [], om_Annotations = [], om_Finalizers = [], om_OwnerReferences = [], om_DeletionTimestamp = None\<rparr>,
      cn_Spec = \<lparr>ns_Contract = ''sql'', ns_Priority = priority, ns_Values = None, ns_OutputName = '''', ns_Description = ''''\<rparr>,
      cn_Status = \<lparr>nt_Phase = ConnectionPhaseReady, nt_Parent = '''', nt_Message = '''', nt_ContractGeneration = 1, nt_ContractKind = None,
        nt_ContractDisplay = ''''\<rparr>\<rparr>"

definition sample_helper :: bim_helper where
  "sample_helper = \<lparr>bh_Get = (\<lambda>kind key. if kind = KindConnection then Ok (sample_cnx (Name key) 1) else Err (status_err ''NotFound'')),
     bh_FindFromRelease = (\<lambda>_ _. Ok []),
     bh_FindFromContract = (\<lambda>kind _ _. Ok (if kind = KindConnection then [sample_cnx ''a'' 100, sample_cnx ''b'' 200] else [])),
     bh_UnmarshalStrict = (\<lambda>_. Ok []), bh_sort = sortByPriority, bh_sections = []\<rparr>"

definition sample_multiple :: InputRendered where
  "sample_multiple = sample_input\<lparr>in_Alias := ''sql'', in_AllowMultiple := True, in_contractLookupNamespace := ''n''\<rparr>"

lemmas sample_bim_defs = BuildInputModel_def bimHandleInput_def bimHandleConnectionRef_def bimHandleContractConnection_def findAll_def
  wantsKind_def kindText_def bimFetchConnectionRef_def bimFilterConnection_def possible_def electValues_def parseValue_def
  sample_helper_def sample_multiple_def sample_input_def sample_cnx_def cnx_ref_def sortByPriority_def Let_def nn_def

lemma sample_build:
  "\<exists>r. BuildInputModel sample_helper [sample_multiple] = (None, r) \<and> br_Messages r = []"
  by (simp add: sample_bim_defs)

lemma sample_sort: "elected_sort (bh_sort sample_helper)"
  using sp.elected_sort_axioms by (simp add: sample_helper_def)

theorem BuildInputModel_elects_witness:
  "\<exists>r. BuildInputModel sample_helper [sample_multiple] = (None, r)
     \<and> (case electedOf sample_helper sample_multiple of Some c \<Rightarrow> br_Effective r ! 0 = Some (cnx_ref c) | None \<Rightarrow> br_Effective r ! 0 = None)"
proof -
  obtain r where r: "BuildInputModel sample_helper [sample_multiple] = (None, r)" using sample_build by blast
  then show ?thesis using BuildInputModel_elects [OF r _ sample_sort, of 0] by (auto split: option.splits)
qed

theorem BuildInputModel_gates_witness:
  "\<exists>r. BuildInputModel sample_helper [sample_multiple] = (None, r)
     \<and> (\<exists>c vals. electedOf sample_helper sample_multiple = Some c \<and> map_of (br_InputModel r) ''sql'' = Some (GMap vals))"
proof -
  obtain r where r: "BuildInputModel sample_helper [sample_multiple] = (None, r)" "br_Messages r = []" using sample_build by blast
  then show ?thesis
    using BuildInputModel_gates [OF r _ sample_sort] by (auto simp: sample_multiple_def sample_input_def)
qed

theorem rendered_inputs_informed_witness:
  "\<exists>inputs. RenderInputs sample_engine sample_decoders sample_parsed sample_model ''n'' = Ok inputs
     \<and> fst (BuildInputModel sample_helper inputs) \<noteq> Some (MissingInformation 0)"
proof -
  have "\<exists>inputs. RenderInputs sample_engine sample_decoders sample_parsed sample_model ''n'' = Ok inputs"
    by (simp add: RenderInputs_def sample_parsed_def adjustInput_def sample_input_def Let_def CountNonZero_def)
  then show ?thesis using rendered_inputs_informed [where ns = "''n''"] by blast
qed

lemma sample_refs_build: "\<exists>r. BuildInputModel sample_helper ([] @ fst sample_refs) = (None, r) \<and> br_Messages r = []"
  by (simp add: sample_refs_def GenerateRefInputs_def generateFromDecls_def sample_decl_def sample_params_def emitDecl_def
      formatAlias_def Atoi_names sample_bim_defs)


end
