(* ===== verification/Connections.thy ===== *)
theory Connections
  imports InputModel
begin

text \<open>
  The controllers of contracts and connections (\<open>contract_controller.go\<close>, \<open>clustercontract_controller.go\<close>,
  \<open>connection_controller.go\<close>, \<open>clusterconnection_controller.go\<close>) and of Configs (\<open>config_controller.go\<close>). A contract is READY
  when its schema can be used; a connection is READY when its values satisfy its contract.

  The two kinds of contract share the text of their controller: \<open>contract_reconcile2\<close> models both. A write of the status is the
  argument \<open>patch\<close>.
\<close>

section \<open>Contracts\<close>

datatype contract_error =
    ParseSchema string
  | SchemaConversion schema_error
  | DefaultValues default_error
  | SchemaCompilation string

definition emptySchema :: gmap where
  "emptySchema = [(''properties'', GMap [])]"

definition resolveContract ::
  "(JSON \<Rightarrow> (string, gmap) result) \<Rightarrow> 'g jsonschema \<Rightarrow> Contract \<Rightarrow> (contract_error, gmap \<times> gmap \<times> 'g) result" where
  "resolveContract unmarshalStrict js contract =
     rbind (case contract_GetSchemaRaw contract of
              Some raw \<Rightarrow> wrap_err ParseSchema (unmarshalStrict raw)
            | None \<Rightarrow> Ok emptySchema) (\<lambda>sch0.
     rbind (wrap_err SchemaConversion (Kubo2openAPI (Some sch0) False)) (\<lambda>sch.
     rbind (wrap_err DefaultValues (Defaulter sch)) (\<lambda>defaultValues.
     rbind (wrap_err SchemaCompilation (js_NewSchema js (schemaOr sch))) (\<lambda>goSchema.
       Ok (defaultValues, schemaOr sch, goSchema)))))"

definition contract_reconcile2 ::
  "(JSON \<Rightarrow> (string, gmap) result) \<Rightarrow> 'g jsonschema \<Rightarrow> (contract_error \<Rightarrow> string)
     \<Rightarrow> (Contract \<Rightarrow> 's \<Rightarrow> (api_err, unit) result \<times> 's) \<Rightarrow> (api_err, Contract) result \<Rightarrow> 's world \<Rightarrow> (api_err, unit) result \<times> 's world" where
  "contract_reconcile2 unmarshalStrict js descr patch got w =
     (case got of
        Inl e \<Rightarrow> (if IsNotFound e then Ok () else Err e, w)
      | Inr previous \<Rightarrow>
          (case (case resolveContract unmarshalStrict js previous of
                   Inl err \<Rightarrow> (\<lparr>tt_Phase = ContractPhaseError, tt_Message = descr err\<rparr>, Event ''Warning'' ''Invalid'' (descr err) w)
                 | Inr _ \<Rightarrow> (\<lparr>tt_Phase = ContractPhaseReady, tt_Message = ''''\<rparr>,
                     if tt_Phase (ct_Status previous) \<noteq> ContractPhaseReady then Event ''Normal'' ''OK'' ''contract ok'' w else w)) of
             (status, w1) \<Rightarrow>
               if status = ct_Status previous then (Ok (), w1)
               else call (patch (previous\<lparr>ct_Status := status\<rparr>)) w1))"

section \<open>Checking a connection\<close>

record contract_reader =
  cr_Contract :: "NamespacedName \<Rightarrow> (api_err, Contract) result"
  cr_ClusterContract :: "string \<Rightarrow> (api_err, Contract) result"

definition findContract ::
  "(string \<times> string list) list \<Rightarrow> contract_reader \<Rightarrow> ConnectionFacade \<Rightarrow> (string, Contract option) result" where
  "findContract sections reader connection =
     (let cluster = (case cr_ClusterContract reader (cnx_GetContract connection) of
                       Inr c \<Rightarrow> Ok (Some c)
                     | Inl e \<Rightarrow> if IsNotFound e then Ok None else Err (''could not get the ClusterContract: '' @ apiError sections e))
      in if cnx_GetKind connection = KindConnection
         then (case cr_Contract reader (nn (om_Namespace (cnx_meta connection)) (cnx_GetContract connection)) of
                 Inr c \<Rightarrow> Ok (Some c)
               | Inl e \<Rightarrow> if IsNotFound e then cluster else Err (''could not get the Contract: '' @ apiError sections e))
         else cluster)"

definition checkConnection ::
  "(JSON \<Rightarrow> (string, gmap) result) \<Rightarrow> 'g jsonschema \<Rightarrow> (contract_error \<Rightarrow> string) \<Rightarrow> Contract \<Rightarrow> ConnectionFacade \<Rightarrow> (string, unit) result" where
  "checkConnection unmarshalStrict js descr contract connection =
     (if contract_GetStatusPhase contract \<noteq> ContractPhaseReady then Err ''contract is not ready''
      else rbind (wrap_err (\<lambda>e. ''contract in error: '' @ descr e) (resolveContract unmarshalStrict js contract)) (\<lambda>(defaultValue, schema, goSchema).
           rbind (case cnx_GetValuesRaw connection of
                    None \<Rightarrow> Ok []
                  | Some raw \<Rightarrow> wrap_err (\<lambda>_. ''unable to parse connection values: they are not a map with distinct keys'') (unmarshalStrict raw)) (\<lambda>vals.
           rbind (wrap_err (\<lambda>_. ''unable to check connection values against the contract'')
                    (js_Validate js goSchema (MergeMaps defaultValue vals))) (\<lambda>errors.
             if errors \<noteq> [] then Err (''validation error on values: '' @ SchemaError errors schema (GMap (MergeMaps defaultValue vals)))
             else Ok ()))))"

definition connectionError ::
  "(JSON \<Rightarrow> (string, gmap) result) \<Rightarrow> 'g jsonschema \<Rightarrow> (contract_error \<Rightarrow> string) \<Rightarrow> Contract option \<Rightarrow> ConnectionFacade \<Rightarrow> (string, unit) result" where
  "connectionError unmarshalStrict js descr contract connection =
     (case contract of
        Some c \<Rightarrow> checkConnection unmarshalStrict js descr c connection
      | None \<Rightarrow>
          if cnx_GetValuesRaw connection = None then Ok ()
          else if cnx_GetKind connection = KindClusterConnection then Err ''the ClusterContract named in spec.contract is missing''
          else Err ''the Contract or ClusterContract named in spec.contract is missing'')"

section \<open>Connections\<close>

text \<open>\<open>metav1.GetControllerOf\<close>: the first owner that is a controller.\<close>

definition GetControllerOf :: "ObjectMeta \<Rightarrow> OwnerReference option" where
  "GetControllerOf m = find or_Controller (om_OwnerReferences m)"

text \<open>The outcome of the check as a phase, a message and the event it records.\<close>

definition phaseOf :: "(string, unit) result \<Rightarrow> ConnectionPhase \<times> string" where
  "phaseOf r = (case r of Inl e \<Rightarrow> (ConnectionPhaseError, e) | Inr _ \<Rightarrow> (ConnectionPhaseReady, ''''))"

definition phaseEvent :: "string \<Rightarrow> (string, unit) result \<Rightarrow> ConnectionPhase \<Rightarrow> string \<Rightarrow> 's world \<Rightarrow> 's world" where
  "phaseEvent readyText r oldPhase oldMessage w =
     (case r of
        Inl e \<Rightarrow> if oldMessage \<noteq> e then Event ''Warning'' ''Status'' e w else w
      | Inr _ \<Rightarrow> if oldPhase \<noteq> ConnectionPhaseReady then Event ''Normal'' ''Status'' readyText w else w)"

definition connectionStatus :: "Contract option \<Rightarrow> (string, unit) result \<Rightarrow> Connection \<Rightarrow> ConnectionStatus" where
  "connectionStatus contract r c =
     (let old = cn_Status c;
          kind = (case contract of
                    Some ct \<Rightarrow> Some (ct_Kind ct)
                  | None \<Rightarrow> (case r of Inl _ \<Rightarrow> None | Inr _ \<Rightarrow> nt_ContractKind old));
          name = ns_Contract (cn_Spec c)
      in \<lparr>nt_Phase = fst (phaseOf r),
          nt_Parent = (if nt_Parent old = ''''
                       then (case GetControllerOf (cn_meta c) of None \<Rightarrow> '''' | Some owner \<Rightarrow> or_Name owner) else nt_Parent old),
          nt_Message = snd (phaseOf r),
          nt_ContractGeneration = (case contract of Some ct \<Rightarrow> om_Generation (ct_meta ct) | None \<Rightarrow> nt_ContractGeneration old),
          nt_ContractKind = kind,
          nt_ContractDisplay = (case kind of
             Some KindContract \<Rightarrow> name | Some KindClusterContract \<Rightarrow> ''['' @ name @ '']'' | _ \<Rightarrow> name @ ''?'')\<rparr>)"

datatype connection_error = ReadConnection api_err | FindContract string | StatusPatch string | NotValid string

definition connection_reconcile2 ::
  "(string \<times> string list) list \<Rightarrow> (JSON \<Rightarrow> (string, gmap) result) \<Rightarrow> 'g jsonschema \<Rightarrow> (contract_error \<Rightarrow> string) \<Rightarrow> contract_reader
     \<Rightarrow> (Connection \<Rightarrow> 's \<Rightarrow> (api_err, unit) result \<times> 's) \<Rightarrow> (api_err, Connection) result \<Rightarrow> 's world
     \<Rightarrow> (connection_error, unit) result \<times> 's world" where
  "connection_reconcile2 sections unmarshalStrict js descr reader patch got w =
     (case got of
        Inl e \<Rightarrow> (if IsNotFound e then Ok () else Err (ReadConnection e), w)
      | Inr previous \<Rightarrow>
          (case findContract sections reader (CConnection previous) of
             Inl e \<Rightarrow> (Err (FindContract e), w)
           | Inr contract \<Rightarrow>
               (let r = connectionError unmarshalStrict js descr contract (CConnection previous);
                    w1 = phaseEvent ''Connection ready'' r (nt_Phase (cn_Status previous)) (nt_Message (cn_Status previous)) w;
                    status = connectionStatus contract r previous;
                    final = wrap_err NotValid r
                in if status = cn_Status previous then (final, w1)
                   else (case call (patch (previous\<lparr>cn_Status := status\<rparr>)) w1 of
                           (Inl e, w2) \<Rightarrow> (Err (StatusPatch (''could not update the Connection status: '' @ apiError sections e)), w2)
                         | (Inr _, w2) \<Rightarrow> (final, w2)))))"

definition clusterConnectionStatus :: "Contract option \<Rightarrow> (string, unit) result \<Rightarrow> ClusterConnection \<Rightarrow> ClusterConnectionStatus" where
  "clusterConnectionStatus contract r c =
     (let old = kn_Status c
      in \<lparr>kt_Phase = fst (phaseOf r),
          kt_Parent = (case ks_ParentRelease (kn_Spec c) of
             Some p \<Rightarrow> if kt_Parent old = '''' then pf_Namespace p @ ''/'' @ pf_Name p else kt_Parent old
           | None \<Rightarrow> kt_Parent old),
          kt_Message = snd (phaseOf r),
          kt_ContractGeneration = (case contract of Some ct \<Rightarrow> om_Generation (ct_meta ct) | None \<Rightarrow> kt_ContractGeneration old)\<rparr>)"

definition clusterConnection_reconcile2 ::
  "(string \<times> string list) list \<Rightarrow> (JSON \<Rightarrow> (string, gmap) result) \<Rightarrow> 'g jsonschema \<Rightarrow> (contract_error \<Rightarrow> string) \<Rightarrow> contract_reader
     \<Rightarrow> (ClusterConnection \<Rightarrow> 's \<Rightarrow> (api_err, unit) result \<times> 's) \<Rightarrow> (api_err, ClusterConnection) result \<Rightarrow> 's world
     \<Rightarrow> (connection_error, unit) result \<times> 's world" where
  "clusterConnection_reconcile2 sections unmarshalStrict js descr reader patch got w =
     (case got of
        Inl e \<Rightarrow> (if IsNotFound e then Ok () else Err (ReadConnection e), w)
      | Inr previous \<Rightarrow>
          (case findContract sections reader (CClusterConnection previous) of
             Inl e \<Rightarrow> (Err (FindContract e), w)
           | Inr contract \<Rightarrow>
               (let r = connectionError unmarshalStrict js descr contract (CClusterConnection previous);
                    w1 = phaseEvent ''ClusterConnection ready'' r (kt_Phase (kn_Status previous)) (kt_Message (kn_Status previous)) w;
                    status = clusterConnectionStatus contract r previous;
                    final = wrap_err NotValid r
                in if status = kn_Status previous then (final, w1)
                   else (case call (patch (previous\<lparr>kn_Status := status\<rparr>)) w1 of
                           (Inl e, w2) \<Rightarrow> (Err (StatusPatch (''could not update the ClusterConnection status: '' @ apiError sections e)), w2)
                         | (Inr _, w2) \<Rightarrow> (final, w2)))))"

section \<open>Configs\<close>

text \<open>
  The configuration is published in the store; the channel \<open>published\<close>, when there is one, holds at most its capacity, and a
  send that would block is dropped.
\<close>

definition config_reconcile2 ::
  "(JSON \<Rightarrow> (string, gmap option) result) \<Rightarrow> ('e, Config list) result \<Rightarrow> string \<Rightarrow> NamespacedName \<Rightarrow> nat option
     \<Rightarrow> configuration \<times> NamespacedName list \<Rightarrow> ('e + config_error, unit) result \<times> configuration \<times> NamespacedName list" where
  "config_reconcile2 unmarshal listed podNamespace req capacity = (\<lambda>(store, published).
     (case listed of
        Inl e \<Rightarrow> (Err (Inl e), store, published)
      | Inr configs \<Rightarrow>
          (case AddConfigs unmarshal (configs, podNamespace) store of
             (Inl e, store') \<Rightarrow> (Err (Inr e), store', published)
           | (Inr _, store') \<Rightarrow>
               (Ok (), store', (case capacity of
                  None \<Rightarrow> published
                | Some n \<Rightarrow> if length published < n then published @ [req] else published)))))"

section \<open>Lemmas\<close>

text \<open>What a connection must satisfy: its contract is READY and usable, and its values over the defaults of the contract validate.\<close>

definition satisfies :: "(JSON \<Rightarrow> (string, gmap) result) \<Rightarrow> 'g jsonschema \<Rightarrow> Contract \<Rightarrow> ConnectionFacade \<Rightarrow> bool" where
  "satisfies unmarshalStrict js contract connection \<longleftrightarrow>
     contract_GetStatusPhase contract = ContractPhaseReady
     \<and> (\<exists>defaultValue schema goSchema vals. resolveContract unmarshalStrict js contract = Ok (defaultValue, schema, goSchema)
          \<and> (case cnx_GetValuesRaw connection of None \<Rightarrow> vals = [] | Some raw \<Rightarrow> unmarshalStrict raw = Ok vals)
          \<and> js_Validate js goSchema (MergeMaps defaultValue vals) = Ok [])"

definition valid_for :: "(JSON \<Rightarrow> (string, gmap) result) \<Rightarrow> 'g jsonschema \<Rightarrow> Contract option \<Rightarrow> ConnectionFacade \<Rightarrow> bool" where
  "valid_for unmarshalStrict js contract connection \<longleftrightarrow>
     (case contract of Some c \<Rightarrow> satisfies unmarshalStrict js c connection | None \<Rightarrow> cnx_GetValuesRaw connection = None)"

lemma checkConnection_Ok: "checkConnection unmarshalStrict js descr c cnx = Inr u \<longleftrightarrow> satisfies unmarshalStrict js c cnx"
  by (cases "cnx_GetValuesRaw cnx")
    (auto simp: checkConnection_def satisfies_def rbind_Inr wrap_err_Inr split: if_splits)

lemma connectionError_Ok: "connectionError unmarshalStrict js descr contract cnx = Inr u \<longleftrightarrow> valid_for unmarshalStrict js contract cnx"
  by (cases contract) (auto simp: connectionError_def valid_for_def checkConnection_Ok)

lemma phaseEvent_api [simp]: "w_api (phaseEvent t r p m w) = w_api w"
  by (auto simp: phaseEvent_def split: sum.splits)

text \<open>The status does not depend on the fields of the old one that a reconciliation rewrites.\<close>

lemma connectionStatus_again:
  "connectionStatus contract r (c\<lparr>cn_Status := connectionStatus contract r c\<rparr>) = connectionStatus contract r c"
  by (auto simp: connectionStatus_def Let_def split: option.splits sum.splits)

lemma clusterConnectionStatus_again:
  "clusterConnectionStatus contract r (c\<lparr>kn_Status := clusterConnectionStatus contract r c\<rparr>) = clusterConnectionStatus contract r c"
  by (auto simp: clusterConnectionStatus_def Let_def split: option.splits)

lemma connectionError_status:
  "connectionError unmarshalStrict js descr contract (CConnection (c\<lparr>cn_Status := s\<rparr>)) = connectionError unmarshalStrict js descr contract (CConnection c)"
  "findContract sections reader (CConnection (c\<lparr>cn_Status := s\<rparr>)) = findContract sections reader (CConnection c)"
  by (simp_all add: connectionError_def checkConnection_def findContract_def split: option.splits)

lemma clusterConnectionError_status:
  "connectionError unmarshalStrict js descr contract (CClusterConnection (c\<lparr>kn_Status := s\<rparr>)) = connectionError unmarshalStrict js descr contract (CClusterConnection c)"
  "findContract sections reader (CClusterConnection (c\<lparr>kn_Status := s\<rparr>)) = findContract sections reader (CClusterConnection c)"
  by (simp_all add: connectionError_def checkConnection_def findContract_def split: option.splits)

section \<open>The interface of the status writes\<close>

text \<open>What a controller relies on for the object it reconciles: a write that succeeds is what the server then holds.\<close>

locale status_store =
  fixes patch :: "'o \<Rightarrow> 's \<Rightarrow> (api_err, unit) result \<times> 's"
    and holds :: "'s \<Rightarrow> 'o"
  assumes patch_ok: "patch ob s = (Inr u, s') \<Longrightarrow> holds s' = ob"
begin

text \<open>A write that is skipped when nothing changes leaves the object written or held.\<close>

lemma written_or_held:
  assumes "(if ob = holds (w_api w) then (Ok (), w) else call (patch ob) w) = (Inr u, w')"
  shows "holds (w_api w') = ob"
  using assms patch_ok by (auto simp: call_iff split: if_splits)

end

text \<open>The server of the witnesses: it holds one object, and answers each write from a list of errors to come.\<close>

definition one_patch :: "'o \<Rightarrow> 'o \<times> api_err option list \<Rightarrow> (api_err, unit) result \<times> 'o \<times> api_err option list" where
  "one_patch ob = (\<lambda>(held, fs). case fs of Some e # fs' \<Rightarrow> (Err e, held, fs') | _ \<Rightarrow> (Ok (), ob, tl fs))"

interpretation one: status_store one_patch fst
  by unfold_locales (auto simp: one_patch_def split: prod.splits list.splits option.splits)

text \<open>One reconciliation that gets to the end: what the server holds is the object with its new status.\<close>

lemma connection_done:
  assumes "status_store patch holds" "holds (w_api w) = c" "findContract sections reader (CConnection c) = Ok contract"
    and "connection_reconcile2 sections unmarshalStrict js descr reader patch (Ok c) w = (res, w')"
    and "\<forall>e. res \<noteq> Err (StatusPatch e)"
  shows "holds (w_api w') = c\<lparr>cn_Status := connectionStatus contract (connectionError unmarshalStrict js descr contract (CConnection c)) c\<rparr>
    \<and> res = wrap_err NotValid (connectionError unmarshalStrict js descr contract (CConnection c))"
proof -
  have self: "c = c\<lparr>cn_Status := cn_Status c\<rparr>" by simp
  show ?thesis
    using assms self status_store.patch_ok [OF assms(1)] unfolding connection_reconcile2_def Let_def
    by (auto simp: call_iff split: if_splits prod.splits sum.splits)
qed

lemma clusterConnection_done:
  assumes "status_store patch holds" "holds (w_api w) = c" "findContract sections reader (CClusterConnection c) = Ok contract"
    and "clusterConnection_reconcile2 sections unmarshalStrict js descr reader patch (Ok c) w = (res, w')"
    and "\<forall>e. res \<noteq> Err (StatusPatch e)"
  shows "holds (w_api w') = c\<lparr>kn_Status := clusterConnectionStatus contract (connectionError unmarshalStrict js descr contract (CClusterConnection c)) c\<rparr>
    \<and> res = wrap_err NotValid (connectionError unmarshalStrict js descr contract (CClusterConnection c))"
proof -
  have self: "c = c\<lparr>kn_Status := kn_Status c\<rparr>" by simp
  show ?thesis
    using assms self status_store.patch_ok [OF assms(1)] unfolding clusterConnection_reconcile2_def Let_def
    by (auto simp: call_iff split: if_splits prod.splits sum.splits)
qed

lemma contract_done:
  assumes "status_store patch holds" "holds (w_api w) = c" "contract_reconcile2 unmarshalStrict js descr patch (Ok c) w = (Inr u, w')"
  shows "holds (w_api w') = c\<lparr>ct_Status := (case resolveContract unmarshalStrict js c of
      Inl err \<Rightarrow> \<lparr>tt_Phase = ContractPhaseError, tt_Message = descr err\<rparr> | Inr _ \<Rightarrow> \<lparr>tt_Phase = ContractPhaseReady, tt_Message = ''''\<rparr>)\<rparr>"
proof -
  have self: "c = c\<lparr>ct_Status := ct_Status c\<rparr>" by simp
  show ?thesis
    using assms self status_store.patch_ok [OF assms(1)] unfolding contract_reconcile2_def
    by (auto simp: call_iff split: if_splits prod.splits sum.splits)
qed

section \<open>Properties\<close>

text \<open>C35: a connection becomes READY exactly when it is valid. When its contract can be looked up and its status can be
  written, one reconciliation leaves the connection READY if its values, over the defaults of its READY contract,
  satisfy the schema, or if it has neither a contract nor values; otherwise it leaves it in ERROR with the reason as its
  message. A second reconciliation then writes nothing.\<close>

theorem connection_reconcile_decides:
  assumes "status_store patch holds" "holds (w_api w) = c" "findContract sections reader (CConnection c) = Ok contract"
    and "connection_reconcile2 sections unmarshalStrict js descr reader patch (Ok c) w = (res, w')"
    and "\<forall>e. res \<noteq> Err (StatusPatch e)"
  shows "(if valid_for unmarshalStrict js contract (CConnection c)
          then nt_Phase (cn_Status (holds (w_api w'))) = ConnectionPhaseReady \<and> res = Ok ()
          else nt_Phase (cn_Status (holds (w_api w'))) = ConnectionPhaseError \<and> res = Err (NotValid (nt_Message (cn_Status (holds (w_api w'))))))
    \<and> connection_reconcile2 sections unmarshalStrict js descr reader patch (Ok (holds (w_api w'))) w' = (res, w')"
proof -
  let ?r = "connectionError unmarshalStrict js descr contract (CConnection c)"
  let ?c = "c\<lparr>cn_Status := connectionStatus contract ?r c\<rparr>"
  have h: "holds (w_api w') = ?c" "res = wrap_err NotValid ?r" using connection_done [OF assms] by simp_all
  have s: "nt_Phase (cn_Status ?c) = fst (phaseOf ?r)" "nt_Message (cn_Status ?c) = snd (phaseOf ?r)"
    by (simp_all add: connectionStatus_def Let_def)
  have again: "connection_reconcile2 sections unmarshalStrict js descr reader patch (Ok ?c) w' = (res, w')"
    using s h(2) assms(3)
    by (auto simp: connection_reconcile2_def connectionError_status connectionStatus_again Let_def phaseEvent_def phaseOf_def split: sum.splits)
  show ?thesis
  proof (cases ?r)
    case (Inl e)
    then have "\<not> valid_for unmarshalStrict js contract (CConnection c)" using connectionError_Ok by (metis sum.distinct(1))
    then show ?thesis using h s Inl again by (simp add: phaseOf_def)
  next
    case (Inr u)
    then have "valid_for unmarshalStrict js contract (CConnection c)" using connectionError_Ok by metis
    then show ?thesis using h s Inr again by (simp add: phaseOf_def)
  qed
qed

text \<open>The same for a ClusterConnection.\<close>

theorem clusterConnection_reconcile_decides:
  assumes "status_store patch holds" "holds (w_api w) = c" "findContract sections reader (CClusterConnection c) = Ok contract"
    and "clusterConnection_reconcile2 sections unmarshalStrict js descr reader patch (Ok c) w = (res, w')"
    and "\<forall>e. res \<noteq> Err (StatusPatch e)"
  shows "kt_Phase (kn_Status (holds (w_api w'))) = ConnectionPhaseReady \<longleftrightarrow> valid_for unmarshalStrict js contract (CClusterConnection c)"
proof -
  let ?r = "connectionError unmarshalStrict js descr contract (CClusterConnection c)"
  have "kt_Phase (kn_Status (holds (w_api w'))) = fst (phaseOf ?r)"
    using clusterConnection_done [OF assms] by (simp add: clusterConnectionStatus_def Let_def)
  then show ?thesis using connectionError_Ok [of unmarshalStrict js descr contract "CClusterConnection c"]
    by (auto simp: phaseOf_def split: sum.splits)
qed

text \<open>A contract is READY exactly when its schema can be used. After a reconciliation of the contract, a connection that
  is checked against it is never refused because the contract is in error: either the contract is not READY, or its
  schema resolves.\<close>

theorem contract_ready_resolves:
  assumes "status_store patch holds" "holds (w_api w) = c" "contract_reconcile2 unmarshalStrict js descr patch (Ok c) w = (Ok (), w')"
  shows "(contract_GetStatusPhase (holds (w_api w')) = ContractPhaseReady \<longleftrightarrow> ok (resolveContract unmarshalStrict js c))
    \<and> (\<forall>e cnx. checkConnection unmarshalStrict js descr (holds (w_api w')) cnx \<noteq> Err (''contract in error: '' @ descr e))"
proof -
  have h: "holds (w_api w') = c\<lparr>ct_Status := (case resolveContract unmarshalStrict js c of
      Inl err \<Rightarrow> \<lparr>tt_Phase = ContractPhaseError, tt_Message = descr err\<rparr> | Inr _ \<Rightarrow> \<lparr>tt_Phase = ContractPhaseReady, tt_Message = ''''\<rparr>)\<rparr>"
    using contract_done [OF assms] .
  have r: "resolveContract unmarshalStrict js (c\<lparr>ct_Status := s\<rparr>) = resolveContract unmarshalStrict js c" for s
    by (simp add: resolveContract_def contract_GetSchemaRaw_def)
  show ?thesis unfolding h
    by (cases "resolveContract unmarshalStrict js c")
      (auto simp: contract_GetStatusPhase_def checkConnection_def r rbind_Inl wrap_err_Inl split: option.splits if_splits)
qed

section \<open>Witnesses\<close>

text \<open>A contract that requires a host and gives a default for it, and a JSON schema library that checks that the host is there.\<close>

definition sample_meta :: "string \<Rightarrow> ObjectMeta" where
  "sample_meta name = \<lparr>om_Name = name, om_Namespace = ''n'', om_UID = '''', om_Generation = 1, om_ResourceVersion = '''',
     om_Labels = [], om_Annotations = [], om_Finalizers = [], om_OwnerReferences = [], om_DeletionTimestamp = None\<rparr>"

definition sample_contract :: Contract where
  "sample_contract = \<lparr>ct_Kind = KindContract, ct_meta = sample_meta ''sql'', ct_Spec = \<lparr>ts_Schema = Some ''schema'', ts_Description = ''''\<rparr>,
     ct_Status = \<lparr>tt_Phase = ContractPhaseReady, tt_Message = ''''\<rparr>\<rparr>"

definition sample_decode :: "JSON \<Rightarrow> (string, gmap) result" where
  "sample_decode raw = (if raw = ''schema''
     then Ok [(''properties'', GMap [(''host'', GMap [(''type'', GStr ''string''), (''required'', GBool True), (''default'', GStr ''h'')])])]
     else Ok [])"

definition sample_js :: "gmap jsonschema" where
  "sample_js = \<lparr>js_NewSchema = Ok, js_Validate = (\<lambda>g v. Ok (if mhas v ''host'' then [] else
     [\<lparr>rx_Context = None, rx_Type = ''required'', rx_Description = ''host is required'', rx_Allowed = ''''\<rparr>]))\<rparr>"

definition sample_connection :: Connection where
  "sample_connection = \<lparr>cn_meta = sample_meta ''db'',
     cn_Spec = \<lparr>ns_Contract = ''sql'', ns_Priority = 100, ns_Values = Some ''values'', ns_OutputName = '''', ns_Description = ''''\<rparr>,
     cn_Status = \<lparr>nt_Phase = ConnectionPhaseNone, nt_Parent = '''', nt_Message = '''', nt_ContractGeneration = 0, nt_ContractKind = None,
       nt_ContractDisplay = ''''\<rparr>\<rparr>"

definition sample_contracts :: contract_reader where
  "sample_contracts = \<lparr>cr_Contract = (\<lambda>_. Ok sample_contract), cr_ClusterContract = (\<lambda>_. Err (status_err ''NotFound''))\<rparr>"

definition sample_world :: "'o \<Rightarrow> ('o \<times> api_err option list) world" where
  "sample_world ob = \<lparr>w_api = (ob, []), w_events = []\<rparr>"

lemma sample_resolves:
  "resolveContract sample_decode sample_js sample_contract = Ok ([(''host'', GStr ''h'')],
     [(''properties'', GMap [(''host'', GMap [(''type'', GStr ''string''), (''default'', GStr ''h'')])]), (''type'', GStr ''object''),
      (''additionalProperties'', GBool False), (''required'', GStrs [''host'']), (''$schema'', GStr ''http://json-schema.org/schema#'')],
     [(''properties'', GMap [(''host'', GMap [(''type'', GStr ''string''), (''default'', GStr ''h'')])]), (''type'', GStr ''object''),
      (''additionalProperties'', GBool False), (''required'', GStrs [''host'']), (''$schema'', GStr ''http://json-schema.org/schema#'')])"
  by (simp add: resolveContract_def sample_contract_def contract_GetSchemaRaw_def sample_decode_def sample_js_def Kubo2openAPI_def mhas_def
      handleNode.simps nodeType_def checkedType_def type_names addPropsOf_def handleRequired_def mput_code mdel_code propsOf_def mapOf_def
      Defaulter_def BaseDefaulter_def defaulterHandleNode.simps nonNil_def)

lemma sample_valid: "valid_for sample_decode sample_js (Some sample_contract) (CConnection sample_connection)"
  using sample_resolves
  by (simp add: valid_for_def satisfies_def contract_GetStatusPhase_def sample_contract_def sample_connection_def sample_decode_def
      sample_js_def MergeMaps_def mhas_def)

lemma sample_finds: "findContract [] sample_contracts (CConnection sample_connection) = Ok (Some sample_contract)"
  by (simp add: findContract_def sample_contracts_def)

theorem connection_reconcile_decides_witness:
  "\<exists>w'. nt_Phase (cn_Status (fst (w_api w'))) = ConnectionPhaseReady
     \<and> connection_reconcile2 [] sample_decode sample_js (\<lambda>_. '''') sample_contracts one_patch (Ok sample_connection) (sample_world sample_connection) = (Ok (), w')"
proof -
  let ?w = "sample_world sample_connection"
  obtain res w' where r: "connection_reconcile2 [] sample_decode sample_js (\<lambda>_. '''') sample_contracts one_patch (Ok sample_connection) ?w = (res, w')"
    by (cases "connection_reconcile2 [] sample_decode sample_js (\<lambda>_. '''') sample_contracts one_patch (Ok sample_connection) ?w")
  have "\<forall>e. res \<noteq> Err (StatusPatch e)"
    using r by (auto simp: connection_reconcile2_def sample_finds sample_world_def one_patch_def call_def phaseEvent_def Event_def Let_def
        wrap_err_Inl wrap_err_def split: sum.splits if_splits)
  from connection_reconcile_decides [OF one.status_store_axioms _ sample_finds r this] sample_valid
  show ?thesis using r by (auto simp: sample_world_def)
qed

theorem contract_ready_resolves_witness:
  "\<exists>w'. contract_reconcile2 sample_decode sample_js (\<lambda>_. '''') one_patch (Ok sample_contract) (sample_world sample_contract) = (Ok (), w')
     \<and> contract_GetStatusPhase (fst (w_api w')) = ContractPhaseReady"
proof -
  have "contract_reconcile2 sample_decode sample_js (\<lambda>_. '''') one_patch (Ok sample_contract) (sample_world sample_contract)
      = (Ok (), sample_world sample_contract)"
    by (simp add: contract_reconcile2_def sample_resolves) (simp add: sample_contract_def)
  with contract_ready_resolves [OF one.status_store_axioms _ this] show ?thesis
    by (auto simp: sample_world_def sample_resolves)
qed

section \<open>Divergences\<close>

text \<open>
  The defaults of a contract take part in the check of a connection only: the connection is READY, and the values that
  an input resolves to lack the required property that the default filled in.
\<close>

lemma defaults_not_delivered:
  "valid_for sample_decode sample_js (Some sample_contract) (CConnection sample_connection)"
  "bh_UnmarshalStrict h = sample_decode \<Longrightarrow> parseValue h idx (CConnection sample_connection) = Ok []"
  by (rule sample_valid) (simp add: parseValue_def sample_connection_def sample_decode_def)

text \<open>
  A connection without values whose contract is deleted stays READY, and its status still shows the contract as one
  that exists.
\<close>

lemma deleted_contract_still_shown:
  "nt_ContractKind (cn_Status c) = Some KindContract \<Longrightarrow>
     nt_ContractDisplay (connectionStatus None (Ok ()) c) = ns_Contract (cn_Spec c)"
  by (simp add: connectionStatus_def Let_def)

end
