(* ===== verification/Children.thy ===== *)
theory Children
  imports Connections
begin

text \<open>
  What the Release controller shares for the objects it owns: its errors (\<open>ReconcileError\<close> of \<open>release_controller.go\<close>), the
  conditions of the Flux objects (\<open>staleReady\<close> and \<open>buildConditionStatusByType\<close> of \<open>release_helpers.go\<close>), and the client of one kind
  of object. The API server is a parameter: the record \<open>kind_client\<close> holds its requests, and the locale \<open>kube_kind\<close> says what
  they promise. A read can come from a cache, so it returns an object that was held, now or before.
\<close>

section \<open>Errors of a reconciliation\<close>

record ReconcileError =
  re_error :: string
  re_fatal :: bool
  re_eventReason :: string

definition NewReconcileError :: "string \<Rightarrow> bool \<Rightarrow> string \<Rightarrow> ReconcileError" where
  "NewReconcileError err fatal eventReason = \<lparr>re_error = err, re_fatal = fatal, re_eventReason = eventReason\<rparr>"

definition atPlace :: "string \<Rightarrow> ReconcileError \<Rightarrow> ReconcileError" where
  "atPlace place rErr = NewReconcileError (place @ '': '' @ re_error rErr) (re_fatal rErr) (re_eventReason rErr)"

text \<open>\<open>Error()\<close> of an error of the client.\<close>

fun api_Error :: "api_err \<Rightarrow> string" where
  "api_Error (Request s) = s"
| "api_Error (Status s) = as_Message s"

text \<open>\<open>'%s'\<close> in a format.\<close>

definition squote :: "string \<Rightarrow> string" where
  "squote s = CHR 0x27 # s @ [CHR 0x27]"

text \<open>\<open>%q\<close> on a name of Kubernetes, which has nothing to escape.\<close>

definition dquote :: "string \<Rightarrow> string" where
  "dquote s = CHR 0x22 # s @ [CHR 0x22]"

section \<open>Conditions\<close>

text \<open>
  A \<open>metav1.Condition\<close>. The schema of the Flux resources admits the three statuses of \<open>ConditionStatus\<close>; \<open>ConditionUnset\<close> stands for
  a status that is none of them.
\<close>

record Condition =
  cd_Type :: string
  cd_Status :: ConditionStatus
  cd_ObservedGeneration :: int
  cd_Message :: string

text \<open>\<open>apimeta.FindStatusCondition\<close>\<close>

definition FindStatusCondition :: "Condition list \<Rightarrow> string \<Rightarrow> Condition option" where
  "FindStatusCondition conditions typ = find (\<lambda>c. cd_Type c = typ) conditions"

definition staleReady :: "Condition list \<Rightarrow> int \<Rightarrow> int \<Rightarrow> bool" where
  "staleReady conditions observedGeneration generation =
     (case FindStatusCondition conditions ''Ready'' of
        None \<Rightarrow> False
      | Some r \<Rightarrow> cd_ObservedGeneration r < generation \<or> cd_Status r = ConditionTrue \<and> observedGeneration < generation)"

definition buildConditionStatusByType :: "Condition list \<Rightarrow> (string \<times> ConditionStatus) list" where
  "buildConditionStatusByType conditions = foldl (\<lambda>m c. mput (cd_Type c) (cd_Status c) m) [] conditions"

text \<open>The last condition of a type is the one in the map.\<close>

lemma buildConditionStatusByType_last:
  "map_of (buildConditionStatusByType conditions) t = map_option cd_Status (find (\<lambda>c. cd_Type c = t) (rev conditions))"
proof (induction conditions rule: rev_induct)
  case (snoc c cs)
  then show ?case by (auto simp: buildConditionStatusByType_def)
qed (simp add: buildConditionStatusByType_def)

section \<open>Owners\<close>

text \<open>\<open>metav1.IsControlledBy\<close>, on the metadata of the object and of the owner.\<close>

definition IsControlledBy :: "ObjectMeta \<Rightarrow> ObjectMeta \<Rightarrow> bool" where
  "IsControlledBy m owner = (case GetControllerOf m of None \<Rightarrow> False | Some ref \<Rightarrow> or_UID ref = om_UID owner)"

definition meta_key :: "ObjectMeta \<Rightarrow> NamespacedName" where
  "meta_key m = nn (om_Namespace m) (om_Name m)"

text \<open>A new object: its name and its namespace.\<close>

definition new_meta :: "string \<Rightarrow> string \<Rightarrow> ObjectMeta" where
  "new_meta ns name = \<lparr>om_Name = name, om_Namespace = ns, om_UID = '''', om_Generation = 0, om_ResourceVersion = '''', om_Labels = [],
     om_Annotations = [], om_Finalizers = [], om_OwnerReferences = [], om_DeletionTimestamp = None\<rparr>"

lemma meta_key_new [simp]: "meta_key (new_meta ns name) = nn ns name"
  by (simp add: meta_key_def new_meta_def)

section \<open>The client of one kind\<close>

text \<open>
  \<open>kc_Patch guard base object\<close> is the merge patch from \<open>base\<close> to \<open>object\<close>. It carries the UID of the object with \<open>GuardUID\<close>
  (\<open>mergeFromWithUID\<close>), and its version too with \<open>GuardVersion\<close> (\<open>MergeFromWithOptimisticLock\<close>). It returns the object as the server then holds it. \<open>kc_Delete uid object\<close> is a deletion with or without the
  UID as its precondition. \<open>kc_SetController owner object\<close> is \<open>ctrl.SetControllerReference\<close>.
\<close>

datatype patch_guard = Unguarded | GuardUID | GuardVersion

record ('s, 'o) kind_client =
  kc_Get :: "NamespacedName \<Rightarrow> 's \<Rightarrow> (api_err, 'o) result \<times> 's"
  kc_Create :: "'o \<Rightarrow> 's \<Rightarrow> (api_err, 'o) result \<times> 's"
  kc_Patch :: "patch_guard \<Rightarrow> 'o \<Rightarrow> 'o \<Rightarrow> 's \<Rightarrow> (api_err, 'o) result \<times> 's"
  kc_Delete :: "bool \<Rightarrow> 'o \<Rightarrow> 's \<Rightarrow> (api_err, unit) result \<times> 's"
  kc_SetController :: "ObjectMeta \<Rightarrow> 'o \<Rightarrow> (string, 'o) result"

text \<open>
  What the server promises: \<open>view\<close> is what it holds and \<open>past\<close> what it held, now or before. A write that fails may have been
  applied. A write on a UID acts on that object only.
\<close>

locale kube_kind =
  fixes C :: "('s, 'o) kind_client"
    and view :: "'s \<Rightarrow> NamespacedName \<Rightarrow> 'o option"
    and past :: "'s \<Rightarrow> NamespacedName \<Rightarrow> 'o \<Rightarrow> bool"
    and meta :: "'o \<Rightarrow> ObjectMeta"
  assumes get_frame: "kc_Get C k s = (r, s') \<Longrightarrow> view s' = view s \<and> past s' = past s"
    and get_ok: "kc_Get C k s = (Inr ob, s') \<Longrightarrow> past s k ob \<and> meta_key (meta ob) = k"
    and create_frame: "kc_Create C ob s = (r, s') \<Longrightarrow> k \<noteq> meta_key (meta ob) \<Longrightarrow> view s' k = view s k \<and> past s' k = past s k"
    and create_new: "kc_Create C ob s = (r, s') \<Longrightarrow> view s' \<noteq> view s \<Longrightarrow> view s (meta_key (meta ob)) = None"
    and patch_frame: "kc_Patch C g b ob s = (r, s') \<Longrightarrow> k \<noteq> meta_key (meta ob) \<Longrightarrow> view s' k = view s k \<and> past s' k = past s k"
    and patch_uid: "kc_Patch C g b ob s = (r, s') \<Longrightarrow> g \<noteq> Unguarded \<Longrightarrow> view s' \<noteq> view s \<Longrightarrow>
      \<exists>held. view s (meta_key (meta ob)) = Some held \<and> om_UID (meta held) = om_UID (meta ob)"
    and delete_frame: "kc_Delete C uid ob s = (d, s') \<Longrightarrow> k \<noteq> meta_key (meta ob) \<Longrightarrow> view s' k = view s k \<and> past s' k = past s k"
    and delete_uid: "kc_Delete C True ob s = (d, s') \<Longrightarrow> view s' \<noteq> view s \<Longrightarrow>
      \<exists>held. view s (meta_key (meta ob)) = Some held \<and> om_UID (meta held) = om_UID (meta ob)"
    and controller_key: "kc_SetController C owner ob = Inr ob' \<Longrightarrow> meta_key (meta ob') = meta_key (meta ob)"
begin

text \<open>
  Between two states the objects of other owners are left alone: an object at \<open>k\<close> is created where there was none, or is one that
  was read under the control of \<open>owner\<close>. Other keys than those of \<open>K\<close> are not touched.
\<close>

definition mine :: "'s \<Rightarrow> ObjectMeta \<Rightarrow> NamespacedName \<Rightarrow> bool" where
  "mine s owner k \<longleftrightarrow> (\<exists>held ob. view s k = Some held \<and> past s k ob \<and> om_UID (meta held) = om_UID (meta ob) \<and> IsControlledBy (meta ob) owner)"

definition owned_change :: "ObjectMeta \<Rightarrow> NamespacedName set \<Rightarrow> 's \<Rightarrow> 's \<Rightarrow> bool" where
  "owned_change owner K s s' \<longleftrightarrow>
     (\<forall>k. k \<notin> K \<longrightarrow> view s' k = view s k \<and> past s' k = past s k)
     \<and> (\<forall>k. view s' k \<noteq> view s k \<longrightarrow> view s k = None \<or> mine s owner k)"

lemma owned_refl [simp]: "owned_change owner K s s"
  by (simp add: owned_change_def)

lemma owned_get: "kc_Get C k s = (r, s') \<Longrightarrow> owned_change owner K s' t \<Longrightarrow> owned_change owner K s t"
  using get_frame [of k s r s'] by (simp add: owned_change_def mine_def)

lemma owned_create: "kc_Create C ob s = (r, s') \<Longrightarrow> owned_change owner {meta_key (meta ob)} s s'"
proof -
  assume c: "kc_Create C ob s = (r, s')"
  have "view s k = None" if d: "view s' k \<noteq> view s k" for k
  proof -
    have "k = meta_key (meta ob)" using d create_frame [OF c, of k] by blast
    moreover have "view s' \<noteq> view s" using d by auto
    ultimately show ?thesis using create_new [OF c] by simp
  qed
  then show ?thesis using create_frame [OF c] unfolding owned_change_def by blast
qed

lemma owned_patch:
  assumes "kc_Patch C g b ob s = (r, s')" "g \<noteq> Unguarded" "past s (meta_key (meta ob)) rd" "om_UID (meta rd) = om_UID (meta ob)"
    and "IsControlledBy (meta rd) owner"
  shows "owned_change owner {meta_key (meta ob)} s s'"
  unfolding owned_change_def
proof (intro conjI allI impI)
  fix k
  assume d: "view s' k \<noteq> view s k"
  then have "k = meta_key (meta ob)" using patch_frame [OF assms(1), of k] by blast
  moreover have "view s' \<noteq> view s" using d by auto
  ultimately show "view s k = None \<or> mine s owner k"
    using patch_uid [OF assms(1,2)] assms(3-5) unfolding mine_def by fastforce
qed (use patch_frame [OF assms(1)] in auto)

lemma owned_delete:
  assumes "kc_Delete C True ob s = (r, s')" "past s (meta_key (meta ob)) ob" "IsControlledBy (meta ob) owner"
  shows "owned_change owner {meta_key (meta ob)} s s'"
  unfolding owned_change_def
proof (intro conjI allI impI)
  fix k
  assume d: "view s' k \<noteq> view s k"
  then have "k = meta_key (meta ob)" using delete_frame [OF assms(1), of k] by blast
  moreover have "view s' \<noteq> view s" using d by auto
  ultimately show "view s k = None \<or> mine s owner k"
    using delete_uid [OF assms(1)] assms(2,3) unfolding mine_def by fastforce
qed (use delete_frame [OF assms(1)] in auto)

text \<open>Changes to distinct sets of keys compose.\<close>

lemma owned_trans:
  assumes "owned_change owner K s t" "owned_change owner L t u" "K \<inter> L = {}"
  shows "owned_change owner (K \<union> L) s u"
proof -
  have same: "view t k = view s k \<and> past t k = past s k" if "k \<notin> K" for k
    using assms(1) that by (simp add: owned_change_def)
  have other: "view u k = view t k \<and> past u k = past t k" if "k \<notin> L" for k
    using assms(2) that by (simp add: owned_change_def)
  have "view s k = None \<or> mine s owner k" if d: "view u k \<noteq> view s k" for k
  proof (cases "k \<in> K")
    case True
    then have "k \<notin> L" using assms(3) by blast
    then have "view t k \<noteq> view s k" using d other by simp
    then show ?thesis using assms(1) by (simp add: owned_change_def)
  next
    case False
    then have "view u k \<noteq> view t k" using d same by simp
    then have "view t k = None \<or> mine t owner k" using assms(2) by (simp add: owned_change_def)
    then show ?thesis using same [OF False] by (simp add: mine_def)
  qed
  then show ?thesis using same other unfolding owned_change_def by auto
qed

end

section \<open>A server with a cache and faults\<close>

text \<open>
  A server that keeps the promises: the objects held, those that the cache still shows, and for each request to come
  whether it fails and is then applied or not. A read shows the cache where it has an entry.
\<close>

record 'o kserver =
  kv_held :: "(NamespacedName \<times> 'o) list"
  kv_cache :: "(NamespacedName \<times> 'o) list"
  kv_faults :: "fault list"

definition kv_next :: "'o kserver \<Rightarrow> fault \<times> 'o kserver" where
  "kv_next s = (case next_fault (kv_faults s) of (f, fs) \<Rightarrow> (f, s\<lparr>kv_faults := fs\<rparr>))"

definition kv_at :: "('o \<Rightarrow> ObjectMeta) \<Rightarrow> (NamespacedName \<times> 'o) list \<Rightarrow> NamespacedName \<Rightarrow> 'o option" where
  "kv_at meta m k = (case map_of m k of Some ob \<Rightarrow> if meta_key (meta ob) = k then Some ob else None | None \<Rightarrow> None)"

definition kv_get :: "('o \<Rightarrow> ObjectMeta) \<Rightarrow> NamespacedName \<Rightarrow> 'o kserver \<Rightarrow> (api_err, 'o) result \<times> 'o kserver" where
  "kv_get meta k s =
     (case kv_next s of
        (Fine, s1) \<Rightarrow> ((case kv_at meta (kv_cache s) k of
             Some ob \<Rightarrow> Ok ob
           | None \<Rightarrow> (case kv_at meta (kv_held s) k of Some ob \<Rightarrow> Ok ob | None \<Rightarrow> Err (status_err ''NotFound''))), s1)
      | (Fails e, s1) \<Rightarrow> (Err e, s1)
      | (Lost e, s1) \<Rightarrow> (Err e, s1))"

text \<open>A write: \<open>f\<close> gives what becomes of the object held, or the reason of a refusal.\<close>

definition kv_write ::
  "('o \<Rightarrow> ObjectMeta) \<Rightarrow> NamespacedName \<Rightarrow> ('o option \<Rightarrow> (string, 'o option \<times> 'a) result) \<Rightarrow> 'o kserver \<Rightarrow> (api_err, 'a) result \<times> 'o kserver" where
  "kv_write meta k f s =
     (case kv_next s of
        (Fails e, s1) \<Rightarrow> (Err (hide_notfound e), s1)
      | (flt, s1) \<Rightarrow>
          (case f (kv_at meta (kv_held s) k) of
             Inl reason \<Rightarrow> (Err (status_err reason), s1)
           | Inr (new, x) \<Rightarrow>
               ((case flt of Lost e \<Rightarrow> Err (hide_notfound e) | _ \<Rightarrow> Ok x),
                s1\<lparr>kv_held := (case new of None \<Rightarrow> mdel k (kv_held s1) | Some ob \<Rightarrow> mput k ob (kv_held s1))\<rparr>)))"

text \<open>\<open>kv_client setOwners meta\<close>: \<open>setOwners\<close> writes the owner references of an object.\<close>

definition controller_of :: "ObjectMeta \<Rightarrow> OwnerReference" where
  "controller_of owner = \<lparr>or_APIVersion = ''kubocd.kubotal.io/v1alpha1'', or_Kind = ''Release'', or_Name = om_Name owner,
     or_UID = om_UID owner, or_Controller = True\<rparr>"

definition kv_client :: "(ObjectMeta \<Rightarrow> 'o \<Rightarrow> 'o) \<Rightarrow> ('o \<Rightarrow> ObjectMeta) \<Rightarrow> ('o kserver, 'o) kind_client" where
  "kv_client setMeta meta =
     \<lparr>kc_Get = kv_get meta,
      kc_Create = (\<lambda>ob. kv_write meta (meta_key (meta ob))
         (\<lambda>h. case h of Some _ \<Rightarrow> Err ''AlreadyExists'' | None \<Rightarrow> Ok (Some ob, ob))),
      kc_Patch = (\<lambda>g b ob. kv_write meta (meta_key (meta ob))
         (\<lambda>h. case h of None \<Rightarrow> Err ''NotFound''
               | Some held \<Rightarrow> if g \<noteq> Unguarded \<and> om_UID (meta held) \<noteq> om_UID (meta ob)
                    \<or> g = GuardVersion \<and> om_ResourceVersion (meta held) \<noteq> om_ResourceVersion (meta ob)
                   then Err ''Conflict'' else Ok (Some ob, ob))),
      kc_Delete = (\<lambda>uid ob. kv_write meta (meta_key (meta ob))
         (\<lambda>h. case h of None \<Rightarrow> Err ''NotFound''
               | Some held \<Rightarrow> if uid \<and> om_UID (meta held) \<noteq> om_UID (meta ob) then Err ''Conflict'' else Ok (None, ()))),
      kc_SetController = (\<lambda>owner ob.
         let ob' = setMeta ((meta ob)\<lparr>om_OwnerReferences := om_OwnerReferences (meta ob) @ [controller_of owner]\<rparr>) ob
         in if meta_key (meta ob') = meta_key (meta ob) then Ok ob' else Err ''moved'')\<rparr>"

definition kv_view :: "('o \<Rightarrow> ObjectMeta) \<Rightarrow> 'o kserver \<Rightarrow> NamespacedName \<Rightarrow> 'o option" where
  "kv_view meta s = kv_at meta (kv_held s)"

definition kv_past :: "('o \<Rightarrow> ObjectMeta) \<Rightarrow> 'o kserver \<Rightarrow> NamespacedName \<Rightarrow> 'o \<Rightarrow> bool" where
  "kv_past meta s k ob \<longleftrightarrow> kv_at meta (kv_held s) k = Some ob \<or> kv_at meta (kv_cache s) k = Some ob"

lemma kv_at_key: "kv_at meta m k = Some ob \<Longrightarrow> meta_key (meta ob) = k"
  by (auto simp: kv_at_def split: option.splits if_splits)

lemma kv_at_write [simp]:
  "k' \<noteq> k \<Longrightarrow> kv_at meta (mput k ob m) k' = kv_at meta m k'"
  "k' \<noteq> k \<Longrightarrow> kv_at meta (mdel k m) k' = kv_at meta m k'"
  by (auto simp: kv_at_def)

lemma kv_next_same: "kv_next s = (f, s1) \<Longrightarrow> kv_held s1 = kv_held s \<and> kv_cache s1 = kv_cache s"
  by (auto simp: kv_next_def split: prod.splits)

lemma kv_write_cases:
  assumes "kv_write meta k f s = (r, s')"
  obtains "kv_view meta s' = kv_view meta s" "kv_past meta s' = kv_past meta s"
  | new x where "f (kv_view meta s k) = Inr (new, x)"
      "\<And>k'. k' \<noteq> k \<Longrightarrow> kv_view meta s' k' = kv_view meta s k' \<and> kv_past meta s' k' = kv_past meta s k'"
proof -
  obtain flt s1 where n: "kv_next s = (flt, s1)" by (cases "kv_next s")
  note same = kv_next_same [OF n]
  consider "s' = s1" | new x where "f (kv_view meta s k) = Inr (new, x)"
      "s' = s1\<lparr>kv_held := (case new of None \<Rightarrow> mdel k (kv_held s1) | Some ob \<Rightarrow> mput k ob (kv_held s1))\<rparr>"
    using assms n unfolding kv_write_def by (auto simp: kv_view_def split: fault.splits sum.splits prod.splits)
  then show ?thesis
  proof cases
    case 1
    then show ?thesis using that(1) same by (auto simp: kv_view_def kv_past_def fun_eq_iff)
  next
    case 2
    have "kv_view meta s' k' = kv_view meta s k' \<and> kv_past meta s' k' = kv_past meta s k'" if "k' \<noteq> k" for k'
      using 2(2) same that by (cases new) (auto simp: kv_view_def kv_past_def fun_eq_iff)
    then show ?thesis using that(2) 2(1) by blast
  qed
qed

interpretation kv: kube_kind "kv_client setMeta meta" "kv_view meta" "kv_past meta" meta
  for setMeta :: "ObjectMeta \<Rightarrow> 'o \<Rightarrow> 'o" and meta :: "'o \<Rightarrow> ObjectMeta"
proof
  fix k s r s'
  assume "kc_Get (kv_client setMeta meta) k s = (r, s')"
  then show "kv_view meta s' = kv_view meta s \<and> kv_past meta s' = kv_past meta s"
    using kv_next_same [of s]
    by (auto simp: kv_client_def kv_get_def kv_view_def kv_past_def fun_eq_iff split: prod.splits fault.splits)
next
  fix k s ob s'
  assume "kc_Get (kv_client setMeta meta) k s = (Inr ob, s')"
  then show "kv_past meta s k ob \<and> meta_key (meta ob) = k"
    by (auto simp: kv_client_def kv_get_def kv_past_def dest: kv_at_key split: prod.splits fault.splits option.splits)
next
  fix ob s r s' k
  assume "kc_Create (kv_client setMeta meta) ob s = (r, s')" "k \<noteq> meta_key (meta ob)"
  then show "kv_view meta s' k = kv_view meta s k \<and> kv_past meta s' k = kv_past meta s k"
    unfolding kv_client_def kind_client.simps by (elim kv_write_cases) auto
next
  fix ob s r s'
  assume "kc_Create (kv_client setMeta meta) ob s = (r, s')" "kv_view meta s' \<noteq> kv_view meta s"
  then show "kv_view meta s (meta_key (meta ob)) = None"
    unfolding kv_client_def kind_client.simps by (elim kv_write_cases) (auto split: option.splits)
next
  fix g b ob s r s' k
  assume "kc_Patch (kv_client setMeta meta) g b ob s = (r, s')" "k \<noteq> meta_key (meta ob)"
  then show "kv_view meta s' k = kv_view meta s k \<and> kv_past meta s' k = kv_past meta s k"
    unfolding kv_client_def kind_client.simps by (elim kv_write_cases) auto
next
  fix g b ob s r s'
  assume "kc_Patch (kv_client setMeta meta) g b ob s = (r, s')" "g \<noteq> Unguarded" "kv_view meta s' \<noteq> kv_view meta s"
  then show "\<exists>held. kv_view meta s (meta_key (meta ob)) = Some held \<and> om_UID (meta held) = om_UID (meta ob)"
    unfolding kv_client_def kind_client.simps by (elim kv_write_cases) (auto split: option.splits if_splits)
next
  fix uid ob s r s' k
  assume "kc_Delete (kv_client setMeta meta) uid ob s = (r, s')" "k \<noteq> meta_key (meta ob)"
  then show "kv_view meta s' k = kv_view meta s k \<and> kv_past meta s' k = kv_past meta s k"
    unfolding kv_client_def kind_client.simps by (elim kv_write_cases) auto
next
  fix ob s r s'
  assume "kc_Delete (kv_client setMeta meta) True ob s = (r, s')" "kv_view meta s' \<noteq> kv_view meta s"
  then show "\<exists>held. kv_view meta s (meta_key (meta ob)) = Some held \<and> om_UID (meta held) = om_UID (meta ob)"
    unfolding kv_client_def kind_client.simps by (elim kv_write_cases) (auto split: option.splits if_splits)
next
  fix owner ob ob'
  assume "kc_SetController (kv_client setMeta meta) owner ob = Inr ob'"
  then show "meta_key (meta ob') = meta_key (meta ob)"
    by (auto simp: kv_client_def Let_def split: if_splits)
qed

section \<open>Deletions\<close>

text \<open>
  A deletion that succeeds leaves nothing, or an object marked as being deleted while it has finalizers; one that finds nothing leaves nothing.
  No deletion brings an object back.
\<close>

abbreviation deleted :: "('s \<Rightarrow> NamespacedName \<Rightarrow> 'o option) \<Rightarrow> ('o \<Rightarrow> ObjectMeta) \<Rightarrow> 's \<Rightarrow> NamespacedName \<Rightarrow> bool" where
  "deleted view meta s k \<equiv> (case view s k of None \<Rightarrow> True | Some held \<Rightarrow> om_DeletionTimestamp (meta held) \<noteq> None)"

locale kube_delete = kube_kind +
  assumes delete_done: "kc_Delete C uid ob s = (Inr u, s') \<Longrightarrow> deleted view meta s' (meta_key (meta ob))"
    and delete_gone: "kc_Delete C uid ob s = (Inl e, s') \<Longrightarrow> IsNotFound e \<Longrightarrow> view s' (meta_key (meta ob)) = None"
    and delete_step: "kc_Delete C uid ob s = (d, s') \<Longrightarrow> view s' (meta_key (meta ob)) = view s (meta_key (meta ob)) \<or> deleted view meta s' (meta_key (meta ob))"
begin

lemma deleted_stays:
  assumes "kc_Delete C uid ob s = (d, s')" "deleted view meta s k"
  shows "deleted view meta s' k"
  using delete_frame [OF assms(1), of k] delete_step [OF assms(1)] assms(2) by (cases "k = meta_key (meta ob)") auto

lemma deleted_now:
  assumes "kc_Delete C uid ob s = (d, s')" "case d of Inl e \<Rightarrow> IsNotFound e | Inr _ \<Rightarrow> True"
  shows "deleted view meta s' (meta_key (meta ob))"
  using delete_done [of uid ob s _ s'] delete_gone [of uid ob s _ s'] assms by (cases d) auto

end

lemma kv_delete_cases:
  assumes "kc_Delete (kv_client setMeta meta) uid ob s = (d, s')"
  shows "(kv_view meta s' = kv_view meta s \<and> (\<exists>e. d = Inl e \<and> (IsNotFound e \<longrightarrow> kv_view meta s (meta_key (meta ob)) = None)))
    \<or> kv_view meta s' (meta_key (meta ob)) = None"
proof -
  obtain flt s1 where n: "kv_next s = (flt, s1)" by (cases "kv_next s")
  have v: "kv_view meta s1 = kv_view meta s" using kv_next_same [OF n] by (simp add: kv_view_def)
  have g: "kv_view meta (s1\<lparr>kv_held := mdel k (kv_held s1)\<rparr>) k = None" for k by (simp add: kv_view_def kv_at_def)
  show ?thesis
    using assms n v g kv_next_same [OF n] unfolding kv_client_def kind_client.simps kv_write_def
    by (auto simp: kv_view_def split: fault.splits option.splits if_splits)
qed

interpretation kv: kube_delete "kv_client setMeta meta" "kv_view meta" "kv_past meta" meta
  for setMeta :: "ObjectMeta \<Rightarrow> 'o \<Rightarrow> 'o" and meta :: "'o \<Rightarrow> ObjectMeta"
  by unfold_locales (auto dest!: kv_delete_cases)

section \<open>A server of several kinds\<close>

text \<open>The client of one kind as a client of a larger state, of which that kind is a part.\<close>

definition on_part :: "('t \<Rightarrow> 's) \<Rightarrow> ('s \<Rightarrow> 't \<Rightarrow> 't) \<Rightarrow> ('s \<Rightarrow> 'a \<times> 's) \<Rightarrow> 't \<Rightarrow> 'a \<times> 't" where
  "on_part get put f t = (case f (get t) of (x, s) \<Rightarrow> (x, put s t))"

definition part_client :: "('t \<Rightarrow> 's) \<Rightarrow> ('s \<Rightarrow> 't \<Rightarrow> 't) \<Rightarrow> ('s, 'o) kind_client \<Rightarrow> ('t, 'o) kind_client" where
  "part_client get put C =
     \<lparr>kc_Get = (\<lambda>k. on_part get put (kc_Get C k)), kc_Create = (\<lambda>ob. on_part get put (kc_Create C ob)),
      kc_Patch = (\<lambda>g b ob. on_part get put (kc_Patch C g b ob)), kc_Delete = (\<lambda>uid ob. on_part get put (kc_Delete C uid ob)),
      kc_SetController = kc_SetController C\<rparr>"

lemma on_part_iff:
  assumes "\<And>s t. get (put s t) = s"
  shows "on_part get put f t = (x, t') \<Longrightarrow> f (get t) = (x, get t')"
  using assms by (auto simp: on_part_def split: prod.splits)

lemma part_ops:
  assumes "\<And>s t. get (put s t) = s"
  shows "kc_Get (part_client get put C) k t = (r, t') \<Longrightarrow> kc_Get C k (get t) = (r, get t')"
    and "kc_Create (part_client get put C) ob t = (r, t') \<Longrightarrow> kc_Create C ob (get t) = (r, get t')"
    and "kc_Patch (part_client get put C) g b ob t = (r, t') \<Longrightarrow> kc_Patch C g b ob (get t) = (r, get t')"
    and "kc_Delete (part_client get put C) uid ob t = (d, t') \<Longrightarrow> kc_Delete C uid ob (get t) = (d, get t')"
  using on_part_iff [of get put] assms by (auto simp: part_client_def)

lemma part_kube_kind:
  assumes lens: "\<And>s t. get (put s t) = s" and k: "kube_kind C view past meta"
  shows "kube_kind (part_client get put C) (\<lambda>t. view (get t)) (\<lambda>t. past (get t)) meta"
proof (unfold_locales, goal_cases)
  case (1 k' s r s')
  then show ?case by (rule kube_kind.get_frame [OF k part_ops(1) [of get put, OF lens]])
next
  case (2 k' s ob s')
  then show ?case by (rule kube_kind.get_ok [OF k part_ops(1) [of get put, OF lens]])
next
  case (3 ob s r s' k')
  then show ?case using kube_kind.create_frame [OF k part_ops(2) [of get put, OF lens]] by blast
next
  case (4 ob s r s')
  then show ?case using kube_kind.create_new [OF k part_ops(2) [of get put, OF lens]] by blast
next
  case (5 g b ob s r s' k')
  then show ?case using kube_kind.patch_frame [OF k part_ops(3) [of get put, OF lens]] by blast
next
  case (6 g b ob s r s')
  then show ?case using kube_kind.patch_uid [OF k part_ops(3) [of get put, OF lens]] by blast
next
  case (7 uid ob s d s' k')
  then show ?case using kube_kind.delete_frame [OF k part_ops(4) [of get put, OF lens]] by blast
next
  case (8 ob s d s')
  then show ?case using kube_kind.delete_uid [OF k part_ops(4) [of get put, OF lens]] by blast
next
  case (9 owner ob ob')
  then show ?case using kube_kind.controller_key [OF k] by (simp add: part_client_def)
qed

lemma part_kube_delete:
  assumes lens: "\<And>s t. get (put s t) = s" and k: "kube_delete C view past meta"
  shows "kube_delete (part_client get put C) (\<lambda>t. view (get t)) (\<lambda>t. past (get t)) meta"
proof (intro kube_delete.intro kube_delete_axioms.intro, goal_cases)
  case 1
  show ?case using part_kube_kind [of get put, OF lens kube_delete.axioms(1) [OF k]] .
next
  case (2 uid ob s u s')
  then show ?case by (rule kube_delete.delete_done [OF k part_ops(4) [of get put, OF lens]])
next
  case (3 uid ob s e s')
  then show ?case using kube_delete.delete_gone [OF k part_ops(4) [of get put, OF lens]] by blast
next
  case (4 uid ob s d s')
  then show ?case by (rule kube_delete.delete_step [OF k part_ops(4) [of get put, OF lens]])
qed

end
