(* ===== verification/Sources.thy ===== *)
theory Sources
  imports Children
begin

text \<open>
  The Flux sources of a Release: the OCIRepository of its package (\<open>release_ocirepository.go\<close>) and the HelmRepository that serves
  the charts of the package (\<open>release_helmrepository.go\<close>). Each is created, patched or deleted through its \<open>kind_client\<close>, and is
  given to the rest of the reconciliation only once it is ready. Of the Flux objects the fields that the code reads or
  writes are kept.
\<close>

section \<open>Flux objects\<close>

record artifact =
  ar_URL :: string
  ar_Revision :: string
  ar_Digest :: string

record 'spec FluxObject =
  fo_meta :: ObjectMeta
  fo_Spec :: 'spec
  fo_Conditions :: "Condition list"
  fo_ObservedGeneration :: int
  fo_Artifact :: "artifact option"

record OCISpec =
  ocs_URL :: string
  ocs_Tag :: string
  ocs_AddOn :: OciAddOn
  ocs_Interval :: Duration
  ocs_Timeout :: "Duration option"
  ocs_LayerSelector :: "string \<times> string"

record HelmRepositorySpec =
  hrs_URL :: string
  hrs_Interval :: Duration

type_synonym OCIRepository = "OCISpec FluxObject"
type_synonym HelmRepository = "HelmRepositorySpec FluxObject"

text \<open>A Flux object before its first reconciliation.\<close>

definition new_flux :: "ObjectMeta \<Rightarrow> 'spec \<Rightarrow> 'spec FluxObject" where
  "new_flux m spec = \<lparr>fo_meta = m, fo_Spec = spec, fo_Conditions = [], fo_ObservedGeneration = 0, fo_Artifact = None\<rparr>"

section \<open>Readiness\<close>

definition notReadySource :: "string \<Rightarrow> string \<Rightarrow> Condition list \<Rightarrow> string" where
  "notReadySource kind name conditions =
     kind @ '' '' @ squote name @ '' is not ready'' @
     (case FindStatusCondition conditions ''Ready'' of
        None \<Rightarrow> ''''
      | Some r \<Rightarrow> if cd_Message r \<noteq> '''' then '': '' @ cd_Message r else '''')"

text \<open>
  The end of \<open>handleOciRepository\<close> and of \<open>handleHelmRepository\<close>: the object once it is ready, or the message of the wait.
\<close>

type_synonym 'o waiting = "(ReconcileError, 'o option \<times> string) result"

definition readySource :: "string \<Rightarrow> string \<Rightarrow> string \<Rightarrow> 'spec FluxObject \<Rightarrow> 'spec FluxObject waiting" where
  "readySource kind wait name ob =
     (let statusByType = (if staleReady (fo_Conditions ob) (fo_ObservedGeneration ob) (om_Generation (fo_meta ob))
                          then mdel ''Ready'' (buildConditionStatusByType (fo_Conditions ob))
                          else buildConditionStatusByType (fo_Conditions ob))
      in case map_of statusByType ''Ready'' of
           None \<Rightarrow> Ok (None, wait)
         | Some ConditionUnknown \<Rightarrow> Ok (None, wait)
         | Some ConditionFalse \<Rightarrow> Ok (None, notReadySource kind name (fo_Conditions ob))
         | Some ConditionUnset \<Rightarrow>
             Err (NewReconcileError (''invalid status '' @ squote '''' @ '' for Ready condition on '' @ kind @ '' '' @ squote name) True (kind @ ''NotReady''))
         | Some ConditionTrue \<Rightarrow> if fo_Artifact ob = None then Ok (None, wait) else Ok (Some ob, ''''))"

section \<open>The OCIRepository\<close>

definition waitOciRepository :: string where "waitOciRepository = ''Wait OCI repository''"
definition PackageContentMediaType :: string where
  "PackageContentMediaType = ''application/vnd.kubotal.kubocd.package.content.v1.tar+gzip''"
definition OCILayerExtract :: string where "OCILayerExtract = ''extract''"

record OCIRepositoryOptions =
  oo_AllowRedirectVerifyDrop :: bool
  oo_AllowReleaseInsecureSource :: bool

datatype oci_error = InsecureSource | OciOther string

definition insecure_text :: string where
  "insecure_text = ''Release.spec.package.insecure is not allowed without a matching packageRedirect''"

fun oci_text :: "oci_error \<Rightarrow> string" where
  "oci_text InsecureSource = insecure_text"
| "oci_text (OciOther t) = t"

text \<open>\<open>fmt.Errorf\<close> with a text before the error it wraps: \<open>errors.Is\<close> still finds the sentinel.\<close>

fun oci_wrap :: "string \<Rightarrow> oci_error \<Rightarrow> oci_error" where
  "oci_wrap t InsecureSource = InsecureSource"
| "oci_wrap t (OciOther e) = OciOther (t @ e)"

definition PopulateOciRepository ::
  "configuration \<Rightarrow> OCIRepositoryOptions \<Rightarrow> Release \<Rightarrow> string \<Rightarrow> string \<Rightarrow> (oci_error, OCISpec) result" where
  "PopulateOciRepository cfg options release mediaType ociOperation =
     (let package = rs_Package (rl_Spec release); addon = ps_OciAddOn package
      in case GetPackageRedirect cfg (ps_Repository package @ '':'' @ ps_Tag package) of
           (Some redirect, newUrl) \<Rightarrow>
             (case DecodeImageUrl newUrl of
                Inl (InvalidImageName img) \<Rightarrow> Err (OciOther (''invalid OCI repository URL: invalid image name: '' @ img))
              | Inr (repo, tag) \<Rightarrow>
                  Ok \<lparr>ocs_URL = ''oci://'' @ repo, ocs_Tag = tag,
                      ocs_AddOn = (pr_OciAddOn redirect)\<lparr>oa_Verify :=
                         (if oa_Verify (pr_OciAddOn redirect) = None \<and> \<not> oo_AllowRedirectVerifyDrop options
                          then oa_Verify addon else oa_Verify (pr_OciAddOn redirect))\<rparr>,
                      ocs_Interval = pr_Interval redirect, ocs_Timeout = pr_Timeout redirect,
                      ocs_LayerSelector = (mediaType, ociOperation)\<rparr>)
         | (None, _) \<Rightarrow>
             if oa_Insecure addon \<and> \<not> oo_AllowReleaseInsecureSource options then Err InsecureSource
             else Ok \<lparr>ocs_URL = ''oci://'' @ ps_Repository package, ocs_Tag = ps_Tag package, ocs_AddOn = addon,
                      ocs_Interval = ps_Interval package, ocs_Timeout = ps_Timeout package,
                      ocs_LayerSelector = (mediaType, ociOperation)\<rparr>)"

record 's oci_env =
  oe_client :: "('s, OCIRepository) kind_client"
  oe_config :: configuration
  oe_options :: OCIRepositoryOptions

definition createOciRepository ::
  "'s oci_env \<Rightarrow> Release \<Rightarrow> string \<Rightarrow> 's world \<Rightarrow> (oci_error, unit) result \<times> 's world" where
  "createOciRepository env release name w =
     (case PopulateOciRepository (oe_config env) (oe_options env) release PackageContentMediaType OCILayerExtract of
        Inl e \<Rightarrow> (Err (oci_wrap (''error while creating associated OCIRepository '' @ squote name @ '': '') e), w)
      | Inr spec \<Rightarrow>
          (case kc_SetController (oe_client env) (rl_meta release) (new_flux (new_meta (om_Namespace (rl_meta release)) name) spec) of
             Inl e \<Rightarrow> (Err (OciOther (''unable to set owner reference on OCIRepository '' @ squote name @ '': '' @ e)), w)
           | Inr ob \<Rightarrow>
               (case call (kc_Create (oe_client env) ob) w of
                  (Inl e, w1) \<Rightarrow> (Err (OciOther (''error while creating associated OCIRepository '' @ squote name @ '': '' @ api_Error e)), w1)
                | (Inr _, w1) \<Rightarrow> (Ok (), w1))))"

definition patchOciRepository ::
  "'s oci_env \<Rightarrow> Release \<Rightarrow> OCIRepository \<Rightarrow> 's world \<Rightarrow> (oci_error, OCIRepository) result \<times> 's world" where
  "patchOciRepository env release ob w =
     (let place = ''error while patching OCIRepository '' @ squote (om_Name (fo_meta ob)) @ '': ''
      in case PopulateOciRepository (oe_config env) (oe_options env) release PackageContentMediaType OCILayerExtract of
           Inl e \<Rightarrow>
             if e = InsecureSource \<and> oa_Insecure (ocs_AddOn (fo_Spec ob)) \<and> IsControlledBy (fo_meta ob) (rl_meta release)
             then (case call (kc_Patch (oe_client env) GuardVersion ob
                       (ob\<lparr>fo_Spec := (fo_Spec ob)\<lparr>ocs_AddOn := (ocs_AddOn (fo_Spec ob))\<lparr>oa_Insecure := False\<rparr>\<rparr>\<rparr>)) w of
                     (Inl _, w1) \<Rightarrow> (Err (OciOther ''could not disable insecure transport on associated OCIRepository''), w1)
                   | (Inr _, w1) \<Rightarrow> (Err (oci_wrap place e), w1))
             else (Err (oci_wrap place e), w)
         | Inr spec \<Rightarrow>
             (case call (kc_Patch (oe_client env) GuardUID ob (ob\<lparr>fo_Spec := spec\<rparr>)) w of
                (Inl e, w1) \<Rightarrow> (Err (OciOther (place @ api_Error e)), w1)
              | (Inr ob', w1) \<Rightarrow> (Ok ob', w1)))"

text \<open>The \<open>ReconcileError\<close> of a failed creation or patch.\<close>

definition oci_failed :: "string \<Rightarrow> oci_error \<Rightarrow> ReconcileError" where
  "oci_failed reason e = (case e of
     InsecureSource \<Rightarrow> NewReconcileError insecure_text True ''ReleaseInsecureSource''
   | OciOther t \<Rightarrow> NewReconcileError t False reason)"

definition handleOciRepository :: "'s oci_env \<Rightarrow> Release \<Rightarrow> string \<Rightarrow> 's world \<Rightarrow> OCIRepository waiting \<times> 's world" where
  "handleOciRepository env release name w =
     (case call (kc_Get (oe_client env) (nn (om_Namespace (rl_meta release)) name)) w of
        (Inl e, w1) \<Rightarrow>
          if \<not> IsNotFound e then (Err (NewReconcileError (''on '' @ squote name @ '': '' @ api_Error e) False ''OCIRepositoryAccess''), w1)
          else (case createOciRepository env release name w1 of
                  (Inl e, w2) \<Rightarrow> (Err (oci_failed ''OCIRepositoryCreateFailed'' e), w2)
                | (Inr _, w2) \<Rightarrow>
                    (Ok (None, waitOciRepository), Event ''Normal'' ''OCIRepositoryCreated'' (''Created OCIRepository '' @ dquote name) w2))
      | (Inr ob, w1) \<Rightarrow>
          if \<not> IsControlledBy (fo_meta ob) (rl_meta release)
          then (Err (NewReconcileError (''OCIRepository '' @ squote name @ '' exists and is not controlled by this Release'') False ''OCIRepositoryOwner''), w1)
          else (case patchOciRepository env release ob w1 of
                  (Inl e, w2) \<Rightarrow> (Err (oci_failed ''OCIRepositoryPatchFailed'' e), w2)
                | (Inr ob', w2) \<Rightarrow> (readySource ''OCIRepository'' waitOciRepository name ob', w2)))"

section \<open>The HelmRepository\<close>

definition waitHelmRepository :: string where "waitHelmRepository = ''Wait Helm Repository''"
definition packageRevisionAnnotation :: string where
  "packageRevisionAnnotation = ''kubocd.kubotal.io/package-revision''"

definition PopulateHelmRepository :: "Release \<Rightarrow> string \<Rightarrow> HelmRepositorySpec" where
  "PopulateHelmRepository release repoUrl = \<lparr>hrs_URL = repoUrl, hrs_Interval = ps_Interval (rs_Package (rl_Spec release))\<rparr>"

text \<open>The error of a failed creation names the OCIRepository, whose name is the same.\<close>

definition createHelmRepository ::
  "('s, HelmRepository) kind_client \<Rightarrow> Release \<Rightarrow> string \<Rightarrow> string \<Rightarrow> string \<Rightarrow> string \<Rightarrow> 's world \<Rightarrow> (string, unit) result \<times> 's world" where
  "createHelmRepository client release ociName name revision repoUrl w =
     (let m = (new_meta (om_Namespace (rl_meta release)) name)\<lparr>om_Annotations := [(packageRevisionAnnotation, revision)]\<rparr>
      in case kc_SetController client (rl_meta release) (new_flux m (PopulateHelmRepository release repoUrl)) of
           Inl e \<Rightarrow> (Err (''unable to set owner reference on HelmRepository '' @ squote name @ '': '' @ e), w)
         | Inr ob \<Rightarrow>
             (case call (kc_Create client ob) w of
                (Inl e, w1) \<Rightarrow> (Err (''error while creating associated HelmRepository '' @ squote ociName @ '': '' @ api_Error e), w1)
              | (Inr _, w1) \<Rightarrow> (Ok (), w1)))"

definition patchHelmRepository ::
  "('s, HelmRepository) kind_client \<Rightarrow> Release \<Rightarrow> HelmRepository \<Rightarrow> string \<Rightarrow> 's world \<Rightarrow> (string, HelmRepository) result \<times> 's world" where
  "patchHelmRepository client release ob repoUrl w =
     (case call (kc_Patch client GuardUID ob (ob\<lparr>fo_Spec := PopulateHelmRepository release repoUrl\<rparr>)) w of
        (Inl e, w1) \<Rightarrow> (Err (''error while patching HelmRepository '' @ squote (om_Name (fo_meta ob)) @ '': '' @ api_Error e), w1)
      | (Inr ob', w1) \<Rightarrow> (Ok ob', w1))"

definition revisionOf :: "HelmRepository \<Rightarrow> string" where
  "revisionOf ob = (case map_of (om_Annotations (fo_meta ob)) packageRevisionAnnotation of None \<Rightarrow> '''' | Some r \<Rightarrow> r)"

definition handleHelmRepository ::
  "('s, HelmRepository) kind_client \<Rightarrow> Release \<Rightarrow> string \<Rightarrow> string \<Rightarrow> string \<Rightarrow> string \<Rightarrow> 's world \<Rightarrow> HelmRepository waiting \<times> 's world" where
  "handleHelmRepository client release ociName name revision repoUrl w =
     (case call (kc_Get client (nn (om_Namespace (rl_meta release)) name)) w of
        (Inl e, w1) \<Rightarrow>
          if \<not> IsNotFound e then (Err (NewReconcileError (''on '' @ squote name @ '': '' @ api_Error e) False ''HelmRepositoryAccess''), w1)
          else (case createHelmRepository client release ociName name revision repoUrl w1 of
                  (Inl e, w2) \<Rightarrow> (Err (NewReconcileError e False ''HelmRepositoryCreateFailed''), w2)
                | (Inr _, w2) \<Rightarrow>
                    (Ok (None, waitHelmRepository), Event ''Normal'' ''HelmRepositoryCreated'' (''Created HelmRepository '' @ dquote name) w2))
      | (Inr ob, w1) \<Rightarrow>
          if \<not> IsControlledBy (fo_meta ob) (rl_meta release)
          then (Err (NewReconcileError (''HelmRepository '' @ squote name @ '' exists and is not controlled by this Release'') False ''HelmRepositoryOwner''), w1)
          else if om_DeletionTimestamp (fo_meta ob) \<noteq> None then (Ok (None, waitHelmRepository), w1)
          else if revisionOf ob \<noteq> revision
          then (case call (kc_Delete client True ob) w1 of
                  (Inl e, w2) \<Rightarrow> if IsNotFound e then (Ok (None, waitHelmRepository), w2)
                                 else (Err (NewReconcileError (api_Error e) False ''HelmRepositoryDeleteFailed''), w2)
                | (Inr _, w2) \<Rightarrow>
                    (Ok (None, waitHelmRepository),
                     Event ''Normal'' ''HelmRepositoryDeleted'' (''Delete HelmRepository '' @ dquote name @ '' for content change'') w2))
          else (case patchHelmRepository client release ob repoUrl w1 of
                  (Inl e, w2) \<Rightarrow> (Err (NewReconcileError e False ''HelmRepositoryPatchFailed''), w2)
                | (Inr ob', w2) \<Rightarrow> (readySource ''HelmRepository'' waitHelmRepository name ob', w2)))"

section \<open>Lemmas\<close>

lemma readySource_ready:
  assumes "readySource kind wait name ob = Ok (Some ob', m)"
  shows "ob' = ob \<and> fo_Artifact ob \<noteq> None \<and> \<not> staleReady (fo_Conditions ob) (fo_ObservedGeneration ob) (om_Generation (fo_meta ob))
    \<and> map_of (buildConditionStatusByType (fo_Conditions ob)) ''Ready'' = Some ConditionTrue"
  using assms by (auto simp: readySource_def Let_def split: if_splits option.splits ConditionStatus.splits)

text \<open>An object whose Ready condition is True and not stale has been reconciled at its present generation.\<close>

lemma fresh_ready:
  assumes "\<not> staleReady (fo_Conditions ob) (fo_ObservedGeneration ob) (om_Generation (fo_meta ob))"
    and "FindStatusCondition (fo_Conditions ob) ''Ready'' = Some c" "cd_Status c = ConditionTrue"
  shows "om_Generation (fo_meta ob) \<le> cd_ObservedGeneration c \<and> om_Generation (fo_meta ob) \<le> fo_ObservedGeneration ob"
  using assms by (auto simp: staleReady_def)

lemma option_eqI: "(\<And>x. a = Some x \<longleftrightarrow> b = Some x) \<Longrightarrow> a = b"
  by (cases a; cases b) auto

text \<open>With one condition of each type, the map holds the status of the condition that \<open>FindStatusCondition\<close> finds.\<close>

lemma find_mem: "find P xs = Some x \<longleftrightarrow> x \<in> set xs \<and> P x"
  if "\<And>x y. x \<in> set xs \<Longrightarrow> y \<in> set xs \<Longrightarrow> P x \<Longrightarrow> P y \<Longrightarrow> x = y"
  using that by (induction xs) auto

lemma one_condition:
  assumes "distinct (map cd_Type conditions)"
  shows "map_of (buildConditionStatusByType conditions) t = map_option cd_Status (FindStatusCondition conditions t)"
proof -
  have u: "x = y" if "x \<in> set conditions" "y \<in> set conditions" "cd_Type x = t" "cd_Type y = t" for x y
    using assms that by (auto simp: distinct_map inj_on_def)
  have "find (\<lambda>c. cd_Type c = t) (rev conditions) = Some x \<longleftrightarrow> find (\<lambda>c. cd_Type c = t) conditions = Some x" for x
    using find_mem [of conditions "\<lambda>c. cd_Type c = t" x] find_mem [of "rev conditions" "\<lambda>c. cd_Type c = t" x] u by simp
  then have "find (\<lambda>c. cd_Type c = t) (rev conditions) = find (\<lambda>c. cd_Type c = t) conditions"
    by (rule option_eqI)
  then show ?thesis by (simp add: buildConditionStatusByType_last FindStatusCondition_def)
qed

text \<open>The interface of a kind, seen through the world of a reconciliation.\<close>

lemma new_flux_meta [simp]: "fo_meta (new_flux m spec) = m"
  by (simp add: new_flux_def)

context kube_kind
begin

lemma owned_world:
  "call (kc_Get C k) w = (r, w') \<Longrightarrow> owned_change owner K (w_api w') t \<Longrightarrow> owned_change owner K (w_api w) t"
  "call (kc_Create C ob) w = (r, w') \<Longrightarrow> owned_change owner {meta_key (meta ob)} (w_api w) (w_api w')"
  using owned_get owned_create by (auto simp: call_iff)

lemma get_world:
  "call (kc_Get C k) w = (Inr ob, w') \<Longrightarrow> past (w_api w') k ob \<and> meta_key (meta ob) = k"
  using get_ok get_frame by (fastforce simp: call_iff)

lemma owned_patch_world:
  assumes "call (kc_Patch C g b ob) w = (r, w')" "g \<noteq> Unguarded" "past (w_api w) k rd" "meta_key (meta ob) = k"
    and "om_UID (meta rd) = om_UID (meta ob)" "IsControlledBy (meta rd) owner"
  shows "owned_change owner {k} (w_api w) (w_api w')"
  using owned_patch [of g b ob "w_api w" r "w_api w'" rd owner] assms by (simp add: call_iff)

lemma owned_delete_world:
  assumes "call (kc_Delete C True ob) w = (r, w')" "past (w_api w) k ob" "meta_key (meta ob) = k" "IsControlledBy (meta ob) owner"
  shows "owned_change owner {k} (w_api w) (w_api w')"
  using owned_delete [of ob "w_api w" r "w_api w'" owner] assms by (simp add: call_iff)

end

lemma create_oci_owned:
  assumes k: "kube_kind (oe_client env) view past fo_meta" and "createOciRepository env release name w = (res, w')"
  shows "kube_kind.owned_change view past fo_meta (rl_meta release) {nn (om_Namespace (rl_meta release)) name} (w_api w) (w_api w')"
  using assms(2) kube_kind.owned_world(2) [OF k] kube_kind.controller_key [OF k] unfolding createOciRepository_def
  by (fastforce split: sum.splits prod.splits simp: kube_kind.owned_refl [OF k])

lemma patch_oci_owned:
  assumes k: "kube_kind (oe_client env) view past fo_meta" and "patchOciRepository env release ob w = (res, w')"
    and "past (w_api w) key ob" "meta_key (fo_meta ob) = key" "IsControlledBy (fo_meta ob) (rl_meta release)"
  shows "kube_kind.owned_change view past fo_meta (rl_meta release) {key} (w_api w) (w_api w')"
proof -
  have p: "kube_kind.owned_change view past fo_meta (rl_meta release) {key} (w_api w) (w_api w1)"
    if "call (kc_Patch (oe_client env) g ob (ob\<lparr>fo_Spec := spec\<rparr>)) w = (r, w1)" "g \<noteq> Unguarded" for g spec r w1
    using kube_kind.owned_patch_world [OF k that, of key ob] assms(3-5) by simp
  show ?thesis
    using assms(2) p kube_kind.owned_refl [OF k] unfolding patchOciRepository_def Let_def
    by (auto split: sum.splits prod.splits if_splits)
qed

lemma handle_oci_owned:
  assumes k: "kube_kind (oe_client env) view past fo_meta" and "handleOciRepository env release name w = (res, w')"
  shows "kube_kind.owned_change view past fo_meta (rl_meta release) {nn (om_Namespace (rl_meta release)) name} (w_api w) (w_api w')"
proof -
  let ?key = "nn (om_Namespace (rl_meta release)) name"
  let ?own = "\<lambda>w. kube_kind.owned_change view past fo_meta (rl_meta release) {?key} (w_api w) (w_api w')"
  obtain r w1 where g: "call (kc_Get (oe_client env) ?key) w = (r, w1)" by fastforce
  have "?own w1"
  proof (cases r)
    case (Inl e)
    then show ?thesis
      using assms(2) g create_oci_owned [OF k, of release name w1] kube_kind.owned_refl [OF k] unfolding handleOciRepository_def
      by (auto split: sum.splits prod.splits if_splits)
  next
    case (Inr ob)
    then have "past (w_api w1) ?key ob" "meta_key (fo_meta ob) = ?key" using kube_kind.get_world [OF k] g by blast+
    then show ?thesis
      using assms(2) g Inr patch_oci_owned [OF k, of release ob w1] kube_kind.owned_refl [OF k] unfolding handleOciRepository_def
      by (auto split: sum.splits prod.splits if_splits)
  qed
  then show ?thesis using kube_kind.owned_world(1) [OF k g] by blast
qed

lemma create_helm_owned:
  assumes k: "kube_kind client view past fo_meta" and "createHelmRepository client release ociName name revision repoUrl w = (res, w')"
  shows "kube_kind.owned_change view past fo_meta (rl_meta release) {nn (om_Namespace (rl_meta release)) name} (w_api w) (w_api w')"
proof -
  let ?m = "(new_meta (om_Namespace (rl_meta release)) name)\<lparr>om_Annotations := [(packageRevisionAnnotation, revision)]\<rparr>"
  have "meta_key ?m = nn (om_Namespace (rl_meta release)) name" by (simp add: meta_key_def new_meta_def)
  then show ?thesis
    using assms(2) kube_kind.owned_world(2) [OF k] kube_kind.controller_key [OF k] unfolding createHelmRepository_def Let_def
    by (fastforce split: sum.splits prod.splits simp: kube_kind.owned_refl [OF k])
qed

lemma handle_helm_owned:
  assumes k: "kube_kind client view past fo_meta"
    and "handleHelmRepository client release ociName name revision repoUrl w = (res, w')"
  shows "kube_kind.owned_change view past fo_meta (rl_meta release) {nn (om_Namespace (rl_meta release)) name} (w_api w) (w_api w')"
proof -
  let ?key = "nn (om_Namespace (rl_meta release)) name"
  let ?own = "\<lambda>w. kube_kind.owned_change view past fo_meta (rl_meta release) {?key} (w_api w) (w_api w')"
  obtain r w1 where g: "call (kc_Get client ?key) w = (r, w1)" by fastforce
  have "?own w1"
  proof (cases r)
    case (Inl e)
    then show ?thesis
      using assms(2) g create_helm_owned [OF k, of release ociName name revision repoUrl w1] kube_kind.owned_refl [OF k]
      unfolding handleHelmRepository_def by (auto split: sum.splits prod.splits if_splits)
  next
    case (Inr ob)
    then have ob: "past (w_api w1) ?key ob" "meta_key (fo_meta ob) = ?key" using kube_kind.get_world [OF k] g by blast+
    consider "w' = w1" | "IsControlledBy (fo_meta ob) (rl_meta release)" "\<exists>d w2. call (kc_Delete client True ob) w1 = (d, w2) \<and> w_api w' = w_api w2"
      | "IsControlledBy (fo_meta ob) (rl_meta release)"
        "\<exists>p. call (kc_Patch client GuardUID ob (ob\<lparr>fo_Spec := PopulateHelmRepository release repoUrl\<rparr>)) w1 = (p, w')"
      using assms(2) g Inr unfolding handleHelmRepository_def patchHelmRepository_def
      by (auto split: sum.splits prod.splits if_splits)
    then show ?thesis
    proof cases
      case 1
      then show ?thesis by (simp add: kube_kind.owned_refl [OF k])
    next
      case 2
      then show ?thesis using kube_kind.owned_delete_world [OF k _ ob] by metis
    next
      case 3
      then show ?thesis using kube_kind.owned_patch_world [OF k _ _ ob(1)] ob(2) by fastforce
    qed
  qed
  then show ?thesis using kube_kind.owned_world(1) [OF k g] by blast
qed

text \<open>What a Flux object must show: an artifact, and a Ready condition that is True and set at its present generation, which it has observed.\<close>

definition reconciled :: "'spec FluxObject \<Rightarrow> bool" where
  "reconciled ob \<longleftrightarrow> fo_Artifact ob \<noteq> None \<and>
     (\<exists>c. FindStatusCondition (fo_Conditions ob) ''Ready'' = Some c \<and> cd_Status c = ConditionTrue
        \<and> om_Generation (fo_meta ob) \<le> cd_ObservedGeneration c \<and> om_Generation (fo_meta ob) \<le> fo_ObservedGeneration ob)"

lemma readySource_reconciled:
  assumes "readySource kind wait name ob = Ok (Some ob', m)" "distinct (map cd_Type (fo_Conditions ob))"
  shows "reconciled ob'"
  using readySource_ready [OF assms(1)] one_condition [OF assms(2)] fresh_ready [of ob] by (auto simp: reconciled_def)

section \<open>A server for examples\<close>

abbreviation flux_client :: "('spec FluxObject kserver, 'spec FluxObject) kind_client" where
  "flux_client \<equiv> kv_client (\<lambda>m ob. ob\<lparr>fo_meta := m\<rparr>) fo_meta"

definition sample_options :: OCIRepositoryOptions where
  "sample_options = \<lparr>oo_AllowRedirectVerifyDrop = False, oo_AllowReleaseInsecureSource = False\<rparr>"

definition sample_oci_env :: "OCIRepository kserver oci_env" where
  "sample_oci_env = \<lparr>oe_client = flux_client, oe_config = empty_configuration, oe_options = sample_options\<rparr>"

text \<open>A Release with a UID, and an object of its namespace controlled by it or by another one.\<close>

definition owner_release :: Release where
  "owner_release = sample_release\<lparr>rl_meta := (rl_meta sample_release)\<lparr>om_UID := ''u1''\<rparr>\<rparr>"

definition child_meta :: "string \<Rightarrow> string \<Rightarrow> ObjectMeta" where
  "child_meta name uid = (new_meta ''n'' name)\<lparr>om_UID := name @ ''-'' @ uid, om_Generation := 1,
     om_Annotations := [(packageRevisionAnnotation, ''r@1'')], om_OwnerReferences := [(controller_of (rl_meta owner_release))\<lparr>or_UID := uid\<rparr>]\<rparr>"

definition ready_conditions :: "Condition list" where
  "ready_conditions = [\<lparr>cd_Type = ''Ready'', cd_Status = ConditionTrue, cd_ObservedGeneration = 1, cd_Message = ''''\<rparr>]"

definition ready_child :: "string \<Rightarrow> 'spec \<Rightarrow> 'spec FluxObject" where
  "ready_child uid spec = \<lparr>fo_meta = child_meta ''kcd-r'' uid, fo_Spec = spec, fo_Conditions = ready_conditions, fo_ObservedGeneration = 1,
     fo_Artifact = Some \<lparr>ar_URL = ''http://a'', ar_Revision = ''r@1'', ar_Digest = ''d''\<rparr>\<rparr>"

definition world_of :: "('o \<Rightarrow> ObjectMeta) \<Rightarrow> 'o list \<Rightarrow> 'o kserver world" where
  "world_of meta obs = \<lparr>w_api = \<lparr>kv_held = map (\<lambda>ob. (meta_key (meta ob), ob)) obs, kv_cache = [], kv_faults = []\<rparr>, w_events = []\<rparr>"

definition sample_spec :: OCISpec where
  "sample_spec = \<lparr>ocs_URL = ''oci://q.io/p'', ocs_Tag = ''1'', ocs_AddOn = zero_OciAddOn, ocs_Interval = 0, ocs_Timeout = None,
     ocs_LayerSelector = (PackageContentMediaType, OCILayerExtract)\<rparr>"

definition sample_hspec :: HelmRepositorySpec where
  "sample_hspec = \<lparr>hrs_URL = ''http://h'', hrs_Interval = 0\<rparr>"

section \<open>Properties\<close>

text \<open>The Release never touches a source of another owner. Whatever the requests answer, and even when the reads come from a
  stale cache, handling the OCIRepository or the HelmRepository of a Release changes or deletes no object other than the one it names, and
  that one only if it did not exist, or if it is the very object (the same UID) that was read under the control of the Release.\<close>

theorem sources_of_others_untouched:
  assumes "kube_kind (oe_client env) oview opast fo_meta" "kube_kind client hview hpast fo_meta"
    and "handleOciRepository env release name w = (r1, w1)"
    and "handleHelmRepository client release ociName name revision repoUrl v = (r2, v1)"
  shows "(oview (w_api w1) k \<noteq> oview (w_api w) k \<longrightarrow>
      k = nn (om_Namespace (rl_meta release)) name \<and>
      (oview (w_api w) k = None \<or> (\<exists>held ob. oview (w_api w) k = Some held \<and> opast (w_api w) k ob
         \<and> om_UID (fo_meta held) = om_UID (fo_meta ob) \<and> IsControlledBy (fo_meta ob) (rl_meta release))))
    \<and> (hview (w_api v1) k \<noteq> hview (w_api v) k \<longrightarrow>
      k = nn (om_Namespace (rl_meta release)) name \<and>
      (hview (w_api v) k = None \<or> (\<exists>held ob. hview (w_api v) k = Some held \<and> hpast (w_api v) k ob
         \<and> om_UID (fo_meta held) = om_UID (fo_meta ob) \<and> IsControlledBy (fo_meta ob) (rl_meta release))))"
  using handle_oci_owned [OF assms(1,3)] handle_helm_owned [OF assms(2,4)]
  unfolding kube_kind.owned_change_def [OF assms(1)] kube_kind.mine_def [OF assms(1)]
    kube_kind.owned_change_def [OF assms(2)] kube_kind.mine_def [OF assms(2)]
  by blast


text \<open>A source is used only when it is ready for its present specification. With one condition per type, the OCIRepository or
  HelmRepository that is given to the rest of the reconciliation has an artifact, and a Ready condition that is True and set at
  its present generation, which the object has observed.\<close>

theorem source_used_is_ready:
  assumes "handleOciRepository env release name w = (Ok (Some ob, m), w')"
    and "handleHelmRepository client release ociName name revision repoUrl v = (Ok (Some hr, m'), v')"
    and "distinct (map cd_Type (fo_Conditions ob))" "distinct (map cd_Type (fo_Conditions hr))"
  shows "reconciled ob \<and> reconciled hr"
proof -
  have "\<exists>x. readySource ''OCIRepository'' waitOciRepository name x = Ok (Some ob, m)"
    using assms(1) unfolding handleOciRepository_def by (auto split: prod.splits sum.splits if_splits)
  moreover have "\<exists>x. readySource ''HelmRepository'' waitHelmRepository name x = Ok (Some hr, m')"
    using assms(2) unfolding handleHelmRepository_def by (auto split: prod.splits sum.splits if_splits)
  ultimately show ?thesis
    using assms(3,4) readySource_ready readySource_reconciled by metis
qed

section \<open>Witnesses\<close>

text \<open>The read shows the object of the Release, which another one, of another owner, has replaced since.\<close>

definition replaced_world :: "'spec \<Rightarrow> 'spec FluxObject kserver world" where
  "replaced_world spec = \<lparr>w_api = \<lparr>kv_held = [(nn ''n'' ''kcd-r'', ready_child ''u2'' spec)], kv_cache = [(nn ''n'' ''kcd-r'', ready_child ''u1'' spec)],
     kv_faults = []\<rparr>, w_events = []\<rparr>"

lemma replaced_kept:
  "kv_view fo_meta (w_api (replaced_world spec)) (nn ''n'' ''kcd-r'') = Some (ready_child ''u2'' spec)"
  "kv_past fo_meta (w_api (replaced_world spec)) (nn ''n'' ''kcd-r'') ob \<longleftrightarrow> ob = ready_child ''u2'' spec \<or> ob = ready_child ''u1'' spec"
  "om_UID (fo_meta (ready_child u spec)) = ''kcd-r-'' @ u"
  "IsControlledBy (fo_meta (ready_child u spec)) (rl_meta owner_release) \<longleftrightarrow> u = ''u1''"
  by (auto simp: replaced_world_def kv_view_def kv_past_def kv_at_def meta_key_def nn_def ready_child_def child_meta_def new_meta_def
      IsControlledBy_def GetControllerOf_def controller_of_def owner_release_def sample_release_def)

lemma replaced_not_mine:
  "\<not> (kv_view fo_meta (w_api (replaced_world spec)) (nn ''n'' ''kcd-r'') = None \<or> (\<exists>held ob. kv_view fo_meta (w_api (replaced_world spec)) (nn ''n'' ''kcd-r'') = Some held
      \<and> kv_past fo_meta (w_api (replaced_world spec)) (nn ''n'' ''kcd-r'') ob \<and> om_UID (fo_meta held) = om_UID (fo_meta ob)
      \<and> IsControlledBy (fo_meta ob) (rl_meta owner_release)))"
  by (auto simp: replaced_kept)

theorem sources_of_others_untouched_witness:
  "kv_view fo_meta (w_api (snd (handleOciRepository sample_oci_env owner_release ''kcd-r'' (replaced_world sample_spec)))) (nn ''n'' ''kcd-r'')
     = Some (ready_child ''u2'' sample_spec)
   \<and> kv_view fo_meta (w_api (snd (handleHelmRepository flux_client owner_release ''kcd-r'' ''kcd-r'' ''r@2'' ''http://h'' (replaced_world sample_hspec)))) (nn ''n'' ''kcd-r'')
     = Some (ready_child ''u2'' sample_hspec)"
proof -
  have k: "kube_kind (oe_client sample_oci_env) (kv_view fo_meta) (kv_past fo_meta) fo_meta"
    by (simp add: sample_oci_env_def kv.kube_kind_axioms)
  show ?thesis
    using sources_of_others_untouched [OF k kv.kube_kind_axioms [of "\<lambda>m ob. ob\<lparr>fo_meta := m\<rparr>" fo_meta] prod.collapse [symmetric] prod.collapse [symmetric],
        where w = "replaced_world sample_spec" and k = "nn ''n'' ''kcd-r''" and release = owner_release and name = "''kcd-r''" and ociName = "''kcd-r''"
          and revision = "''r@2''" and repoUrl = "''http://h''" and v = "replaced_world sample_hspec"]
    using replaced_not_mine [of sample_spec] replaced_not_mine [of sample_hspec] replaced_kept(1) [of sample_spec] replaced_kept(1) [of sample_hspec]
    by metis
qed


theorem source_used_is_ready_witness:
  "reconciled (ready_child ''u1'' sample_spec) \<and> reconciled (ready_child ''u1'' sample_hspec)"
proof (rule source_used_is_ready)
  show "handleOciRepository sample_oci_env owner_release ''kcd-r'' (world_of fo_meta [ready_child ''u1'' sample_spec]) =
      (Ok (Some (ready_child ''u1'' sample_spec), ''''), world_of fo_meta [ready_child ''u1'' sample_spec])"
    by code_simp
  show "handleHelmRepository flux_client owner_release ''kcd-r'' ''kcd-r'' ''r@1'' ''http://h'' (world_of fo_meta [ready_child ''u1'' sample_hspec]) =
      (Ok (Some (ready_child ''u1'' sample_hspec), ''''), world_of fo_meta [ready_child ''u1'' sample_hspec])"
    by code_simp
qed (simp_all add: ready_child_def ready_conditions_def)

end
