(* ===== verification/RetainedSpec.thy ===== *)
theory RetainedSpec
  imports Sources ContextController
begin

text \<open>
  The part of an existing HelmRelease that a new specification keeps (\<open>retainedSpec\<close>, \<open>keepSetFields\<close>, \<open>unionTree\<close> and \<open>fieldKeys\<close> of
  \<open>release_helmrelease.go\<close>). The code walks the Go value by reflection along the JSON tree that is decoded into it next, so the model has Go types,
  Go values and, for the theorem, what \<open>encoding/json\<close> does when it decodes a tree into a value that exists.

  A struct is represented by the fields that \<open>jsonFields\<close> lists: their JSON names in its type, and their values in the same order. \<open>TCustom\<close> is a type with its own
  \<open>UnmarshalJSON\<close>. The case folding of \<open>strings.EqualFold\<close> is the argument \<open>fld\<close>: two keys match when they fold to the same string.
\<close>

section \<open>Types and values\<close>

datatype basic = BString | BBool | BNumber

datatype rtype =
    TBasic basic
  | TCustom
  | TPointer rtype
  | TStruct "(string \<times> rtype) list"
  | TMap rtype
  | TSlice rtype

datatype rval =
    RBasic jval
  | RCustom string
  | RPointer "rval option"
  | RStruct "rval list"
  | RMap "(string \<times> rval) list"
  | RSlice "rval list"

text \<open>The zero value of a type; the empty custom value is the empty text.\<close>

fun zero_basic :: "basic \<Rightarrow> jval" where
  "zero_basic BString = JStr ''''"
| "zero_basic BBool = JBool False"
| "zero_basic BNumber = JNum ''0''"

fun zero_of :: "rtype \<Rightarrow> rval" where
  "zero_of (TBasic b) = RBasic (zero_basic b)"
| "zero_of TCustom = RCustom ''''"
| "zero_of (TPointer t) = RPointer None"
| "zero_of (TStruct fs) = RStruct (map (\<lambda>f. zero_of (snd f)) fs)"
| "zero_of (TMap t) = RMap []"
| "zero_of (TSlice t) = RSlice []"

section \<open>The keys of a field\<close>

definition fieldKeys :: "(string \<Rightarrow> string) \<Rightarrow> (string \<times> jval) list \<Rightarrow> string \<Rightarrow> string list" where
  "fieldKeys fld ob name = filter (\<lambda>key. fld key = fld name) (keys ob)"

text \<open>A tree that sets what \<open>a\<close> or \<open>b\<close> sets.\<close>

fun unionTree :: "jval \<Rightarrow> jval \<Rightarrow> jval" where
  "unionTree (JMap a) (JMap b) =
     JMap (map (\<lambda>(k, v). (k, case map_of b k of None \<Rightarrow> v | Some w \<Rightarrow> unionTree v w)) a @ filter (\<lambda>p. fst p \<notin> fst ` set a) b)"
| "unionTree (JList a) (JList b) =
     JList (map (\<lambda>(v, w). unionTree v w) (zip a b) @ drop (length b) a @ drop (length a) b)"
| "unionTree _ _ = JNull"

section \<open>Keeping what a tree sets\<close>

lemma field_size [termination_simp]:
  assumes "((name, t), x) \<in> set (zip fs vs)"
  shows "size t < Suc (size_list (\<lambda>x. Suc (size (snd x))) fs)"
proof -
  have "(name, t) \<in> set fs" using assms by (rule set_zip_leftD)
  then have "size t \<le> size_list (\<lambda>x. Suc (size (snd x))) fs"
    by (rule size_list_estimation') simp
  then show ?thesis by simp
qed

text \<open>The tree of a field: the union of the members whose key is its name in any case. \<open>None\<close>: there is no such member.\<close>

definition fieldTree :: "(string \<Rightarrow> string) \<Rightarrow> (string \<times> jval) list \<Rightarrow> string \<Rightarrow> jval option" where
  "fieldTree fld ob name =
     (case fieldKeys fld ob name of
        [] \<Rightarrow> None
      | key # ks \<Rightarrow> Some (foldl (\<lambda>tree k. unionTree tree (the (map_of ob k))) (the (map_of ob key)) ks))"

fun keepSetFields :: "(string \<Rightarrow> string) \<Rightarrow> rtype \<Rightarrow> rval \<Rightarrow> jval \<Rightarrow> rval" where
  "keepSetFields fld (TPointer t) (RPointer (Some v)) tree = RPointer (Some (keepSetFields fld t v tree))"
| "keepSetFields fld (TStruct fs) (RStruct vs) (JMap ob) =
     RStruct (map (\<lambda>((name, t), v). case fieldTree fld ob name of None \<Rightarrow> zero_of t | Some tree \<Rightarrow> keepSetFields fld t v tree) (zip fs vs))"
| "keepSetFields fld (TMap t) (RMap m) (JMap ob) = RMap (filter (\<lambda>p. fst p \<in> set (keys ob)) m)"
| "keepSetFields fld (TSlice t) (RSlice vs) (JList l) =
     RSlice (map (\<lambda>(v, tree). keepSetFields fld t v tree) (zip vs l) @ drop (length l) vs)"
| "keepSetFields fld _ v _ = v"

text \<open>
  \<open>toTree\<close> is the encoding of the specification to YAML, then JSON, then a tree: \<open>None\<close> when it fails. The type is that of
  \<open>HelmReleaseSpec\<close>.
\<close>

fun putField :: "string \<Rightarrow> (string \<times> rtype) list \<Rightarrow> rval list \<Rightarrow> rval list \<Rightarrow> rval list" where
  "putField name ((n, t) # fs) (old # olds) (v # vs) = (if n = name then old # vs else v # putField name fs olds vs)"
| "putField name _ _ vs = vs"

definition retainedSpec ::
  "(string \<Rightarrow> string) \<Rightarrow> (gmap \<Rightarrow> jval option) \<Rightarrow> (string \<times> rtype) list \<Rightarrow> rval list \<Rightarrow> gmap \<Rightarrow> rval list" where
  "retainedSpec fld toTree fs existing spec =
     (case toTree spec of
        Some (JMap ob) \<Rightarrow>
          (case keepSetFields fld (TStruct fs) (RStruct existing) (JMap ob) of
             RStruct kept \<Rightarrow> if fieldKeys fld ob ''suspend'' = [] then putField ''suspend'' fs existing kept else kept
           | _ \<Rightarrow> map (\<lambda>f. zero_of (snd f)) fs)
      | _ \<Rightarrow> map (\<lambda>f. zero_of (snd f)) fs)"

section \<open>Decoding into a value\<close>

text \<open>
  What \<open>encoding/json\<close> does with \<open>DisallowUnknownFields\<close>. A null sets a pointer, a map or a slice to nil and leaves other values as they are. The
  members of an object are decoded one after the other into the field of that name, or else of that name in another case. A
  map gets new values, and keeps its other keys. A list is decoded into the elements that are there. \<open>custom\<close> stands for the
  \<open>UnmarshalJSON\<close> of a type.
\<close>

definition fieldIndex :: "(string \<Rightarrow> string) \<Rightarrow> (string \<times> rtype) list \<Rightarrow> string \<Rightarrow> nat option" where
  "fieldIndex fld fs key =
     (case find (\<lambda>i. fst (fs ! i) = key) [0..<length fs] of
        Some i \<Rightarrow> Some i
      | None \<Rightarrow> find (\<lambda>i. fld (fst (fs ! i)) = fld key) [0..<length fs])"

lemma size_prod_snd: "size_prod (\<lambda>_. 0) size = (\<lambda>x. Suc (size (snd x)))"
  by (auto simp: fun_eq_iff)

lemma fieldIndex_less: "fieldIndex fld fs key = Some i \<Longrightarrow> i < length fs"
  by (auto simp: fieldIndex_def find_Some_iff split: option.splits)

lemma fieldIndex_size:
  assumes "fieldIndex fld fs key = Some i"
  shows "size (snd (fs ! i)) < size_list (\<lambda>x. Suc (size (snd x))) fs"
proof -
  have "fs ! i \<in> set fs" using fieldIndex_less [OF assms] by simp
  then have "Suc (size (snd (fs ! i))) \<le> size_list (\<lambda>x. Suc (size (snd x))) fs" by (rule size_list_estimation') simp
  then show ?thesis by simp
qed

fun basicOf :: "basic \<Rightarrow> jval \<Rightarrow> bool" where
  "basicOf BString (JStr _) = True"
| "basicOf BBool (JBool _) = True"
| "basicOf BNumber (JNum _) = True"
| "basicOf _ _ = False"

function decodeInto :: "(string \<Rightarrow> string) \<Rightarrow> (string \<Rightarrow> jval \<Rightarrow> string option) \<Rightarrow> rtype \<Rightarrow> rval \<Rightarrow> jval \<Rightarrow> rval option"
  and decodeMembers :: "(string \<Rightarrow> string) \<Rightarrow> (string \<Rightarrow> jval \<Rightarrow> string option) \<Rightarrow> (string \<times> rtype) list \<Rightarrow> rval list \<Rightarrow> (string \<times> jval) list \<Rightarrow> rval list option"
  and decodeKeys :: "(string \<Rightarrow> string) \<Rightarrow> (string \<Rightarrow> jval \<Rightarrow> string option) \<Rightarrow> rtype \<Rightarrow> (string \<times> rval) list \<Rightarrow> (string \<times> jval) list \<Rightarrow> (string \<times> rval) list option"
  and decodeItems :: "(string \<Rightarrow> string) \<Rightarrow> (string \<Rightarrow> jval \<Rightarrow> string option) \<Rightarrow> rtype \<Rightarrow> rval list \<Rightarrow> jval list \<Rightarrow> rval list option"
  where
  "decodeInto fld custom TCustom v tree =
     (case v of RCustom c \<Rightarrow> map_option RCustom (custom c tree) | _ \<Rightarrow> None)"
| "decodeInto fld custom (TPointer t) v tree =
     (if tree = JNull then Some (RPointer None)
      else map_option (\<lambda>x. RPointer (Some x)) (decodeInto fld custom t (case v of RPointer (Some x) \<Rightarrow> x | _ \<Rightarrow> zero_of t) tree))"
| "decodeInto fld custom (TBasic b) v tree =
     (if tree = JNull then Some v else if basicOf b tree then Some (RBasic tree) else None)"
| "decodeInto fld custom (TStruct fs) v tree =
     (case tree of
        JNull \<Rightarrow> Some v
      | JMap ob \<Rightarrow> (case v of RStruct vs \<Rightarrow> map_option RStruct (decodeMembers fld custom fs vs ob) | _ \<Rightarrow> None)
      | _ \<Rightarrow> None)"
| "decodeInto fld custom (TMap t) v tree =
     (case tree of
        JNull \<Rightarrow> Some (RMap [])
      | JMap ob \<Rightarrow> (case v of RMap m \<Rightarrow> map_option RMap (decodeKeys fld custom t m ob) | _ \<Rightarrow> None)
      | _ \<Rightarrow> None)"
| "decodeInto fld custom (TSlice t) v tree =
     (case tree of
        JNull \<Rightarrow> Some (RSlice [])
      | JList l \<Rightarrow> (case v of RSlice vs \<Rightarrow> map_option RSlice (decodeItems fld custom t vs l) | _ \<Rightarrow> None)
      | _ \<Rightarrow> None)"
| "decodeMembers fld custom fs vs [] = Some vs"
| "decodeMembers fld custom fs vs ((key, tree) # ob) =
     (case fieldIndex fld fs key of
        None \<Rightarrow> None
      | Some i \<Rightarrow> Option.bind (decodeInto fld custom (snd (fs ! i)) (vs ! i) tree) (\<lambda>v. decodeMembers fld custom fs (vs[i := v]) ob))"
| "decodeKeys fld custom t m [] = Some m"
| "decodeKeys fld custom t m ((key, tree) # ob) =
     Option.bind (decodeInto fld custom t (zero_of t) tree) (\<lambda>v. decodeKeys fld custom t (mput key v m) ob)"
| "decodeItems fld custom t vs [] = Some []"
| "decodeItems fld custom t vs (tree # l) =
     Option.bind (decodeInto fld custom t (case vs of v # _ \<Rightarrow> v | [] \<Rightarrow> zero_of t) tree)
       (\<lambda>v. map_option (\<lambda>vs'. v # vs') (decodeItems fld custom t (tl vs) l))"
  by pat_completeness auto

termination
  by (relation "measure (\<lambda>x. case x of
      Inl (Inl (_, _, t, _, tree)) \<Rightarrow> size tree + size t
    | Inl (Inr (_, _, fs, _, ob)) \<Rightarrow> size_list (\<lambda>x. Suc (size (snd x))) ob + size_list (\<lambda>x. Suc (size (snd x))) fs
    | Inr (Inl (_, _, t, _, ob)) \<Rightarrow> size_list (\<lambda>x. Suc (size (snd x))) ob + size t
    | Inr (Inr (_, _, t, _, l)) \<Rightarrow> size_list size l + size t)")
    (auto simp: size_prod_snd dest: fieldIndex_size)

section \<open>Types of values and trees\<close>

fun typed :: "rtype \<Rightarrow> rval \<Rightarrow> bool" where
  "typed (TBasic b) (RBasic _) = True"
| "typed TCustom (RCustom _) = True"
| "typed (TPointer t) (RPointer v) = (case v of None \<Rightarrow> True | Some x \<Rightarrow> typed t x)"
| "typed (TStruct fs) (RStruct vs) = (length vs = length fs \<and> (\<forall>((name, t), v)\<in>set (zip fs vs). typed t v))"
| "typed (TMap t) (RMap m) = True"
| "typed (TSlice t) (RSlice vs) = (\<forall>v\<in>set vs. typed t v)"
| "typed _ _ = False"

text \<open>No struct has two fields, and no object two keys for a struct, that are equal in another case.\<close>

fun clean_type :: "(string \<Rightarrow> string) \<Rightarrow> rtype \<Rightarrow> bool" where
  "clean_type fld (TPointer t) = clean_type fld t"
| "clean_type fld (TStruct fs) = (distinct (map (\<lambda>f. fld (fst f)) fs) \<and> (\<forall>f\<in>set fs. clean_type fld (snd f)))"
| "clean_type fld (TMap t) = clean_type fld t"
| "clean_type fld (TSlice t) = clean_type fld t"
| "clean_type fld _ = True"

fun clean_tree :: "(string \<Rightarrow> string) \<Rightarrow> jval \<Rightarrow> bool" where
  "clean_tree fld (JMap ob) = (distinct (map (\<lambda>p. fld (fst p)) ob) \<and> (\<forall>p\<in>set ob. clean_tree fld (snd p)))"
| "clean_tree fld (JList l) = (\<forall>tree\<in>set l. clean_tree fld tree)"
| "clean_tree fld _ = True"

text \<open>Of two decoded values, the first where the tree sets something and the second elsewhere.\<close>

fun where_set :: "(string \<Rightarrow> string) \<Rightarrow> rtype \<Rightarrow> rval \<Rightarrow> rval \<Rightarrow> jval \<Rightarrow> rval" where
  "where_set fld (TPointer t) x y tree =
     (case x of RPointer (Some v) \<Rightarrow> (case y of RPointer (Some w) \<Rightarrow> RPointer (Some (where_set fld t v w tree)) | _ \<Rightarrow> x) | _ \<Rightarrow> x)"
| "where_set fld (TStruct fs) x y tree =
     (case tree of
        JMap ob \<Rightarrow> (case x of RStruct xs \<Rightarrow> (case y of RStruct ys \<Rightarrow>
           RStruct (map (\<lambda>((name, t), (v, w)). case fieldTree fld ob name of None \<Rightarrow> w | Some tr \<Rightarrow> where_set fld t v w tr) (zip fs (zip xs ys)))
           | _ \<Rightarrow> x) | _ \<Rightarrow> x)
      | _ \<Rightarrow> x)"
| "where_set fld (TMap t) x y tree =
     (case tree of JMap ob \<Rightarrow> (case x of RMap m \<Rightarrow> RMap (filter (\<lambda>p. fst p \<in> set (keys ob)) m) | _ \<Rightarrow> x) | _ \<Rightarrow> x)"
| "where_set fld (TSlice t) x y tree =
     (case tree of
        JList l \<Rightarrow> (case x of RSlice xs \<Rightarrow> (case y of RSlice ys \<Rightarrow>
           RSlice (map (\<lambda>(tr, (v, w)). where_set fld t v w tr) (zip l (zip xs ys))) | _ \<Rightarrow> x) | _ \<Rightarrow> x)
      | _ \<Rightarrow> x)"
| "where_set fld _ x y tree = x"

section \<open>Lemmas\<close>

lemma zip_same_map: "zip xs (map f xs) = map (\<lambda>x. (x, f x)) xs"
  by (induction xs) auto

lemma typed_zero: "typed t (zero_of t)"
proof (induction t)
  case (TStruct fs)
  then show ?case by (force simp: zip_same_map)
qed auto

lemma keep_zero: "keepSetFields fld t (zero_of t) tree = zero_of t"
proof (induction t arbitrary: tree)
  case (TStruct fs)
  have "(case fieldTree fld ob (fst f) of None \<Rightarrow> zero_of (snd f) | Some tr \<Rightarrow> keepSetFields fld (snd f) (zero_of (snd f)) tr) = zero_of (snd f)"
    if "f \<in> set fs" for ob f
    using TStruct [of f "snd f"] that by (cases f) (auto split: option.split)
  then show ?case by (cases tree) (simp_all add: zip_same_map split_def cong: option.case_cong)
next
  case (TMap t)
  then show ?case by (cases tree) auto
next
  case (TSlice t)
  then show ?case by (cases tree) auto
qed auto

text \<open>With clean names, a key decodes into the field it matches, and the tree of a field is its only member.\<close>

lemma fieldIndex_iff:
  assumes "distinct (map (\<lambda>f. fld (fst f)) fs)"
  shows "fieldIndex fld fs key = Some i \<longleftrightarrow> i < length fs \<and> fld (fst (fs ! i)) = fld key"
proof -
  have u: "j = i" if "j < length fs" "i < length fs" "fld (fst (fs ! j)) = fld (fst (fs ! i))" for i j
    using assms that by (auto simp: distinct_conv_nth)
  have f: "find P [0..<length fs] = Some j \<Longrightarrow> j < length fs \<and> P j" for P j
    by (auto simp: find_Some_iff)
  show ?thesis
  proof (cases "find (\<lambda>i. fst (fs ! i) = key) [0..<length fs]")
    case (Some j)
    then have j: "j < length fs" "fst (fs ! j) = key" using f by auto
    have "fieldIndex fld fs key = Some j" using Some by (simp add: fieldIndex_def)
    then show ?thesis using j u [of j i] by auto
  next
    case None
    then have e: "fieldIndex fld fs key = find (\<lambda>i. fld (fst (fs ! i)) = fld key) [0..<length fs]" by (simp add: fieldIndex_def)
    show ?thesis
    proof (cases "find (\<lambda>i. fld (fst (fs ! i)) = fld key) [0..<length fs]")
      case None
      then have "\<forall>j<length fs. fld (fst (fs ! j)) \<noteq> fld key" by (simp add: find_None_iff)
      then show ?thesis using e None by simp
    next
      case (Some j)
      then show ?thesis using e f [OF Some] u [of j i] by auto
    qed
  qed
qed

lemma filter_one: "distinct (map g xs) \<Longrightarrow> x \<in> set xs \<Longrightarrow> filter (\<lambda>y. g y = g x) xs = [x]"
proof (induction xs)
  case (Cons y xs)
  show ?case
  proof (cases "y = x")
    case True
    then have "g x \<notin> g ` set xs" using Cons.prems(1) by simp
    then have "filter (\<lambda>y. g y = g x) xs = []" unfolding filter_empty_conv by (metis imageI)
    then show ?thesis using True by simp
  next
    case False
    then have "g y \<noteq> g x" using Cons.prems by force
    then show ?thesis using False Cons by simp
  qed
qed simp

lemma fieldTree_one:
  assumes "distinct (map (\<lambda>p. fld (fst p)) ob)"
  shows "fieldTree fld ob name = map_option snd (find (\<lambda>p. fld (fst p) = fld name) ob)"
proof -
  have k: "fieldKeys fld ob name = map fst (filter (\<lambda>p. fld (fst p) = fld name) ob)"
    by (simp add: fieldKeys_def filter_map comp_def)
  show ?thesis
  proof (cases "find (\<lambda>p. fld (fst p) = fld name) ob")
    case None
    then have "\<forall>p\<in>set ob. fld (fst p) \<noteq> fld name" unfolding find_None_iff by blast
    then have "filter (\<lambda>p. fld (fst p) = fld name) ob = []" unfolding filter_empty_conv .
    then show ?thesis using None k by (simp add: fieldTree_def)
  next
    case (Some p)
    then have p: "p \<in> set ob" "fld (fst p) = fld name" by (auto simp: find_Some_iff)
    have "distinct (map fst ob)" using assms by (auto simp: distinct_map inj_on_def)
    then have "map_of ob (fst p) = Some (snd p)" using p(1) by simp
    moreover have "fieldKeys fld ob name = [fst p]" using k filter_one [OF assms p(1)] p(2) by simp
    ultimately show ?thesis using Some by (simp add: fieldTree_def)
  qed
qed

text \<open>Each field is decoded on its own, from the member that matches it.\<close>

abbreviation memberOf :: "(string \<Rightarrow> string) \<Rightarrow> (string \<times> jval) list \<Rightarrow> string \<Rightarrow> (string \<times> jval) option" where
  "memberOf fld ob name \<equiv> find (\<lambda>p. fld (fst p) = fld name) ob"

definition field_decoded ::
  "(string \<Rightarrow> string) \<Rightarrow> (string \<Rightarrow> jval \<Rightarrow> string option) \<Rightarrow> (string \<times> rtype) list \<Rightarrow> (string \<times> jval) list \<Rightarrow> rval list \<Rightarrow> rval list \<Rightarrow> nat \<Rightarrow> bool" where
  "field_decoded fld custom fs ob vs vs' i \<longleftrightarrow>
     (case memberOf fld ob (fst (fs ! i)) of
        None \<Rightarrow> vs' ! i = vs ! i
      | Some p \<Rightarrow> decodeInto fld custom (snd (fs ! i)) (vs ! i) (snd p) = Some (vs' ! i))"

lemma decodeMembers_iff:
  assumes "distinct (map (\<lambda>f. fld (fst f)) fs)" "distinct (map (\<lambda>p. fld (fst p)) ob)" "length vs = length fs"
  shows "decodeMembers fld custom fs vs ob = Some vs' \<longleftrightarrow>
    length vs' = length fs \<and> (\<forall>p\<in>set ob. \<exists>i. fieldIndex fld fs (fst p) = Some i) \<and> (\<forall>i<length fs. field_decoded fld custom fs ob vs vs' i)"
  using assms(2,3)
proof (induction ob arbitrary: vs)
  case Nil
  then show ?case by (auto simp: field_decoded_def list_eq_iff_nth_eq)
next
  case (Cons p ob)
  obtain key tree where p: "p = (key, tree)" by (cases p)
  show ?case
  proof (cases "fieldIndex fld fs key")
    case None
    then show ?thesis using p by auto
  next
    case (Some i)
    then have i: "i < length fs" "fld (fst (fs ! i)) = fld key" using fieldIndex_iff [OF assms(1)] by auto
    have at_i: "memberOf fld (p # ob) (fst (fs ! i)) = Some p" using i p by simp
    have off_i: "memberOf fld ob (fst (fs ! i)) = None"
      using Cons.prems(1) i p by (force simp: find_None_iff)
    have at_j: "memberOf fld (p # ob) (fst (fs ! j)) = memberOf fld ob (fst (fs ! j))" if "j < length fs" "j \<noteq> i" for j
      using that i p fieldIndex_iff [OF assms(1), of key j] Some by auto
    show ?thesis
    proof (cases "decodeInto fld custom (snd (fs ! i)) (vs ! i) tree")
      case None
      then have "\<not> field_decoded fld custom fs (p # ob) vs vs' i" using at_i p by (simp add: field_decoded_def)
      then show ?thesis using None Some p i(1) by auto
    next
      case v: (Some v)
      have same: "field_decoded fld custom fs ob (vs[i := v]) vs' j \<longleftrightarrow> field_decoded fld custom fs (p # ob) vs vs' j" if "j < length fs" for j
      proof (cases "j = i")
        case True
        then show ?thesis using at_i off_i v p i(1) Cons.prems(2) by (auto simp: field_decoded_def)
      next
        case False
        then have "vs[i := v] ! j = vs ! j" by simp
        then show ?thesis unfolding field_decoded_def at_j [OF that False] by (simp cong: option.case_cong)
      qed
      have "decodeMembers fld custom fs vs (p # ob) = decodeMembers fld custom fs (vs[i := v]) ob" using Some v p by simp
      then show ?thesis using Cons.IH [of "vs[i := v]"] Cons.prems same Some p by auto
    qed
  qed
qed

lemma decodeMembers_keys: "decodeMembers fld custom fs vs ob = Some vs' \<Longrightarrow> p \<in> set ob \<Longrightarrow> \<exists>i. fieldIndex fld fs (fst p) = Some i"
  by (induction ob arbitrary: vs) (auto split: option.splits bind_splits)

text \<open>The keys of a map that the tree does not set play no part in the decoding of the others.\<close>

lemma filter_mput: "P k \<Longrightarrow> filter (\<lambda>p. P (fst p)) (mput k v m) = mput k v (filter (\<lambda>p. P (fst p)) m)"
  by (induction m) (auto simp: mput_code)

lemma decodeKeys_filter:
  assumes "\<forall>p\<in>set ob. P (fst p)"
  shows "decodeKeys fld custom t (filter (\<lambda>p. P (fst p)) m) ob = map_option (filter (\<lambda>p. P (fst p))) (decodeKeys fld custom t m ob)"
  using assms
proof (induction ob arbitrary: m)
  case (Cons p ob)
  obtain key tree where p: "p = (key, tree)" by (cases p)
  show ?case
    using Cons p by (cases "decodeInto fld custom t (zero_of t) tree") (auto simp: filter_mput [of P, symmetric])
qed simp

lemma decodeItems_iff:
  "decodeItems fld custom t vs l = Some vs' \<longleftrightarrow> length vs' = length l
     \<and> (\<forall>i<length l. decodeInto fld custom t (if i < length vs then vs ! i else zero_of t) (l ! i) = Some (vs' ! i))"
proof (induction l arbitrary: vs vs')
  case (Cons tree l)
  have h: "(case vs of v # _ \<Rightarrow> v | [] \<Rightarrow> zero_of t) = (if 0 < length vs then vs ! 0 else zero_of t)"
    by (cases vs) auto
  have s: "(if i < length (tl vs) then tl vs ! i else zero_of t) = (if Suc i < length vs then vs ! Suc i else zero_of t)" for i
    by (auto simp: nth_tl)
  show ?case
  proof (cases vs')
    case Nil
    then show ?thesis by (auto split: bind_splits)
  next
    case (Cons v ws)
    show ?thesis
      unfolding Cons decodeItems.simps h
      using Cons.IH [of "tl vs" ws, unfolded s]
      by (auto simp: All_less_Suc2 split: bind_splits)
  qed
qed auto

section \<open>Decoding what was kept\<close>

definition keeps :: "(string \<Rightarrow> string) \<Rightarrow> (string \<Rightarrow> jval \<Rightarrow> string option) \<Rightarrow> rtype \<Rightarrow> bool" where
  "keeps fld custom t \<longleftrightarrow>
     (\<forall>v tree e n. typed t v \<longrightarrow> clean_tree fld tree \<longrightarrow> decodeInto fld custom t v tree = Some e \<longrightarrow> decodeInto fld custom t (zero_of t) tree = Some n \<longrightarrow>
        decodeInto fld custom t (keepSetFields fld t v tree) tree = Some (where_set fld t e n tree))"

lemma keepsD:
  "keeps fld custom t \<Longrightarrow> typed t v \<Longrightarrow> clean_tree fld tree \<Longrightarrow> decodeInto fld custom t v tree = Some e \<Longrightarrow>
     decodeInto fld custom t (zero_of t) tree = Some n \<Longrightarrow> decodeInto fld custom t (keepSetFields fld t v tree) tree = Some (where_set fld t e n tree)"
  unfolding keeps_def by blast

text \<open>A value decoded into a new one is the same on both sides.\<close>

lemma keeps_zero:
  "keeps fld custom t \<Longrightarrow> clean_tree fld tree \<Longrightarrow> decodeInto fld custom t (zero_of t) tree = Some n \<Longrightarrow> where_set fld t n n tree = n"
  using keepsD [of fld custom t "zero_of t" tree n n] typed_zero keep_zero by simp

lemma keeps_pointer:
  assumes "keeps fld custom t"
  shows "keeps fld custom (TPointer t)"
  unfolding keeps_def
proof (intro allI impI)
  fix v tree e n
  assume a: "typed (TPointer t) v" "clean_tree fld tree" "decodeInto fld custom (TPointer t) v tree = Some e"
    "decodeInto fld custom (TPointer t) (zero_of (TPointer t)) tree = Some n"
  then obtain x where v: "v = RPointer x" by (cases v) auto
  show "decodeInto fld custom (TPointer t) (keepSetFields fld (TPointer t) v tree) tree = Some (where_set fld (TPointer t) e n tree)"
  proof (cases "tree = JNull")
    case True
    then show ?thesis using a by auto
  next
    case False
    then obtain n' where n: "n = RPointer (Some n')" "decodeInto fld custom t (zero_of t) tree = Some n'" using a(4) by auto
    show ?thesis
    proof (cases x)
      case None
      then have "e = n" using a False v n by auto
      then show ?thesis using None v n False keeps_zero [OF assms a(2) n(2)] by simp
    next
      case (Some y)
      then obtain e' where e: "e = RPointer (Some e')" "decodeInto fld custom t y tree = Some e'" using a(3) v False by auto
      then show ?thesis using keepsD [OF assms _ a(2) e(2) n(2)] a(1) v Some n False by simp
    qed
  qed
qed

lemma keeps_map: "keeps fld custom (TMap t)"
  unfolding keeps_def
proof (intro allI impI)
  fix v tree e n
  assume a: "typed (TMap t) v" "clean_tree fld tree" "decodeInto fld custom (TMap t) v tree = Some e"
    "decodeInto fld custom (TMap t) (zero_of (TMap t)) tree = Some n"
  then obtain m where v: "v = RMap m" by (cases v) auto
  show "decodeInto fld custom (TMap t) (keepSetFields fld (TMap t) v tree) tree = Some (where_set fld (TMap t) e n tree)"
  proof (cases tree)
    case (JMap ob)
    have "\<forall>p\<in>set ob. fst p \<in> set (keys ob)" by simp
    then show ?thesis using a(3) v JMap decodeKeys_filter [of ob "\<lambda>k. k \<in> set (keys ob)" fld custom t m] by auto
  qed (use a v in auto)
qed

lemma keeps_slice:
  assumes "keeps fld custom t"
  shows "keeps fld custom (TSlice t)"
  unfolding keeps_def
proof (intro allI impI)
  fix v tree e n
  assume a: "typed (TSlice t) v" "clean_tree fld tree" "decodeInto fld custom (TSlice t) v tree = Some e"
    "decodeInto fld custom (TSlice t) (zero_of (TSlice t)) tree = Some n"
  then obtain vs where v: "v = RSlice vs" by (cases v) auto
  show "decodeInto fld custom (TSlice t) (keepSetFields fld (TSlice t) v tree) tree = Some (where_set fld (TSlice t) e n tree)"
  proof (cases tree)
    case (JList l)
    obtain es where e: "e = RSlice es" "decodeItems fld custom t vs l = Some es" using a(3) v JList by auto
    obtain ns where n: "n = RSlice ns" "decodeItems fld custom t [] l = Some ns" using a(4) JList by auto
    let ?vs = "map (\<lambda>(v, tree). keepSetFields fld t v tree) (zip vs l) @ drop (length l) vs"
    let ?r = "map (\<lambda>(tr, (v, w)). where_set fld t v w tr) (zip l (zip es ns))"
    have len: "length es = length l" "length ns = length l" using e(2) n(2) by (auto simp: decodeItems_iff)
    have "decodeInto fld custom t (if i < length ?vs then ?vs ! i else zero_of t) (l ! i) = Some (?r ! i)" if i: "i < length l" for i
    proof -
      have c: "clean_tree fld (l ! i)" using a(2) JList i by simp
      have ni: "decodeInto fld custom t (zero_of t) (l ! i) = Some (ns ! i)" using n(2) i by (auto simp: decodeItems_iff)
      have ei: "decodeInto fld custom t (if i < length vs then vs ! i else zero_of t) (l ! i) = Some (es ! i)"
        using e(2) i by (auto simp: decodeItems_iff)
      have ri: "?r ! i = where_set fld t (es ! i) (ns ! i) (l ! i)" using i len by simp
      show ?thesis
      proof (cases "i < length vs")
        case True
        then have "?vs ! i = keepSetFields fld t (vs ! i) (l ! i)" "i < length ?vs" using i by (auto simp: nth_append)
        moreover have "typed t (vs ! i)" using a(1) v True by simp
        ultimately show ?thesis using keepsD [OF assms _ c _ ni] ei True ri by simp
      next
        case False
        then have "\<not> i < length ?vs" using i by auto
        then show ?thesis using False ei ni ri keeps_zero [OF assms c ni] by simp
      qed
    qed
    then have "decodeItems fld custom t ?vs l = Some ?r" using len by (auto simp: decodeItems_iff)
    then show ?thesis using v JList e(1) n(1) by simp
  qed (use a v in auto)
qed

lemma keeps_struct:
  assumes "distinct (map (\<lambda>f. fld (fst f)) fs)" "\<And>f. f \<in> set fs \<Longrightarrow> keeps fld custom (snd f)"
  shows "keeps fld custom (TStruct fs)"
  unfolding keeps_def
proof (intro allI impI)
  fix v tree e n
  assume a: "typed (TStruct fs) v" "clean_tree fld tree" "decodeInto fld custom (TStruct fs) v tree = Some e"
    "decodeInto fld custom (TStruct fs) (zero_of (TStruct fs)) tree = Some n"
  then obtain vs where v: "v = RStruct vs" by (cases v) auto
  then have len: "length vs = length fs" using a(1) by simp
  show "decodeInto fld custom (TStruct fs) (keepSetFields fld (TStruct fs) v tree) tree = Some (where_set fld (TStruct fs) e n tree)"
  proof (cases tree)
    case (JMap ob)
    let ?zs = "map (\<lambda>f. zero_of (snd f)) fs"
    let ?kept = "map (\<lambda>((name, t), v). case fieldTree fld ob name of None \<Rightarrow> zero_of t | Some tree \<Rightarrow> keepSetFields fld t v tree) (zip fs vs)"
    obtain es where e: "e = RStruct es" "decodeMembers fld custom fs vs ob = Some es" using a(3) v JMap by auto
    obtain ns where n: "n = RStruct ns" "decodeMembers fld custom fs ?zs ob = Some ns" using a(4) JMap by auto
    let ?r = "map (\<lambda>((name, t), (v, w)). case fieldTree fld ob name of None \<Rightarrow> w | Some tr \<Rightarrow> where_set fld t v w tr) (zip fs (zip es ns))"
    have d: "distinct (map (\<lambda>p. fld (fst p)) ob)" using a(2) JMap by simp
    note iff = decodeMembers_iff [OF assms(1) d]
    have lens: "length es = length fs" "length ns = length fs" "length ?kept = length fs"
      using e(2) n(2) iff [OF len] iff [of ?zs] len by auto
    have "field_decoded fld custom fs ob ?kept ?r i" if i: "i < length fs" for i
    proof -
      obtain name t where f: "fs ! i = (name, t)" by (cases "fs ! i")
      have k: "?kept ! i = (case fieldTree fld ob name of None \<Rightarrow> zero_of t | Some tree \<Rightarrow> keepSetFields fld t (vs ! i) tree)" using f i len by simp
      have r: "?r ! i = (case fieldTree fld ob name of None \<Rightarrow> ns ! i | Some tr \<Rightarrow> where_set fld t (es ! i) (ns ! i) tr)" using f i lens by simp
      have ei: "field_decoded fld custom fs ob vs es i" using e(2) iff [OF len] i by simp
      have ni: "field_decoded fld custom fs ob ?zs ns i" using n(2) iff [of ?zs] i by simp
      show ?thesis
      proof (cases "memberOf fld ob name")
        case None
        then show ?thesis using k r ni f i fieldTree_one [OF d, of name] by (simp add: field_decoded_def)
      next
        case (Some p)
        have "snd p \<in> snd ` set ob" using Some by (auto simp: find_Some_iff)
        then have c: "clean_tree fld (snd p)" using a(2) JMap by auto
        have "((name, t), vs ! i) \<in> set (zip fs vs)" using f i len by (auto simp: in_set_zip intro!: exI [of _ i])
        then have t: "typed t (vs ! i)" using a(1) v by auto
        have "fs ! i \<in> set fs" using i by simp
        then have "keeps fld custom t" using assms(2) [of "fs ! i"] f by simp
        from keepsD [OF this t c] show ?thesis
          using k r ei ni f i Some fieldTree_one [OF d, of name] by (simp add: field_decoded_def)
      qed
    qed
    then have "decodeMembers fld custom fs ?kept ob = Some ?r"
      using iff [OF lens(3), of custom ?r] decodeMembers_keys [OF e(2)] lens by simp
    then show ?thesis using v JMap e(1) n(1) by simp
  qed (use a v in auto)
qed

lemma keeps_clean: "clean_type fld t \<Longrightarrow> keeps fld custom t"
proof (induction t)
  case (TBasic b)
  have "keepSetFields fld (TBasic b) v tree = v" "where_set fld (TBasic b) e n tree = e" for v tree e n by simp_all
  then show ?case by (simp add: keeps_def)
next
  case TCustom
  then show ?case by (simp add: keeps_def)
next
  case (TStruct fs)
  then show ?case by (intro keeps_struct) (auto simp: prod_set_defs)
qed (auto intro: keeps_pointer keeps_map keeps_slice)

section \<open>Properties\<close>

lemma putField_length: "length olds = length vs \<Longrightarrow> length (putField name fs olds vs) = length vs"
  by (induction name fs olds vs rule: putField.induct) auto

lemma putField_nth:
  assumes "length olds = length fs" "length vs = length fs" "distinct (map fst fs)" "i < length fs"
  shows "putField name fs olds vs ! i = (if fst (fs ! i) = name then olds ! i else vs ! i)"
  using assms
proof (induction name fs olds vs arbitrary: i rule: putField.induct)
  case (1 name n t fs old olds v vs)
  show ?case
  proof (cases i)
    case (Suc j)
    have "fst (fs ! j) \<noteq> n" using 1(4,5) Suc by (auto dest: nth_mem)
    then show ?thesis using 1 Suc by auto
  qed simp
qed auto

text \<open>C37: an update of a HelmRelease neither loses nor leaves behind a field. When the specification is decoded into what \<open>retainedSpec\<close> keeps
  of the existing one, every field that the specification sets gets what decoding it into the existing HelmRelease gives, and every
  other field gets what a new HelmRelease gets, at every depth, through pointers, structs and lists; a map ends with the keys that are
  set. Only \<open>suspend\<close>, when it is not set, stays as found.\<close>

theorem retained_then_decoded:
  assumes "typed (TStruct fs) (RStruct vs)" "clean_type fld (TStruct fs)" "clean_tree fld (JMap ob)" "toTree spec = Some (JMap ob)"
    and "decodeMembers fld custom fs vs ob = Some existing" "decodeMembers fld custom fs (map (\<lambda>f. zero_of (snd f)) fs) ob = Some fresh"
  shows "\<exists>rs. decodeMembers fld custom fs (retainedSpec fld toTree fs vs spec) ob = Some rs \<and> length rs = length fs
    \<and> (\<forall>i<length fs. rs ! i = (case fieldTree fld ob (fst (fs ! i)) of
          Some tree \<Rightarrow> where_set fld (snd (fs ! i)) (existing ! i) (fresh ! i) tree
        | None \<Rightarrow> if fst (fs ! i) = ''suspend'' then vs ! i else fresh ! i))"
proof -
  let ?kept = "map (\<lambda>((name, t), v). case fieldTree fld ob name of None \<Rightarrow> zero_of t | Some tree \<Rightarrow> keepSetFields fld t v tree) (zip fs vs)"
  let ?r = "map (\<lambda>((name, t), (v, w)). case fieldTree fld ob name of None \<Rightarrow> w | Some tr \<Rightarrow> where_set fld t v w tr) (zip fs (zip existing fresh))"
  let ?unset = "fieldTree fld ob ''suspend'' = None"
  have d: "distinct (map (\<lambda>p. fld (fst p)) ob)" "distinct (map (\<lambda>f. fld (fst f)) fs)" and len: "length vs = length fs" using assms(1-3) by auto
  then have df: "distinct (map fst fs)" by (auto simp: distinct_map inj_on_def)
  have k: "decodeMembers fld custom fs ?kept ob = Some ?r"
    using keepsD [OF keeps_clean [OF assms(2)] assms(1,3), of custom "RStruct existing" "RStruct fresh"] assms(5,6) by simp
  have lr: "length ?r = length fs" and lk: "length ?kept = length fs" using k decodeMembers_iff [OF d(2,1), of ?kept custom ?r] len by auto
  then have lens: "length existing = length fs" "length fresh = length fs"
    using assms(5,6) decodeMembers_iff [OF d(2,1) len] decodeMembers_iff [OF d(2,1), of "map (\<lambda>f. zero_of (snd f)) fs" custom fresh] by auto
  have r: "?r ! i = (case fieldTree fld ob (fst (fs ! i)) of Some tree \<Rightarrow> where_set fld (snd (fs ! i)) (existing ! i) (fresh ! i) tree | None \<Rightarrow> fresh ! i)"
    if "i < length fs" for i
    using that lens by (cases "fs ! i") (simp split: option.split)
  have "fieldKeys fld ob ''suspend'' = [] \<longleftrightarrow> ?unset" by (auto simp: fieldTree_def split: list.splits)
  then have ret: "retainedSpec fld toTree fs vs spec = (if ?unset then putField ''suspend'' fs vs ?kept else ?kept)"
    using assms(4) by (simp add: retainedSpec_def)
  show ?thesis
  proof (cases ?unset)
    case False
    then show ?thesis using ret k r lr by (intro exI [of _ ?r]) (auto split: option.split)
  next
    case True
    let ?rs = "putField ''suspend'' fs vs ?r" and ?ks = "putField ''suspend'' fs vs ?kept"
    have m: "memberOf fld ob ''suspend'' = None" using True fieldTree_one [OF d(1)] by simp
    have nth: "?rs ! i = (if fst (fs ! i) = ''suspend'' then vs ! i else ?r ! i)" "?ks ! i = (if fst (fs ! i) = ''suspend'' then vs ! i else ?kept ! i)"
      if "i < length fs" for i using putField_nth [OF len _ df that] lr lk by auto
    have "field_decoded fld custom fs ob ?ks ?rs i" if i: "i < length fs" for i
    proof -
      have f: "field_decoded fld custom fs ob ?kept ?r i" using k decodeMembers_iff [OF d(2,1) lk] i by simp
      show ?thesis
      proof (cases "fst (fs ! i) = ''suspend''")
        case True
        then show ?thesis using m unfolding field_decoded_def nth [OF i] by simp
      next
        case False
        then show ?thesis using f unfolding field_decoded_def nth [OF i] by (simp cong: option.case_cong)
      qed
    qed
    then have "decodeMembers fld custom fs ?ks ob = Some ?rs"
      using decodeMembers_iff [OF d(2,1), of ?ks custom ?rs] decodeMembers_keys [OF k] lr lk len by (simp add: putField_length)
    then show ?thesis using ret True nth r lr len by (intro exI [of _ ?rs]) (auto simp: putField_length split: option.split)
  qed
qed

definition sample_fields :: "(string \<times> rtype) list" where
  "sample_fields = [(''chart'', TPointer (TStruct [(''name'', TBasic BString), (''version'', TBasic BString)])), (''values'', TPointer TCustom),
     (''labels'', TMap (TBasic BString)), (''suspend'', TBasic BBool), (''from'', TSlice (TStruct [(''a'', TBasic BString), (''b'', TBasic BString)]))]"

definition sample_existing :: "rval list" where
  "sample_existing = [RPointer (Some (RStruct [RBasic (JStr ''old''), RBasic (JStr ''1'')])), RPointer (Some (RCustom ''v'')),
     RMap [(''x'', RBasic (JStr ''1'')), (''y'', RBasic (JStr ''2''))], RBasic (JBool True), RSlice [RStruct [RBasic (JStr ''p''), RBasic (JStr ''q'')]]]"

definition sample_object :: "(string \<times> jval) list" where
  "sample_object = [(''Chart'', JMap [(''name'', JStr ''new'')]), (''labels'', JMap [(''x'', JStr ''3'')]), (''from'', JList [JMap [(''a'', JStr ''r'')]])]"

definition sample_fold :: "string \<Rightarrow> string" where
  "sample_fold = map ascii_lower"

text \<open>The chart loses its old version, the values are gone, the list element its \<open>b\<close>, and \<open>suspend\<close> stays.\<close>

theorem retained_then_decoded_witness:
  "decodeMembers sample_fold (\<lambda>_ _. Some ''w'') sample_fields (retainedSpec sample_fold (\<lambda>_. Some (JMap sample_object)) sample_fields sample_existing []) sample_object =
     Some [RPointer (Some (RStruct [RBasic (JStr ''new''), RBasic (JStr '''')])), RPointer None, RMap [(''x'', RBasic (JStr ''3''))],
       RBasic (JBool True), RSlice [RStruct [RBasic (JStr ''r''), RBasic (JStr '''')]]]"
proof -
  let ?es = "[RPointer (Some (RStruct [RBasic (JStr ''new''), RBasic (JStr ''1'')])), RPointer (Some (RCustom ''v'')),
     RMap [(''x'', RBasic (JStr ''3'')), (''y'', RBasic (JStr ''2''))], RBasic (JBool True), RSlice [RStruct [RBasic (JStr ''r''), RBasic (JStr ''q'')]]]"
  let ?ns = "[RPointer (Some (RStruct [RBasic (JStr ''new''), RBasic (JStr '''')])), RPointer None,
     RMap [(''x'', RBasic (JStr ''3''))], RBasic (JBool False), RSlice [RStruct [RBasic (JStr ''r''), RBasic (JStr '''')]]]"
  have t: "typed (TStruct sample_fields) (RStruct sample_existing)" "clean_type sample_fold (TStruct sample_fields)"
    "clean_tree sample_fold (JMap sample_object)" by code_simp+
  have e: "decodeMembers sample_fold (\<lambda>_ _. Some ''w'') sample_fields sample_existing sample_object = Some ?es" by code_simp
  have n: "decodeMembers sample_fold (\<lambda>_ _. Some ''w'') sample_fields (map (\<lambda>f. zero_of (snd f)) sample_fields) sample_object = Some ?ns" by code_simp
  obtain rs where rs: "decodeMembers sample_fold (\<lambda>_ _. Some ''w'') sample_fields (retainedSpec sample_fold (\<lambda>_. Some (JMap sample_object)) sample_fields sample_existing []) sample_object = Some rs"
    "length rs = length sample_fields"
    "\<And>i. i < length sample_fields \<Longrightarrow> rs ! i = (case fieldTree sample_fold sample_object (fst (sample_fields ! i)) of
          Some tree \<Rightarrow> where_set sample_fold (snd (sample_fields ! i)) (?es ! i) (?ns ! i) tree
        | None \<Rightarrow> if fst (sample_fields ! i) = ''suspend'' then sample_existing ! i else ?ns ! i)"
    using retained_then_decoded [where toTree = "\<lambda>_. Some (JMap sample_object)" and spec = "[]", OF t refl e n] by auto
  have "map (\<lambda>i. case fieldTree sample_fold sample_object (fst (sample_fields ! i)) of
          Some tree \<Rightarrow> where_set sample_fold (snd (sample_fields ! i)) (?es ! i) (?ns ! i) tree
        | None \<Rightarrow> if fst (sample_fields ! i) = ''suspend'' then sample_existing ! i else ?ns ! i) [0..<length sample_fields] =
     [RPointer (Some (RStruct [RBasic (JStr ''new''), RBasic (JStr '''')])), RPointer None, RMap [(''x'', RBasic (JStr ''3''))],
       RBasic (JBool True), RSlice [RStruct [RBasic (JStr ''r''), RBasic (JStr '''')]]]"
    by code_simp
  moreover have "map (\<lambda>i. rs ! i) [0..<length sample_fields] = rs" using rs(2) by (metis map_nth)
  ultimately show ?thesis using rs(1,3) by (metis (mono_tags, lifting) atLeastLessThan_iff map_cong set_upt)
qed

end
