(* ===== verification/HelmReleases.thy ===== *)
theory HelmReleases
  imports RetainedSpec
begin

text \<open>
  The HelmReleases of a Release (\<open>release_helmrelease.go\<close>): one for each enabled module of the package. Its specification is merged from the
  package, the configuration and the Release (\<open>helmReleaseSpec\<close>), decoded over what is kept of the existing one (\<open>RetainedSpec\<close>), and
  written through the \<open>kind_client\<close>. Durations are in their YAML form.
\<close>

section \<open>The specification\<close>

type_synonym HelmRelease = "rval list FluxObject"

text \<open>
  \<open>he_toTree\<close> encodes a specification to YAML and reads it as JSON. \<open>he_strict\<close> is the decoding of \<open>yaml.UnmarshalStrict\<close> into a value that
  exists, and \<open>he_lenient\<close> says whether \<open>yaml.Unmarshal\<close> accepts the tree.
\<close>

record 's hr_env =
  he_client :: "('s, HelmRelease) kind_client"
  he_config :: configuration
  he_sections :: "(string \<times> string list) list"
  he_unmarshal :: "JSON \<Rightarrow> (string, gmap option) result"
  he_fold :: "string \<Rightarrow> string"
  he_fields :: "(string \<times> rtype) list"
  he_toTree :: "gmap \<Rightarrow> jval option"
  he_strict :: "jval \<Rightarrow> rval list \<Rightarrow> rval list option"
  he_lenient :: "jval \<Rightarrow> bool"

abbreviation zeroSpec :: "'s hr_env \<Rightarrow> rval list" where
  "zeroSpec env \<equiv> map (\<lambda>f. zero_of (snd f)) (he_fields env)"

definition dropConf :: "gmap \<Rightarrow> gmap" where
  "dropConf m = foldl (\<lambda>m key. if getMap m key \<noteq> None then mdel key m else m) m [''strategy'', ''remediation'']"

definition deleteFailureConf :: "gmap \<Rightarrow> gmap" where
  "deleteFailureConf spec =
     foldl (\<lambda>spec key. case getMap spec key of None \<Rightarrow> spec | Some m \<Rightarrow> mput key (GMap (dropConf m)) spec) spec [''install'', ''upgrade'']"

definition baseSpec :: "Release \<Rightarrow> string \<Rightarrow> ChartRef \<Rightarrow> ModuleRendered \<Rightarrow> gval \<Rightarrow> string \<Rightarrow> gmap" where
  "baseSpec release name chartRef moduleRendered dependsOn helmRepositoryName =
     [(''chart'', GMap [(''spec'', GMap [
         (''chart'', GStr (ch_Name chartRef)), (''version'', GStr (ch_Version chartRef)),
         (''sourceRef'', GMap [(''kind'', GStr ''HelmRepository''), (''name'', GStr helmRepositoryName), (''namespace'', GStr (om_Namespace (rl_meta release)))]),
         (''interval'', GStr (Duration_String (ps_Interval (rs_Package (rl_Spec release)))))])]),
      (''values'', GMap (mr_Values moduleRendered)), (''targetNamespace'', GStr (mr_TargetNamespace moduleRendered)),
      (''releaseName'', GStr name), (''dependsOn'', dependsOn),
      (''timeout'', GStr (Duration_String (mr_Timeout moduleRendered))), (''interval'', GStr (Duration_String (mr_Interval moduleRendered)))]"

definition applyStrategy :: "gmap \<Rightarrow> gmap \<Rightarrow> gmap" where
  "applyStrategy strategy spec = MergeMaps (deleteFailureConf spec) strategy"

definition applyOverride :: "'s hr_env \<Rightarrow> string \<Rightarrow> ModuleOverrideSpec \<Rightarrow> gmap \<Rightarrow> (string, gmap) result" where
  "applyOverride env moduleName ovr spec =
     rbind (if mo_OnFailureStrategy ovr = '''' then Ok spec
            else case GetOnFailureStrategy (he_config env) (mo_OnFailureStrategy ovr) of
                   None \<Rightarrow> Err (''onFailureStrategyByModule: '' @ squote (mo_OnFailureStrategy ovr) @ '' not found for module '' @ squote moduleName)
                 | Some strategy \<Rightarrow> Ok (applyStrategy strategy spec)) (\<lambda>spec.
     rbind (wrap_err (\<lambda>e. ''failed to merge spec patch for module '' @ squote moduleName @ '': '' @ e) (Merge (he_unmarshal env) spec (mo_SpecPatch ovr))) (\<lambda>spec.
       let spec = (case mo_Timeout ovr of None \<Rightarrow> spec | Some d \<Rightarrow> mput ''timeout'' (GStr (Duration_String d)) spec)
       in Ok (case mo_Interval ovr of None \<Rightarrow> spec | Some d \<Rightarrow> mput ''interval'' (GStr (Duration_String d)) spec)))"

definition helmReleaseSpec ::
  "'s hr_env \<Rightarrow> Release \<Rightarrow> string \<Rightarrow> ChartRef \<Rightarrow> ModuleRendered \<Rightarrow> gval \<Rightarrow> string \<Rightarrow> string \<Rightarrow> gmap \<Rightarrow> (string, gmap) result" where
  "helmReleaseSpec env release name chartRef moduleRendered dependsOn helmRepositoryName moduleName patch =
     (let spec = baseSpec release name chartRef moduleRendered dependsOn helmRepositoryName;
          spec = (case GetDefaultOnFailureStrategy (he_config env) of None \<Rightarrow> spec | Some strategy \<Rightarrow> MergeMaps spec strategy)
      in rbind (if mr_OnFailureStrategy moduleRendered = '''' then Ok spec
                else case GetOnFailureStrategy (he_config env) (mr_OnFailureStrategy moduleRendered) of
                       None \<Rightarrow> Err (''onFailureStrategy of module '' @ squote moduleName @ '' is not a known strategy'')
                     | Some strategy \<Rightarrow> Ok (applyStrategy strategy spec)) (\<lambda>spec.
         rbind (wrap_err (\<lambda>e. ''unable to merge config.specPatch on module '' @ squote moduleName @ '': '' @ e)
                  (Merge (he_unmarshal env) spec (configuration.specPatch (he_config env)))) (\<lambda>spec.
         let spec = MergeMaps spec patch
         in case filter (\<lambda>ovr. mo_Module ovr = moduleName) (rs_ModuleOverrides (rl_Spec release)) of
              [] \<Rightarrow> Ok spec
            | [ovr] \<Rightarrow> applyOverride env moduleName ovr spec
            | _ \<Rightarrow> Err (''override for module '' @ squote moduleName @ '' defined twice''))))"

definition errUndefinedField :: string where "errUndefinedField = ''a field that HelmRelease does not define''"
definition errWrongValue :: string where "errWrongValue = ''a value of the wrong type or format''"

definition decodeHelmReleaseSpec :: "'s hr_env \<Rightarrow> gmap \<Rightarrow> rval list \<Rightarrow> (string, rval list) result" where
  "decodeHelmReleaseSpec env spec target =
     (case he_toTree env spec of
        None \<Rightarrow> Err errWrongValue
      | Some tree \<Rightarrow>
          (case he_strict env tree target of
             Some decoded \<Rightarrow> Ok decoded
           | None \<Rightarrow> if he_lenient env tree then Err errUndefinedField else Err errWrongValue))"

text \<open>The HelmReleases that the module depends on, all in the namespace of the Release.\<close>

definition dependsOnOf :: "string \<Rightarrow> string \<Rightarrow> (string \<times> string) list \<Rightarrow> string list \<Rightarrow> (string, gval) result" where
  "dependsOnOf moduleName namespace byModule deps =
     rbind (rmap (\<lambda>(idx, dep). case map_of byModule dep of
              None \<Rightarrow> Err (''dependsOn['' @ nat_digits idx @ ''] not found for module '' @ squote moduleName)
            | Some rn \<Rightarrow> Ok (GMap [(''name'', GStr rn), (''namespace'', GStr namespace)])) (enumerate 0 deps)) (\<lambda>l. Ok (GList l))"

definition PopulateHelmRelease ::
  "'s hr_env \<Rightarrow> Release \<Rightarrow> (string \<times> ChartRef) list \<Rightarrow> (string \<times> ModuleRendered) list \<Rightarrow> string \<Rightarrow> string \<Rightarrow> (string \<times> string) list
     \<Rightarrow> HelmRelease \<Rightarrow> (string, rval list) result" where
  "PopulateHelmRelease env release charts rendered helmRepositoryName moduleName byModule hr =
     (case map_of charts moduleName of
        None \<Rightarrow> Err (''chart not found for module '' @ squote moduleName)
      | Some chartRef \<Rightarrow>
          (case map_of rendered moduleName of
             None \<Rightarrow> Err (''rendered module not found for module '' @ squote moduleName)
           | Some m \<Rightarrow>
               rbind (dependsOnOf moduleName (om_Namespace (fo_meta hr)) byModule (mr_DependsOn m)) (\<lambda>dependsOn.
               rbind (helmReleaseSpec env release (om_Name (fo_meta hr)) chartRef m dependsOn helmRepositoryName moduleName (mr_SpecPatch m)) (\<lambda>spec.
               (case decodeHelmReleaseSpec env spec (retainedSpec (he_fold env) (he_toTree env) (he_fields env) (fo_Spec hr) spec) of
                  Inr decoded \<Rightarrow> Ok decoded
                | Inl err \<Rightarrow>
                    (case rbind (helmReleaseSpec env release (om_Name (fo_meta hr)) chartRef m dependsOn helmRepositoryName moduleName [])
                            (\<lambda>without. decodeHelmReleaseSpec env without (zeroSpec env)) of
                       Inr _ \<Rightarrow> Err (''specPatch of module '' @ squote moduleName @ '' has '' @ err)
                     | Inl _ \<Rightarrow> Err (''failed to unmarshal spec into HelmRelease for module '' @ squote moduleName
                         @ '': the spec merged from the package, the configuration and the Release has '' @ err)))))))"

section \<open>Creating, patching and deleting\<close>

record pkg_view =
  pv_charts :: "(string \<times> ChartRef) list"
  pv_rendered :: "(string \<times> ModuleRendered) list"
  pv_helmRepositoryName :: string
  pv_byModule :: "(string \<times> string) list"

definition populate :: "'s hr_env \<Rightarrow> Release \<Rightarrow> pkg_view \<Rightarrow> string \<Rightarrow> HelmRelease \<Rightarrow> (string, rval list) result" where
  "populate env release pv moduleName hr =
     wrap_err (\<lambda>e. ''failed to populate HelmRelease '' @ squote (om_Name (fo_meta hr)) @ '': '' @ e)
       (PopulateHelmRelease env release (pv_charts pv) (pv_rendered pv) (pv_helmRepositoryName pv) moduleName (pv_byModule pv) hr)"

definition createHelmRelease ::
  "'s hr_env \<Rightarrow> Release \<Rightarrow> pkg_view \<Rightarrow> string \<Rightarrow> string \<Rightarrow> 's world \<Rightarrow> (string, unit) result \<times> 's world" where
  "createHelmRelease env release pv name moduleName w =
     (let hr = new_flux (new_meta (om_Namespace (rl_meta release)) name) (zeroSpec env)
      in case populate env release pv moduleName hr of
           Inl e \<Rightarrow> (Err e, w)
         | Inr spec \<Rightarrow>
             (case kc_SetController (he_client env) (rl_meta release) (hr\<lparr>fo_Spec := spec\<rparr>) of
                Inl e \<Rightarrow> (Err (''unable to set HelmRelease '' @ squote name @ '' owner reference: '' @ e), w)
              | Inr hr' \<Rightarrow>
                  (case call (kc_Create (he_client env) hr') w of
                     (Inl e, w1) \<Rightarrow> (Err (''error while creating HelmRelease '' @ squote name @ '': '' @ apiError (he_sections env) e), w1)
                   | (Inr _, w1) \<Rightarrow> (Ok (), w1))))"

definition patchHelmRelease ::
  "'s hr_env \<Rightarrow> Release \<Rightarrow> pkg_view \<Rightarrow> HelmRelease \<Rightarrow> string \<Rightarrow> 's world \<Rightarrow> (string, HelmRelease) result \<times> 's world" where
  "patchHelmRelease env release pv hr moduleName w =
     (case populate env release pv moduleName hr of
        Inl e \<Rightarrow> (Err e, w)
      | Inr spec \<Rightarrow>
          (case call (kc_Patch (he_client env) GuardUID hr (hr\<lparr>fo_Spec := spec\<rparr>)) w of
             (Inl e, w1) \<Rightarrow> (Err (''error while patching HelmRelease '' @ squote (om_Name (fo_meta hr)) @ '': '' @ apiError (he_sections env) e), w1)
           | (Inr hr', w1) \<Rightarrow> (Ok hr', w1)))"

definition computeHelmReleaseState :: "HelmRelease \<Rightarrow> HelmReleaseState" where
  "computeHelmReleaseState hr =
     (if staleReady (fo_Conditions hr) (fo_ObservedGeneration hr) (om_Generation (fo_meta hr))
      then \<lparr>hs_Ready = ConditionUnknown, hs_Status = ''''\<rparr>
      else let ready = foldl (\<lambda>s c. if cd_Type c = ''Ready'' then cd_Status c else s) ConditionUnset (fo_Conditions hr);
               message = foldl (\<lambda>s c. if cd_Type c = ''Released'' then cd_Message c else s) '''' (fo_Conditions hr)
           in \<lparr>hs_Ready = ready, hs_Status = (if ready = ConditionTrue \<or> ready = ConditionFalse then message else '''')\<rparr>)"

text \<open>A module that was not rendered has no \<open>Enabled\<close>: reading it panics.\<close>

definition nil_panic :: ReconcileError where
  "nil_panic = NewReconcileError ''invalid memory address or nil pointer dereference'' False ''''"

type_synonym states = "(string \<times> HelmReleaseState) list"

definition handleHelmRelease ::
  "'s hr_env \<Rightarrow> Release \<Rightarrow> pkg_view \<Rightarrow> string \<Rightarrow> string \<Rightarrow> states \<times> 's world \<Rightarrow> (ReconcileError, unit) result \<times> states \<times> 's world" where
  "handleHelmRelease env release pv name moduleName = (\<lambda>(states, w).
     (case map_of (pv_rendered pv) moduleName of
        None \<Rightarrow> (Err nil_panic, states, w)
      | Some m \<Rightarrow>
          (case call (kc_Get (he_client env) (nn (om_Namespace (rl_meta release)) name)) w of
             (Inl e, w1) \<Rightarrow>
               if \<not> IsNotFound e
               then (Err (NewReconcileError (''could not get HelmRelease '' @ squote name @ '': '' @ apiError (he_sections env) e) False ''HelmReleaseAccess''), states, w1)
               else if mr_Enabled m
               then (case createHelmRelease env release pv name moduleName w1 of
                       (Inl e, w2) \<Rightarrow> (Err (NewReconcileError e False ''HelmReleaseCreate''), states, w2)
                     | (Inr _, w2) \<Rightarrow>
                         (Ok (), mput moduleName \<lparr>hs_Ready = ConditionUnknown, hs_Status = ''''\<rparr> states,
                          Event ''Normal'' ''HelmReleaseCreated'' (''Created HelmRelease '' @ dquote name) w2))
               else (Ok (), mdel moduleName states, w1)
           | (Inr hr, w1) \<Rightarrow>
               if \<not> IsControlledBy (fo_meta hr) (rl_meta release)
               then if mr_Enabled m
                    then (Err (NewReconcileError (''HelmRelease '' @ squote name @ '' exists and is not controlled by this Release'') False ''HelmReleaseOwner''), states, w1)
                    else (Ok (), mdel moduleName states, w1)
               else if mr_Enabled m
               then (case patchHelmRelease env release pv hr moduleName w1 of
                       (Inl e, w2) \<Rightarrow> (Err (NewReconcileError e False ''HelmReleasePatch''), states, w2)
                     | (Inr hr', w2) \<Rightarrow> (Ok (), mput moduleName (computeHelmReleaseState hr') states, w2))
               else (case call (kc_Delete (he_client env) True hr) w1 of
                       (Inl e, w2) \<Rightarrow>
                         (Err (NewReconcileError (''error while deleting HelmRelease '' @ squote name @ '': '' @ apiError (he_sections env) e) False ''HelmReleaseDelete''),
                          states, w2)
                     | (Inr _, w2) \<Rightarrow> (Ok (), mdel moduleName states, w2)))))"

definition BuildHelmReleaseName :: "string \<Rightarrow> string \<Rightarrow> string" where
  "BuildHelmReleaseName releaseName moduleName =
     (if moduleName = ''noname'' then releaseName else releaseName @ ''-'' @ moduleName)"

definition computeReadyHelmReleases :: "states \<Rightarrow> string \<times> bool" where
  "computeReadyHelmReleases states =
     (let cnt = length (filter (\<lambda>(k, s). hs_Ready s = ConditionTrue) states)
      in (nat_digits cnt @ ''/'' @ nat_digits (length states), cnt = length states))"

text \<open>The loop of \<open>reconcile2\<close> over the modules of the package.\<close>

fun handleHelmReleases ::
  "'s hr_env \<Rightarrow> Release \<Rightarrow> pkg_view \<Rightarrow> string list \<Rightarrow> states \<times> 's world \<Rightarrow> (ReconcileError, unit) result \<times> states \<times> 's world" where
  "handleHelmReleases env release pv [] sw = (Ok (), sw)"
| "handleHelmReleases env release pv (moduleName # rest) sw =
     (case handleHelmRelease env release pv (BuildHelmReleaseName (om_Name (rl_meta release)) moduleName) moduleName sw of
        (Inl e, sw') \<Rightarrow> (Err e, sw')
      | (Inr _, sw') \<Rightarrow> handleHelmReleases env release pv rest sw')"

section \<open>Lemmas\<close>

lemma BuildHelmReleaseName_inj: "BuildHelmReleaseName r m = BuildHelmReleaseName r m' \<Longrightarrow> m = m'"
  by (auto simp: BuildHelmReleaseName_def split: if_splits)

lemma dropConf_lookup:
  "map_of (dropConf m) b = (if b \<in> {''strategy'', ''remediation''} \<and> getMap m b \<noteq> None then None else map_of m b)"
  by (auto simp: dropConf_def getMap_def)

lemma deleteFailureConf_lookup:
  "map_of (deleteFailureConf spec) a =
     (if a \<in> {''install'', ''upgrade''} then (case getMap spec a of Some m \<Rightarrow> Some (GMap (dropConf m)) | None \<Rightarrow> map_of spec a) else map_of spec a)"
  by (auto simp: deleteFailureConf_def getMap_def split: option.splits)

text \<open>No failure configuration is left as a map.\<close>

lemma deleteFailureConf_no_map:
  assumes "a \<in> {''install'', ''upgrade''}" "b \<in> {''strategy'', ''remediation''}" "at_path (GMap (deleteFailureConf spec)) [a, b] = Some x"
  shows "asMap x = None"
proof -
  have m: "map_of (deleteFailureConf spec) a = (case getMap spec a of Some m \<Rightarrow> Some (GMap (dropConf m)) | None \<Rightarrow> map_of spec a)"
    using assms(1) by (simp add: deleteFailureConf_lookup)
  show ?thesis
  proof (cases "getMap spec a")
    case None
    then show ?thesis using assms(3) m
      by (cases "map_of spec a") (auto simp: getMap_def elim: at_path.elims)
  next
    case (Some n)
    then have "map_of (dropConf n) b = Some x" using assms(3) m by (auto split: option.splits)
    then have "getMap n b = None" "map_of n b = Some x" using assms(2) by (auto simp: dropConf_lookup split: if_splits)
    then show ?thesis by (simp add: getMap_def)
  qed
qed

lemma MergeMaps_merged: "GMap (MergeMaps a b) = merged (Some (GMap a)) (GMap b)"
  by (simp add: MergeMaps_def)

lemma applyStrategy_whole:
  assumes "a \<in> {''install'', ''upgrade''}" "b \<in> {''strategy'', ''remediation''}" "wf_gmap strategy"
  shows "case at_path (GMap strategy) [a, b] of
      Some x \<Rightarrow> at_path (GMap (applyStrategy strategy spec)) [a, b] = Some x
    | None \<Rightarrow> \<forall>m. at_path (GMap (applyStrategy strategy spec)) [a, b] \<noteq> Some (GMap m)"
proof -
  let ?old = "at_path (GMap (deleteFailureConf spec)) [a, b]"
  have e: "at_path (GMap (applyStrategy strategy spec)) [a, b] =
     (case at_path (GMap strategy) [a, b] of Some x \<Rightarrow> Some (merged ?old x) | None \<Rightarrow> if blocked (GMap strategy) [a, b] then None else ?old)"
    unfolding applyStrategy_def MergeMaps_merged by (subst at_path_merged [OF assms(3)]) (simp only: Option.bind.bind_lunit)
  have o: "Option.bind ?old asMap = None" using deleteFailureConf_no_map [OF assms(1,2), of spec] by (cases ?old) auto
  then have "merged ?old x = x" for x by (rule merged_over_not_map)
  moreover have "?old \<noteq> Some (GMap m)" for m using o by auto
  ultimately show ?thesis unfolding e by (auto split: option.splits)
qed

lemma applyOverride_strategy:
  assumes "applyOverride env moduleName ovr spec = Ok spec'" "mo_OnFailureStrategy ovr \<noteq> ''''" "mo_SpecPatch ovr = None"
    and "GetOnFailureStrategy (he_config env) (mo_OnFailureStrategy ovr) = Some strategy" "a \<notin> {''timeout'', ''interval''}"
  shows "map_of spec' a = map_of (applyStrategy strategy spec) a"
  using assms by (auto simp: applyOverride_def Merge_def Let_def split: option.splits)

text \<open>The readiness of the states, and of a HelmRelease.\<close>

lemma computeReady_iff: "snd (computeReadyHelmReleases states) \<longleftrightarrow> (\<forall>p\<in>set states. hs_Ready (snd p) = ConditionTrue)"
proof -
  have "length (filter P xs) = length xs \<longleftrightarrow> (\<forall>x\<in>set xs. P x)" for P and xs :: "(string \<times> HelmReleaseState) list"
    by (metis filter_id_conv length_filter_less less_irrefl)
  then show ?thesis by (auto simp: computeReadyHelmReleases_def Let_def)
qed

lemma last_status:
  "foldl (\<lambda>s c. if cd_Type c = t then f c else s) z cs = (case find (\<lambda>c. cd_Type c = t) (rev cs) of None \<Rightarrow> z | Some c \<Rightarrow> f c)"
  by (induction cs rule: rev_induct) auto

lemma computeHelmReleaseState_ready:
  assumes "hs_Ready (computeHelmReleaseState hr) = ConditionTrue" "distinct (map cd_Type (fo_Conditions hr))"
  shows "\<exists>c. FindStatusCondition (fo_Conditions hr) ''Ready'' = Some c \<and> cd_Status c = ConditionTrue
    \<and> om_Generation (fo_meta hr) \<le> cd_ObservedGeneration c \<and> om_Generation (fo_meta hr) \<le> fo_ObservedGeneration hr"
proof -
  have ns: "\<not> staleReady (fo_Conditions hr) (fo_ObservedGeneration hr) (om_Generation (fo_meta hr))"
    using assms(1) by (auto simp: computeHelmReleaseState_def split: if_splits)
  then have "(case find (\<lambda>c. cd_Type c = ''Ready'') (rev (fo_Conditions hr)) of None \<Rightarrow> ConditionUnset | Some c \<Rightarrow> cd_Status c) = ConditionTrue"
    using assms(1) by (simp add: computeHelmReleaseState_def last_status Let_def split: if_splits)
  then have "map_of (buildConditionStatusByType (fo_Conditions hr)) ''Ready'' = Some ConditionTrue"
    by (auto simp: buildConditionStatusByType_last split: option.splits)
  then obtain c where c: "FindStatusCondition (fo_Conditions hr) ''Ready'' = Some c" "cd_Status c = ConditionTrue"
    using one_condition [OF assms(2)] by auto
  then show ?thesis using fresh_ready [OF ns c] by blast
qed

text \<open>Writes go to the HelmRelease of the module, when the Release controls it.\<close>

lemma handle_helmRelease_owned:
  assumes k: "kube_kind (he_client env) view past fo_meta" and h: "handleHelmRelease env release pv name moduleName (states, w) = (res, states', w')"
  shows "kube_kind.owned_change view past fo_meta (rl_meta release) {nn (om_Namespace (rl_meta release)) name} (w_api w) (w_api w')"
proof (cases "map_of (pv_rendered pv) moduleName")
  case None
  then show ?thesis using h by (auto simp: handleHelmRelease_def kube_kind.owned_refl [OF k])
next
  case (Some m)
  let ?key = "nn (om_Namespace (rl_meta release)) name"
  let ?own = "\<lambda>w. kube_kind.owned_change view past fo_meta (rl_meta release) {?key} (w_api w) (w_api w')"
  obtain r w1 where g: "call (kc_Get (he_client env) ?key) w = (r, w1)" by fastforce
  have "?own w1"
  proof (cases r)
    case (Inl e)
    have c: "kube_kind.owned_change view past fo_meta (rl_meta release) {?key} (w_api w1) (w_api w2)"
      if "createHelmRelease env release pv name moduleName w1 = (x, w2)" for x w2
      using that kube_kind.owned_world(2) [OF k] kube_kind.controller_key [OF k] unfolding createHelmRelease_def Let_def
      by (fastforce split: sum.splits prod.splits simp: kube_kind.owned_refl [OF k])
    show ?thesis
      using h Some g Inl c kube_kind.owned_refl [OF k] unfolding handleHelmRelease_def
      by (auto split: sum.splits prod.splits if_splits)
  next
    case (Inr hr)
    then have ob: "past (w_api w1) ?key hr" "meta_key (fo_meta hr) = ?key" using kube_kind.get_world [OF k] g by blast+
    consider "w' = w1" | "IsControlledBy (fo_meta hr) (rl_meta release)" "\<exists>d. call (kc_Delete (he_client env) True hr) w1 = (d, w')"
      | "IsControlledBy (fo_meta hr) (rl_meta release)" "\<exists>spec p. call (kc_Patch (he_client env) GuardUID hr (hr\<lparr>fo_Spec := spec\<rparr>)) w1 = (p, w')"
      using h Some g Inr unfolding handleHelmRelease_def patchHelmRelease_def
      by (auto split: sum.splits prod.splits if_splits)
    then show ?thesis
    proof cases
      case 1
      then show ?thesis by (simp add: kube_kind.owned_refl [OF k])
    next
      case 2
      then show ?thesis using kube_kind.owned_delete_world [OF k _ ob] by metis
    next
      case 3
      then show ?thesis using kube_kind.owned_patch_world [OF k _ _ ob(1)] ob(2) by fastforce
    qed
  qed
  then show ?thesis using kube_kind.owned_world(1) [OF k g] by blast
qed

abbreviation release_keys :: "Release \<Rightarrow> string list \<Rightarrow> NamespacedName set" where
  "release_keys release modules \<equiv> (\<lambda>m. nn (om_Namespace (rl_meta release)) (BuildHelmReleaseName (om_Name (rl_meta release)) m)) ` set modules"

lemma nn_eq: "nn a b = nn c d \<longleftrightarrow> a = c \<and> b = d"
  by (simp add: nn_def)

lemma handle_all_owned:
  assumes k: "kube_kind (he_client env) view past fo_meta" and "distinct modules"
    and "handleHelmReleases env release pv modules (states, w) = (res, states', w')"
  shows "kube_kind.owned_change view past fo_meta (rl_meta release) (release_keys release modules) (w_api w) (w_api w')"
  using assms(2,3)
proof (induction modules arbitrary: states w)
  case Nil
  then show ?case by (simp add: kube_kind.owned_refl [OF k])
next
  case (Cons m modules)
  let ?key = "nn (om_Namespace (rl_meta release)) (BuildHelmReleaseName (om_Name (rl_meta release)) m)"
  obtain r st1 w1 where h: "handleHelmRelease env release pv (BuildHelmReleaseName (om_Name (rl_meta release)) m) m (states, w) = (r, st1, w1)"
    by (cases "handleHelmRelease env release pv (BuildHelmReleaseName (om_Name (rl_meta release)) m) m (states, w)")
  have o: "kube_kind.owned_change view past fo_meta (rl_meta release) {?key} (w_api w) (w_api w1)"
    by (rule handle_helmRelease_owned [OF k h])
  have d: "{?key} \<inter> release_keys release modules = {}"
    using Cons.prems(1) by (auto simp: nn_eq dest: BuildHelmReleaseName_inj)
  have "kube_kind.owned_change view past fo_meta (rl_meta release) (release_keys release modules) (w_api w1) (w_api w')"
  proof (cases r)
    case (Inl e)
    then show ?thesis using Cons.prems h by (auto simp: kube_kind.owned_refl [OF k])
  next
    case (Inr u)
    then show ?thesis using Cons.IH [of st1 w1] Cons.prems h by simp
  qed
  from kube_kind.owned_trans [OF k o this d] show ?case by simp
qed

text \<open>The state that a module ends with.\<close>

lemma handle_one_state:
  assumes "handleHelmRelease env release pv name m (states, w) = (Inr u, states', w')"
  obtains r where "map_of (pv_rendered pv) m = Some r" "mr_Enabled r"
    "map_of states' m = Some \<lparr>hs_Ready = ConditionUnknown, hs_Status = ''''\<rparr> \<or> (\<exists>hr. map_of states' m = Some (computeHelmReleaseState hr))"
    "\<And>k. k \<noteq> m \<Longrightarrow> map_of states' k = map_of states k"
  | r where "map_of (pv_rendered pv) m = Some r" "\<not> mr_Enabled r" "map_of states' = (map_of states)(m := None)"
  using assms unfolding handleHelmRelease_def
  by (auto split: sum.splits prod.splits if_splits option.splits) blast+

lemma handle_all_states:
  assumes "handleHelmReleases env release pv modules (states, w) = (Inr u, states', w')" "distinct modules"
  shows "(\<forall>m\<in>set modules. \<exists>r. map_of (pv_rendered pv) m = Some r \<and>
      (if mr_Enabled r then map_of states' m = Some \<lparr>hs_Ready = ConditionUnknown, hs_Status = ''''\<rparr> \<or> (\<exists>hr. map_of states' m = Some (computeHelmReleaseState hr))
       else map_of states' m = None))
    \<and> (\<forall>k. k \<notin> set modules \<longrightarrow> map_of states' k = map_of states k)"
  using assms
proof (induction modules arbitrary: states w)
  case (Cons m modules)
  obtain r st1 w1 where h: "handleHelmRelease env release pv (BuildHelmReleaseName (om_Name (rl_meta release)) m) m (states, w) = (r, st1, w1)"
    by (cases "handleHelmRelease env release pv (BuildHelmReleaseName (om_Name (rl_meta release)) m) m (states, w)")
  then obtain u' where r: "r = Inr u'" using Cons.prems(1) by (cases r) auto
  then have IH: "(\<forall>m\<in>set modules. \<exists>r. map_of (pv_rendered pv) m = Some r \<and>
      (if mr_Enabled r then map_of states' m = Some \<lparr>hs_Ready = ConditionUnknown, hs_Status = ''''\<rparr> \<or> (\<exists>hr. map_of states' m = Some (computeHelmReleaseState hr))
       else map_of states' m = None)) \<and> (\<forall>k. k \<notin> set modules \<longrightarrow> map_of states' k = map_of st1 k)"
    using Cons.IH [of st1 w1] Cons.prems h by simp
  then have m: "map_of states' m = map_of st1 m" using Cons.prems(2) by simp
  show ?case
    by (rule handle_one_state [OF h [unfolded r]]) (use IH m in \<open>auto\<close>)
qed simp

section \<open>Properties\<close>

text \<open>C36: the Release never touches a HelmRelease that is not its own. Whatever the requests answer, and even when reads come from a
  stale cache, the loop over the modules changes or deletes no HelmRelease other than those of the modules, and of those only one that did
  not exist, or the very object (the same UID) that was read under the control of the Release. This holds for
  every module of the package, enabled or not, and when the loop stops at an error.\<close>

theorem helmReleases_of_others_untouched:
  assumes "kube_kind (he_client env) view past fo_meta" "distinct modules"
    and "handleHelmReleases env release pv modules (states, w) = (res, states', w')" "view (w_api w') k \<noteq> view (w_api w) k"
  shows "(\<exists>m\<in>set modules. k = nn (om_Namespace (rl_meta release)) (BuildHelmReleaseName (om_Name (rl_meta release)) m))
    \<and> (view (w_api w) k = None \<or> (\<exists>held hr. view (w_api w) k = Some held \<and> past (w_api w) k hr
         \<and> om_UID (fo_meta held) = om_UID (fo_meta hr) \<and> IsControlledBy (fo_meta hr) (rl_meta release)))"
  using handle_all_owned [OF assms(1-3)] assms(4)
  unfolding kube_kind.owned_change_def [OF assms(1)] kube_kind.mine_def [OF assms(1)] by blast

text \<open>A Release is ready only when all its modules are. When the loop over the modules succeeds and the states that it collected count as all
  ready, every enabled module has a HelmRelease whose Ready condition is True and, with one condition per type, set at
  the present generation of the HelmRelease; a disabled module plays no part.\<close>

theorem all_ready_modules:
  assumes "handleHelmReleases env release pv modules ([], w) = (Ok (), states, w')" "distinct modules"
    and "snd (computeReadyHelmReleases states)" "m \<in> set modules"
  shows "\<exists>r. map_of (pv_rendered pv) m = Some r \<and> (if mr_Enabled r
      then \<exists>hr. map_of states m = Some (computeHelmReleaseState hr) \<and> (distinct (map cd_Type (fo_Conditions hr)) \<longrightarrow>
        (\<exists>c. FindStatusCondition (fo_Conditions hr) ''Ready'' = Some c \<and> cd_Status c = ConditionTrue
          \<and> om_Generation (fo_meta hr) \<le> cd_ObservedGeneration c \<and> om_Generation (fo_meta hr) \<le> fo_ObservedGeneration hr))
      else map_of states m = None)"
proof -
  have t: "hs_Ready s = ConditionTrue" if "map_of states m = Some s" for s
    using assms(3) map_of_SomeD [OF that] by (auto simp: computeReady_iff)
  then show ?thesis
    using handle_all_states [OF assms(1,2)] assms(4) computeHelmReleaseState_ready by fastforce
qed

text \<open>Failure strategies are not mixed. When the Release overrides the failure strategy of a module, the configuration of failures in
  the resulting specification (\<open>strategy\<close> and \<open>remediation\<close> of \<open>install\<close> and \<open>upgrade\<close>) is that of the strategy it names, whole: what
  the default strategy of the configuration, the package or the patches had set there is gone.\<close>

theorem override_strategy_whole:
  assumes "helmReleaseSpec env release name chartRef moduleRendered dependsOn helmRepositoryName moduleName patch = Ok spec"
    and "filter (\<lambda>ovr. mo_Module ovr = moduleName) (rs_ModuleOverrides (rl_Spec release)) = [ovr]"
    and "mo_OnFailureStrategy ovr \<noteq> ''''" "mo_SpecPatch ovr = None"
    and "GetOnFailureStrategy (he_config env) (mo_OnFailureStrategy ovr) = Some strategy" "wf_gmap strategy"
    and "a \<in> {''install'', ''upgrade''}" "b \<in> {''strategy'', ''remediation''}"
  shows "case at_path (GMap strategy) [a, b] of
      Some x \<Rightarrow> at_path (GMap spec) [a, b] = Some x
    | None \<Rightarrow> \<forall>m. at_path (GMap spec) [a, b] \<noteq> Some (GMap m)"
proof -
  obtain spec0 where "applyOverride env moduleName ovr spec0 = Ok spec"
    using assms(1,2) by (auto simp: helmReleaseSpec_def Let_def rbind_Inr)
  then have "map_of spec a = map_of (applyStrategy strategy spec0) a"
    using applyOverride_strategy [OF _ assms(3-5)] assms(7) by auto
  then have "at_path (GMap spec) [a, b] = at_path (GMap (applyStrategy strategy spec0)) [a, b]" by simp
  then show ?thesis using applyStrategy_whole [OF assms(7,8,6), of spec0] by (simp cong: option.case_cong)
qed

section \<open>Witnesses\<close>

text \<open>A package of two modules, the second disabled, and a decoder that accepts every specification.\<close>

definition sample_strategy :: gmap where
  "sample_strategy = [(''install'', GMap [(''remediation'', GMap [(''retries'', GInt 3)])])]"

definition sample_hr_config :: configuration where
  "sample_hr_config = empty_configuration\<lparr>onFailureStrategyByName := [(''retry'', Some sample_strategy),
     (''stop'', Some [(''install'', GMap [(''strategy'', GMap [(''name'', GStr ''stop'')]), (''remediation'', GMap [(''remediateLastFailure'', GBool True)])])])],
     defaultOnFailureStrategy := ''stop''\<rparr>"

definition sample_hr_env :: "HelmRelease kserver hr_env" where
  "sample_hr_env = \<lparr>he_client = flux_client, he_config = sample_hr_config, he_sections = [], he_unmarshal = (\<lambda>_. Err ''not used''),
     he_fold = sample_fold, he_fields = [(''suspend'', TBasic BBool)], he_toTree = (\<lambda>_. Some (JMap [])), he_strict = (\<lambda>_ v. Some v), he_lenient = (\<lambda>_. True)\<rparr>"

definition sample_mr :: "bool \<Rightarrow> ModuleRendered" where
  "sample_mr enabled = \<lparr>mr_Parameters = [], mr_Values = [], mr_SpecPatch = [], mr_TargetNamespace = ''n'', mr_Enabled = enabled, mr_DependsOn = [],
     mr_Timeout = 0, mr_Interval = 0, mr_OnFailureStrategy = ''''\<rparr>"

definition sample_pv :: pkg_view where
  "sample_pv = \<lparr>pv_charts = [(''a'', \<lparr>ch_Name = ''c'', ch_Version = ''1''\<rparr>)], pv_rendered = [(''a'', sample_mr True), (''b'', sample_mr False)],
     pv_helmRepositoryName = ''kcd-r'', pv_byModule = [(''a'', ''r-a''), (''b'', ''r-b'')]\<rparr>"

definition sample_hr :: "string \<Rightarrow> string \<Rightarrow> HelmRelease" where
  "sample_hr name uid = \<lparr>fo_meta = child_meta name uid, fo_Spec = [RBasic (JBool False)], fo_Conditions = ready_conditions, fo_ObservedGeneration = 1,
     fo_Artifact = None\<rparr>"

definition sample_ovr_release :: Release where
  "sample_ovr_release = owner_release\<lparr>rl_Spec := (rl_Spec owner_release)\<lparr>rs_ModuleOverrides :=
     [\<lparr>mo_Module = ''a'', mo_SpecPatch = None, mo_OnFailureStrategy = ''retry'', mo_Timeout = Some 0, mo_Interval = None\<rparr>]\<rparr>\<rparr>"

definition ready_state :: "string \<Rightarrow> HelmReleaseState" where
  "ready_state message = \<lparr>hs_Ready = ConditionTrue, hs_Status = message\<rparr>"

text \<open>The HelmRelease of the second module belongs to another Release, and stays although the module is disabled.\<close>

theorem helmReleases_of_others_untouched_witness:
  "kv_view fo_meta (w_api (snd (snd (handleHelmReleases sample_hr_env owner_release sample_pv [''a'', ''b''] ([], world_of fo_meta [sample_hr ''r-b'' ''u2''])))))
     (nn ''n'' ''r-b'') = Some (sample_hr ''r-b'' ''u2'')"
proof -
  let ?w = "world_of fo_meta [sample_hr ''r-b'' ''u2'']"
  let ?k = "nn ''n'' ''r-b''"
  obtain res st w' where h: "handleHelmReleases sample_hr_env owner_release sample_pv [''a'', ''b''] ([], ?w) = (res, st, w')"
    by (cases "handleHelmReleases sample_hr_env owner_release sample_pv [''a'', ''b''] ([], ?w)")
  have k: "kube_kind (he_client sample_hr_env) (kv_view fo_meta) (kv_past fo_meta) fo_meta"
    by (simp add: sample_hr_env_def kv.kube_kind_axioms)
  have v: "kv_view fo_meta (w_api ?w) ?k = Some (sample_hr ''r-b'' ''u2'')" by code_simp
  have past: "hr = sample_hr ''r-b'' ''u2''" if "kv_past fo_meta (w_api ?w) ?k hr" for hr
    using that v unfolding kv_past_def kv_view_def by (auto simp: world_of_def kv_at_def)
  have "\<not> IsControlledBy (fo_meta (sample_hr ''r-b'' ''u2'')) (rl_meta owner_release)" by code_simp
  then have "kv_view fo_meta (w_api w') ?k = kv_view fo_meta (w_api ?w) ?k"
    using helmReleases_of_others_untouched [OF k _ h, of ?k] v past by force
  then show ?thesis using h v by simp
qed

theorem all_ready_modules_witness:
  "\<exists>hr. ready_state [] = computeHelmReleaseState hr \<and> map_of (pv_rendered sample_pv) ''a'' = Some (sample_mr True)"
proof -
  have "handleHelmReleases sample_hr_env owner_release sample_pv [''a'', ''b''] ([], world_of fo_meta [sample_hr ''r-a'' ''u1'']) =
      (Ok (), [(''a'', ready_state [])], world_of fo_meta [sample_hr ''r-a'' ''u1''])"
    by code_simp
  moreover have "distinct [''a'', ''b'']" "snd (computeReadyHelmReleases [(''a'', ready_state [])])" "''a'' \<in> set [''a'', ''b'']"
    by (simp_all add: computeReadyHelmReleases_def ready_state_def)
  ultimately have "\<exists>r. map_of (pv_rendered sample_pv) ''a'' = Some r
      \<and> (if mr_Enabled r then \<exists>hr. map_of [(''a'', ready_state [])] ''a'' = Some (computeHelmReleaseState hr) else map_of [(''a'', ready_state [])] ''a'' = None)"
    using all_ready_modules by (metis (no_types, lifting))
  moreover have "map_of (pv_rendered sample_pv) ''a'' = Some (sample_mr True)" "mr_Enabled (sample_mr True)"
    by (simp_all add: sample_pv_def sample_mr_def)
  ultimately show ?thesis by auto
qed

theorem override_strategy_whole_witness:
  "\<exists>spec. helmReleaseSpec sample_hr_env sample_ovr_release ''r-a'' \<lparr>ch_Name = ''c'', ch_Version = ''1''\<rparr> (sample_mr True) (GList []) ''kcd-r'' ''a'' [] = Ok spec
     \<and> at_path (GMap spec) [''install'', ''remediation''] = Some (GMap [(''retries'', GInt 3)])
     \<and> at_path (GMap spec) [''install'', ''strategy''] = None"
proof -
  obtain spec where s: "helmReleaseSpec sample_hr_env sample_ovr_release ''r-a'' \<lparr>ch_Name = ''c'', ch_Version = ''1''\<rparr> (sample_mr True) (GList []) ''kcd-r'' ''a'' [] = Ok spec"
      "at_path (GMap spec) [''install'', ''strategy''] = None"
    by (rule that [of "the (case helmReleaseSpec sample_hr_env sample_ovr_release ''r-a'' \<lparr>ch_Name = ''c'', ch_Version = ''1''\<rparr> (sample_mr True) (GList []) ''kcd-r'' ''a'' [] of
        Inr s \<Rightarrow> Some s | Inl _ \<Rightarrow> None)"]) code_simp+
  have "at_path (GMap spec) [''install'', ''remediation''] = Some (GMap [(''retries'', GInt 3)])"
    using override_strategy_whole [OF s(1), of "\<lparr>mo_Module = ''a'', mo_SpecPatch = None, mo_OnFailureStrategy = ''retry'', mo_Timeout = Some 0, mo_Interval = None\<rparr>"
        sample_strategy "''install''" "''remediation''"]
    by (simp add: sample_ovr_release_def sample_hr_env_def sample_hr_config_def GetOnFailureStrategy_def DeepCopyMap_def sample_strategy_def)
  then show ?thesis using s by blast
qed

end
