(* ===== verification/Outputs.thy ===== *)
theory Outputs
  imports Sources
begin

text \<open>
  The outputs of a Release: the Connections (\<open>release_outputconnection.go\<close>) and ClusterConnections (\<open>release_outputclusterconnection.go\<close>) that it
  creates for its consumers, and the deletion of those it no longer has (\<open>release_controller.go\<close>). A Connection is owned through its owner
  reference, a ClusterConnection through \<open>spec.parentRelease\<close>.
\<close>

section \<open>The environment\<close>

text \<open>
  \<open>ou_ListConnections\<close> and \<open>ou_ListClusterConnections\<close> are the lists of the cache; the index of the lists is modelled by its keys. \<open>ou_marshal\<close> is
  \<open>json.Marshal\<close> on the values. The rest is what the check of a connection needs.
\<close>

record ('s, 'g) out_env =
  ou_connections :: "('s, Connection) kind_client"
  ou_clusterConnections :: "('s, ClusterConnection) kind_client"
  ou_ListConnections :: "'s \<Rightarrow> (api_err, Connection list) result \<times> 's"
  ou_ListClusterConnections :: "'s \<Rightarrow> (api_err, ClusterConnection list) result \<times> 's"
  ou_sections :: "(string \<times> string list) list"
  ou_marshal :: "gmap \<Rightarrow> (string, JSON) result"
  ou_strict :: "JSON \<Rightarrow> (string, gmap) result"
  ou_js :: "'g jsonschema"
  ou_descr :: "contract_error \<Rightarrow> string"
  ou_reader :: contract_reader
  ou_gate :: bool

record out_state =
  op_byName :: "(string \<times> ReleaseOutputConnection) list"
  op_connections :: "string list"
  op_clusterConnections :: "string list"

definition uncheckedConnection :: "('s, 'g) out_env \<Rightarrow> string" where
  "uncheckedConnection env =
     (if ou_gate env then ''not checked yet'' else ''not checked, as the connections feature gate is off'')"

definition outputConnectionMessage :: "('s, 'g) out_env \<Rightarrow> ConnectionFacade \<Rightarrow> string" where
  "outputConnectionMessage env connection =
     (if cnx_GetStatusPhase connection = ConnectionPhaseNone \<or> cnx_GetStatusPhase connection = ConnectionPhaseReady then ''''
      else case findContract (ou_sections env) (ou_reader env) connection of
             Inl e \<Rightarrow> e
           | Inr contract \<Rightarrow>
               (case connectionError (ou_strict env) (ou_js env) (ou_descr env) contract connection of
                  Inl e \<Rightarrow> e | Inr _ \<Rightarrow> uncheckedConnection env))"

section \<open>Connections\<close>

definition BuildConnectionName :: "string \<Rightarrow> string \<Rightarrow> string" where
  "BuildConnectionName releaseName outputName = ''kcd-'' @ releaseName @ ''-'' @ outputName"

definition new_connection :: "ObjectMeta \<Rightarrow> Connection" where
  "new_connection m = \<lparr>cn_meta = m,
     cn_Spec = \<lparr>ns_Contract = '''', ns_Priority = 0, ns_Values = None, ns_OutputName = '''', ns_Description = ''''\<rparr>,
     cn_Status = \<lparr>nt_Phase = ConnectionPhaseNone, nt_Parent = '''', nt_Message = '''', nt_ContractGeneration = 0, nt_ContractKind = None,
       nt_ContractDisplay = ''''\<rparr>\<rparr>"

definition PopulateConnection :: "('s, 'g) out_env \<Rightarrow> Connection \<Rightarrow> OutputRendered \<Rightarrow> (string, Connection) result" where
  "PopulateConnection env c out =
     rbind (wrap_err (\<lambda>e. ''could not encode the values: '' @ e) (ou_marshal env (ro_Values out))) (\<lambda>valuesTxt.
       Ok (c\<lparr>cn_Spec := \<lparr>ns_Contract = ro_Contract out, ns_Priority = ro_Priority out, ns_Values = Some valuesTxt, ns_OutputName = ro_Name out,
              ns_Description = ro_Description out\<rparr>\<rparr>))"

definition createConnection ::
  "('s, 'g) out_env \<Rightarrow> Release \<Rightarrow> OutputRendered \<Rightarrow> string \<Rightarrow> 's world \<Rightarrow> (string, Connection) result \<times> 's world" where
  "createConnection env release out name w =
     (case PopulateConnection env (new_connection (new_meta (om_Namespace (rl_meta release)) name)) out of
        Inl e \<Rightarrow> (Err (''failed to populate its Connection: '' @ e), w)
      | Inr c \<Rightarrow>
          (case kc_SetController (ou_connections env) (rl_meta release) c of
             Inl e \<Rightarrow> (Err (''unable to set the owner reference of its Connection: '' @ e), w)
           | Inr c' \<Rightarrow>
               (case call (kc_Create (ou_connections env) c') w of
                  (Inl e, w1) \<Rightarrow> (Err (''error while creating its Connection: '' @ apiError (ou_sections env) e), w1)
                | (Inr c'', w1) \<Rightarrow> (Ok c'', w1))))"

text \<open>The patch of a Connection carries no UID.\<close>

definition patchConnection ::
  "('s, 'g) out_env \<Rightarrow> Connection \<Rightarrow> OutputRendered \<Rightarrow> 's world \<Rightarrow> (string, Connection) result \<times> 's world" where
  "patchConnection env c out w =
     (case PopulateConnection env c out of
        Inl e \<Rightarrow> (Err (''failed to populate its Connection: '' @ e), w)
      | Inr c' \<Rightarrow>
          (case call (kc_Patch (ou_connections env) Unguarded c c') w of
             (Inl e, w1) \<Rightarrow> (Err (''error while patching its Connection: '' @ apiError (ou_sections env) e), w1)
           | (Inr c'', w1) \<Rightarrow> (Ok c'', w1)))"

definition handleOutputConnection ::
  "('s, 'g) out_env \<Rightarrow> Release \<Rightarrow> string \<Rightarrow> OutputRendered \<Rightarrow> out_state \<times> 's world \<Rightarrow> (ReconcileError, unit) result \<times> out_state \<times> 's world" where
  "handleOutputConnection env release name out = (\<lambda>(st, w).
     (case call (kc_Get (ou_connections env) (nn (om_Namespace (rl_meta release)) name)) w of
        (Inl e, w1) \<Rightarrow>
          if \<not> IsNotFound e
          then (Err (NewReconcileError (''could not get its Connection: '' @ apiError (ou_sections env) e) False ''ConnectionAccess''), st, w1)
          else let st1 = st\<lparr>op_connections := List.insert name (op_connections st)\<rparr>
               in (case createConnection env release out name w1 of
                     (Inl e, w2) \<Rightarrow> (Err (NewReconcileError e False ''ConnectionCreate''), st1, w2)
                   | (Inr created, w2) \<Rightarrow>
                       (Ok (), st1\<lparr>op_byName := mput (ro_Name out) \<lparr>oc_Kind = KindConnection, oc_Name = om_Name (cn_meta created),
                            oc_Namespace = om_Namespace (cn_meta created), oc_Phase = ConnectionPhaseNone, oc_Message = ''''\<rparr> (op_byName st1)\<rparr>,
                        Event ''Normal'' ''ConnectionCreated'' (''Created Connection '' @ dquote name) w2))
      | (Inr c, w1) \<Rightarrow>
          let st1 = st\<lparr>op_connections := List.insert name (op_connections st)\<rparr>
          in (case patchConnection env c out w1 of
                (Inl e, w2) \<Rightarrow> (Err (NewReconcileError e False ''ConnectionPatch''), st1, w2)
              | (Inr c', w2) \<Rightarrow>
                  (Ok (), st1\<lparr>op_byName := mput (ro_Name out) \<lparr>oc_Kind = KindConnection, oc_Name = om_Name (cn_meta c'),
                       oc_Namespace = om_Namespace (cn_meta c'), oc_Phase = nt_Phase (cn_Status c'),
                       oc_Message = outputConnectionMessage env (CConnection c')\<rparr> (op_byName st1)\<rparr>, w2))))"

section \<open>ClusterConnections\<close>

definition BuildClusterConnectionName :: "string \<Rightarrow> string \<Rightarrow> string \<Rightarrow> string" where
  "BuildClusterConnectionName releaseName releaseNamespace outputName =
     ''kcd-'' @ releaseNamespace @ ''-'' @ releaseName @ ''-'' @ outputName"

definition parentRef :: "Release \<Rightarrow> ParentReleaseRef" where
  "parentRef release = \<lparr>pf_Name = om_Name (rl_meta release), pf_Namespace = om_Namespace (rl_meta release)\<rparr>"

definition new_clusterConnection :: "ObjectMeta \<Rightarrow> ClusterConnection" where
  "new_clusterConnection m = \<lparr>kn_meta = m,
     kn_Spec = \<lparr>ks_ParentRelease = None, ks_Contract = '''', ks_Priority = 0, ks_Values = None, ks_OutputName = '''', ks_Description = ''''\<rparr>,
     kn_Status = \<lparr>kt_Phase = ConnectionPhaseNone, kt_Parent = '''', kt_Message = '''', kt_ContractGeneration = 0\<rparr>\<rparr>"

definition PopulateClusterConnection ::
  "('s, 'g) out_env \<Rightarrow> Release \<Rightarrow> ClusterConnection \<Rightarrow> OutputRendered \<Rightarrow> (string, ClusterConnection) result" where
  "PopulateClusterConnection env release c out =
     rbind (wrap_err (\<lambda>e. ''could not encode the values: '' @ e) (ou_marshal env (ro_Values out))) (\<lambda>valuesTxt.
       Ok (c\<lparr>kn_Spec := \<lparr>ks_ParentRelease = Some (parentRef release), ks_Contract = ro_Contract out, ks_Priority = ro_Priority out,
              ks_Values = Some valuesTxt, ks_OutputName = ro_Name out, ks_Description = ro_Description out\<rparr>\<rparr>))"

definition createClusterConnection ::
  "('s, 'g) out_env \<Rightarrow> Release \<Rightarrow> OutputRendered \<Rightarrow> string \<Rightarrow> 's world \<Rightarrow> (string, ClusterConnection) result \<times> 's world" where
  "createClusterConnection env release out name w =
     (case PopulateClusterConnection env release (new_clusterConnection (new_meta '''' name)) out of
        Inl e \<Rightarrow> (Err (''failed to populate its ClusterConnection: '' @ e), w)
      | Inr c \<Rightarrow>
          (case call (kc_Create (ou_clusterConnections env) c) w of
             (Inl e, w1) \<Rightarrow> (Err (''error while creating its ClusterConnection: '' @ apiError (ou_sections env) e), w1)
           | (Inr c', w1) \<Rightarrow> (Ok c', w1)))"

definition patchClusterConnection ::
  "('s, 'g) out_env \<Rightarrow> Release \<Rightarrow> ClusterConnection \<Rightarrow> OutputRendered \<Rightarrow> 's world \<Rightarrow> (string, ClusterConnection) result \<times> 's world" where
  "patchClusterConnection env release c out w =
     (case PopulateClusterConnection env release c out of
        Inl e \<Rightarrow> (Err (''failed to populate its ClusterConnection: '' @ e), w)
      | Inr c' \<Rightarrow>
          (case call (kc_Patch (ou_clusterConnections env) GuardUID c c') w of
             (Inl e, w1) \<Rightarrow> (Err (''error while patching its ClusterConnection: '' @ apiError (ou_sections env) e), w1)
           | (Inr c'', w1) \<Rightarrow> (Ok c'', w1)))"

text \<open>Another Release is the parent of \<open>c\<close>.\<close>

definition foreignParent :: "Release \<Rightarrow> ClusterConnection \<Rightarrow> bool" where
  "foreignParent release c = (case ks_ParentRelease (kn_Spec c) of None \<Rightarrow> False | Some p \<Rightarrow> p \<noteq> parentRef release)"

definition handleOutputClusterConnection ::
  "('s, 'g) out_env \<Rightarrow> Release \<Rightarrow> string \<Rightarrow> OutputRendered \<Rightarrow> out_state \<times> 's world \<Rightarrow> (ReconcileError, unit) result \<times> out_state \<times> 's world" where
  "handleOutputClusterConnection env release name out = (\<lambda>(st, w).
     (case call (kc_Get (ou_clusterConnections env) (nn '''' name)) w of
        (Inl e, w1) \<Rightarrow>
          if \<not> IsNotFound e
          then (Err (NewReconcileError (''could not get its ClusterConnection: '' @ apiError (ou_sections env) e) False ''ClusterConnectionAccess''), st, w1)
          else let st1 = st\<lparr>op_clusterConnections := List.insert name (op_clusterConnections st)\<rparr>
               in (case createClusterConnection env release out name w1 of
                     (Inl e, w2) \<Rightarrow> (Err (NewReconcileError e False ''ConnectionCreate''), st1, w2)
                   | (Inr created, w2) \<Rightarrow>
                       (Ok (), st1\<lparr>op_byName := mput (ro_Name out) \<lparr>oc_Kind = KindClusterConnection, oc_Name = om_Name (kn_meta created),
                            oc_Namespace = '''', oc_Phase = ConnectionPhaseNone, oc_Message = ''''\<rparr> (op_byName st1)\<rparr>,
                        Event ''Normal'' ''ClusterConnectionCreated'' (''Created ClusterConnection '' @ dquote name) w2))
      | (Inr c, w1) \<Rightarrow>
          if foreignParent release c
          then (Err (NewReconcileError ''its ClusterConnection belongs to another Release'' False ''ClusterConnectionOwner''), st, w1)
          else let st1 = st\<lparr>op_clusterConnections := List.insert name (op_clusterConnections st)\<rparr>
               in (case patchClusterConnection env release c out w1 of
                     (Inl e, w2) \<Rightarrow> (Err (NewReconcileError e False ''ClusterConnectionPatch''), st1, w2)
                   | (Inr c', w2) \<Rightarrow>
                       (Ok (), st1\<lparr>op_byName := mput (ro_Name out) \<lparr>oc_Kind = KindClusterConnection, oc_Name = om_Name (kn_meta c'),
                            oc_Namespace = '''', oc_Phase = kt_Phase (kn_Status c'),
                            oc_Message = outputConnectionMessage env (CClusterConnection c')\<rparr> (op_byName st1)\<rparr>, w2))))"

section \<open>All the outputs\<close>

definition handleOutput ::
  "('s, 'g) out_env \<Rightarrow> Release \<Rightarrow> OutputRendered \<Rightarrow> out_state \<times> 's world \<Rightarrow> (ReconcileError, unit) result \<times> out_state \<times> 's world" where
  "handleOutput env release out =
     (let r = om_Name (rl_meta release); ns = om_Namespace (rl_meta release)
      in if ro_Kind out = ''ClusterConnection''
         then handleOutputClusterConnection env release (BuildClusterConnectionName r ns (ro_Name out)) out
         else handleOutputConnection env release (BuildConnectionName r (ro_Name out)) out)"

fun handleOutputs ::
  "('s, 'g) out_env \<Rightarrow> Release \<Rightarrow> nat \<Rightarrow> OutputRendered list \<Rightarrow> out_state \<times> 's world \<Rightarrow> (ReconcileError, unit) result \<times> out_state \<times> 's world" where
  "handleOutputs env release idx [] sw = (Ok (), sw)"
| "handleOutputs env release idx (out # rest) sw =
     (case handleOutput env release out sw of
        (Inl e, sw') \<Rightarrow> (Err (atPlace (''output['' @ nat_digits idx @ '']'') e), sw')
      | (Inr _, sw') \<Rightarrow> handleOutputs env release (Suc idx) rest sw')"

definition computeReadyConnection :: "(string \<times> ReleaseOutputConnection) list \<Rightarrow> string \<times> bool" where
  "computeReadyConnection byName =
     (let cnt = length (filter (\<lambda>(k, c). oc_Phase c = ConnectionPhaseReady) byName)
      in (nat_digits cnt @ ''/'' @ nat_digits (length byName), cnt = length byName))"

section \<open>The lists of a Release, and the orphans\<close>

definition OutputConnectionReleaseKeys :: "Connection \<Rightarrow> string list" where
  "OutputConnectionReleaseKeys c = (case GetControllerOf (cn_meta c) of None \<Rightarrow> [] | Some owner \<Rightarrow> [or_Name owner])"

definition OutputClusterConnectionReleaseKeys :: "ClusterConnection \<Rightarrow> string list" where
  "OutputClusterConnectionReleaseKeys c =
     (case ks_ParentRelease (kn_Spec c) of None \<Rightarrow> [] | Some p \<Rightarrow> [pf_Namespace p @ '':'' @ pf_Name p])"

definition listed :: "('o \<Rightarrow> bool) \<Rightarrow> (api_err, 'o list) result \<Rightarrow> (api_err, 'o list) result" where
  "listed keep r = (case r of Inl e \<Rightarrow> if IsNotFound e then Ok [] else Err e | Inr l \<Rightarrow> Ok (filter keep l))"

definition FindOutputConnectionsFromRelease ::
  "('s, 'g) out_env \<Rightarrow> NamespacedName \<Rightarrow> 's world \<Rightarrow> (api_err, Connection list) result \<times> 's world" where
  "FindOutputConnectionsFromRelease env release w =
     (case call (ou_ListConnections env) w of (r, w1) \<Rightarrow>
        (listed (\<lambda>c. om_Namespace (cn_meta c) = Namespace release \<and> Name release \<in> set (OutputConnectionReleaseKeys c)) r, w1))"

definition FindOutputClusterConnectionsFromRelease ::
  "('s, 'g) out_env \<Rightarrow> NamespacedName \<Rightarrow> 's world \<Rightarrow> (api_err, ClusterConnection list) result \<times> 's world" where
  "FindOutputClusterConnectionsFromRelease env release w =
     (case call (ou_ListClusterConnections env) w of (r, w1) \<Rightarrow>
        (listed (\<lambda>c. Namespace release @ '':'' @ Name release \<in> set (OutputClusterConnectionReleaseKeys c)) r, w1))"

text \<open>The deletions of orphans: an error is only logged.\<close>

definition deleteOrphans :: "('s, 'o) kind_client \<Rightarrow> ('o \<Rightarrow> string) \<Rightarrow> string list \<Rightarrow> 'o list \<Rightarrow> 's world \<Rightarrow> 's world" where
  "deleteOrphans client name managed obs w =
     foldl (\<lambda>w ob. if name ob \<in> set managed then w else snd (call (kc_Delete client False ob) w)) w obs"

text \<open>The deletion of a Release: every deletion is tried, and the first error is returned.\<close>

definition deleteOutputClusterConnections :: "('s, 'g) out_env \<Rightarrow> NamespacedName \<Rightarrow> 's world \<Rightarrow> (string, unit) result \<times> 's world" where
  "deleteOutputClusterConnections env release w =
     (case FindOutputClusterConnectionsFromRelease env release w of
        (Inl e, w1) \<Rightarrow> (Err (''could not list the ClusterConnections of the Release: '' @ apiError (ou_sections env) e), w1)
      | (Inr l, w1) \<Rightarrow>
          foldl (\<lambda>(failed, w) c. case call (kc_Delete (ou_clusterConnections env) False c) w of
              (Inl e, w') \<Rightarrow>
                (if IsNotFound e then failed
                 else case failed of Inl f \<Rightarrow> Inl f
                      | Inr _ \<Rightarrow> Err (''could not delete the ClusterConnections of the Release: '' @ apiError (ou_sections env) e), w')
            | (Inr _, w') \<Rightarrow> (failed, w'))
            (Ok (), w1) l)"

section \<open>Lemmas\<close>

lemma computeReadyConnection_iff: "snd (computeReadyConnection byName) \<longleftrightarrow> (\<forall>p\<in>set byName. oc_Phase (snd p) = ConnectionPhaseReady)"
proof -
  have "length (filter P xs) = length xs \<longleftrightarrow> (\<forall>x\<in>set xs. P x)" for P and xs :: "(string \<times> ReleaseOutputConnection) list"
    by (metis filter_id_conv length_filter_less less_irrefl)
  then show ?thesis by (auto simp: computeReadyConnection_def Let_def)
qed

lemma PopulateClusterConnection_meta:
  "PopulateClusterConnection env release c out = Inr c' \<Longrightarrow> kn_meta c' = kn_meta c \<and> ks_ParentRelease (kn_Spec c') = Some (parentRef release)"
  by (auto simp: PopulateClusterConnection_def rbind_Inr)

text \<open>The deletions of the list: one that is done stays done, and without an error all are.\<close>

abbreviation deletion_step where
  "deletion_step env \<equiv> (\<lambda>(failed, w) c. case call (kc_Delete (ou_clusterConnections env) False c) w of
      (Inl e, w') \<Rightarrow>
        (if IsNotFound e then failed
         else case failed of Inl f \<Rightarrow> Inl f
              | Inr _ \<Rightarrow> Err (''could not delete the ClusterConnections of the Release: '' @ apiError (ou_sections env) e), w')
    | (Inr _, w') \<Rightarrow> (failed, w'))"

lemma deletions_fail: "fst (foldl (deletion_step env) (Inl f, w) l) = Inl f"
  by (induction l arbitrary: w) (auto split: prod.splits sum.splits)

lemma deletions_keep:
  assumes k: "kube_delete (ou_clusterConnections env) view past kn_meta" and "deleted view kn_meta (w_api w) key"
  shows "deleted view kn_meta (w_api (snd (foldl (deletion_step env) (failed, w) l))) key"
  using assms(2)
proof (induction l arbitrary: failed w)
  case (Cons c l)
  obtain d w1 where d: "call (kc_Delete (ou_clusterConnections env) False c) w = (d, w1)" by fastforce
  then have "deleted view kn_meta (w_api w1) key"
    using kube_delete.deleted_stays [OF k _ Cons.prems] unfolding call_iff by blast
  moreover obtain failed' where "foldl (deletion_step env) (failed, w) (c # l) = foldl (deletion_step env) (failed', w1) l"
    using d by (cases d) auto
  ultimately show ?case using Cons.IH by simp
qed simp

lemma deletions_done:
  assumes k: "kube_delete (ou_clusterConnections env) view past kn_meta"
    and "foldl (deletion_step env) (Inr (), w) l = (Inr (), w')" "c \<in> set l"
  shows "deleted view kn_meta (w_api w') (meta_key (kn_meta c))"
  using assms(2,3)
proof (induction l arbitrary: w)
  case (Cons b l)
  obtain d w1 where d: "call (kc_Delete (ou_clusterConnections env) False b) w = (d, w1)" by fastforce
  have ok: "case d of Inl e \<Rightarrow> IsNotFound e | Inr _ \<Rightarrow> True"
  proof (rule ccontr)
    assume "\<not> ?thesis"
    then obtain e where e: "d = Inl e" "\<not> IsNotFound e" by (cases d) auto
    then have "fst (foldl (deletion_step env) (Inr (), w) (b # l)) = Err (''could not delete the ClusterConnections of the Release: '' @ apiError (ou_sections env) e)"
      using d deletions_fail by simp
    then show False using Cons.prems(1) by simp
  qed
  then have rest: "foldl (deletion_step env) (Inr (), w1) l = (Inr (), w')" using Cons.prems(1) d by (cases d) auto
  show ?case
  proof (cases "c = b")
    case True
    then have "deleted view kn_meta (w_api w1) (meta_key (kn_meta c))"
      using kube_delete.deleted_now [OF k, of False b] d ok by (auto simp: call_iff)
    then show ?thesis using deletions_keep [OF k, of w1 _ "Inr ()" l] rest by simp
  next
    case False
    then show ?thesis using Cons.IH [OF rest] Cons.prems(2) by simp
  qed
qed simp

lemma deleteOutputClusterConnections_done:
  assumes k: "kube_delete (ou_clusterConnections env) view past kn_meta"
    and "deleteOutputClusterConnections env release w = (Ok (), w')"
  obtains l s where "ou_ListClusterConnections env (w_api w) = (l, s)" "case l of Inl e \<Rightarrow> IsNotFound e | Inr _ \<Rightarrow> True"
    "\<And>cs c. l = Inr cs \<Longrightarrow> c \<in> set cs \<Longrightarrow> Namespace release @ '':'' @ Name release \<in> set (OutputClusterConnectionReleaseKeys c) \<Longrightarrow>
       deleted view kn_meta (w_api w') (meta_key (kn_meta c))"
proof -
  obtain l w1 where l: "call (ou_ListClusterConnections env) w = (l, w1)" by fastforce
  obtain found where f: "listed (\<lambda>c. Namespace release @ '':'' @ Name release \<in> set (OutputClusterConnectionReleaseKeys c)) l = Inr found"
      "foldl (deletion_step env) (Inr (), w1) found = (Inr (), w')"
    using assms(2) l unfolding deleteOutputClusterConnections_def FindOutputClusterConnectionsFromRelease_def
    by (auto split: sum.splits)
  have "deleted view kn_meta (w_api w') (meta_key (kn_meta c))"
    if "l = Inr cs" "c \<in> set cs" "Namespace release @ '':'' @ Name release \<in> set (OutputClusterConnectionReleaseKeys c)" for cs c
    using deletions_done [OF k f(2)] f(1) that by (auto simp: listed_def)
  moreover have "case l of Inl e \<Rightarrow> IsNotFound e | Inr _ \<Rightarrow> True" using f(1) by (auto simp: listed_def split: sum.splits if_splits)
  ultimately show ?thesis using that l by (auto simp: call_iff)
qed

section \<open>Properties\<close>

text \<open>C39: a Release never overwrites a ClusterConnection of another one. Whatever the requests answer, handling a ClusterConnection output changes no
  ClusterConnection but the one of its name, and that one only if it did not exist, or if it is the very object (the same UID) that was read
  with no other Release as its parent.\<close>

theorem clusterConnections_of_others_untouched:
  assumes "kube_kind (ou_clusterConnections env) view past kn_meta"
    and "handleOutputClusterConnection env release name out (st, w) = (res, st', w')" "view (w_api w') k \<noteq> view (w_api w) k"
  shows "k = nn '''' name \<and> (view (w_api w) k = None \<or> (\<exists>held c. view (w_api w) k = Some held \<and> past (w_api w) k c
     \<and> om_UID (kn_meta held) = om_UID (kn_meta c) \<and> (ks_ParentRelease (kn_Spec c) = None \<or> ks_ParentRelease (kn_Spec c) = Some (parentRef release))))"
proof -
  obtain r w1 where g: "call (kc_Get (ou_clusterConnections env) (nn '''' name)) w = (r, w1)" by fastforce
  have same: "view (w_api w1) = view (w_api w)" "past (w_api w1) = past (w_api w)"
    using g kube_kind.get_frame [OF assms(1)] by (auto simp: call_iff)
  have m: "meta_key (kn_meta (new_clusterConnection (new_meta '''' name))) = nn '''' name" by (simp add: new_clusterConnection_def)
  show ?thesis
  proof (cases r)
    case (Inl e)
    obtain x w2 where x: "createClusterConnection env release out name w1 = (x, w2)" by fastforce
    have "w_api w' = w_api w1 \<or> w_api w' = w_api w2"
      using assms(2) g Inl x unfolding handleOutputClusterConnection_def Let_def
      by (cases x) (auto split: if_splits)
    then have "w_api w' = w_api w2" using assms(3) same by auto
    then obtain c y where c: "PopulateClusterConnection env release (new_clusterConnection (new_meta '''' name)) out = Inr c"
        "kc_Create (ou_clusterConnections env) c (w_api w1) = (y, w_api w')"
      using x assms(3) same unfolding createClusterConnection_def by (auto simp: call_iff split: prod.splits sum.splits)
    have key: "meta_key (kn_meta c) = nn '''' name" using PopulateClusterConnection_meta [OF c(1)] m by simp
    have "k = nn '''' name" using kube_kind.create_frame [OF assms(1) c(2), of k] key assms(3) same by auto
    moreover have "view (w_api w1) (nn '''' name) = None"
      using kube_kind.create_new [OF assms(1) c(2)] key assms(3) same by metis
    ultimately show ?thesis using same by simp
  next
    case (Inr c)
    have rd: "past (w_api w1) (nn '''' name) c" "meta_key (kn_meta c) = nn '''' name"
      using kube_kind.get_world [OF assms(1)] g Inr by blast+
    have p: "ks_ParentRelease (kn_Spec c) = None \<or> ks_ParentRelease (kn_Spec c) = Some (parentRef release)"
      and "\<exists>c' y. PopulateClusterConnection env release c out = Inr c' \<and> kc_Patch (ou_clusterConnections env) GuardUID c c' (w_api w1) = (y, w_api w')"
      using assms(2,3) g Inr same unfolding handleOutputClusterConnection_def patchClusterConnection_def Let_def
      by (auto simp: call_iff foreignParent_def split: prod.splits sum.splits if_splits option.splits)
    then obtain c' y where c': "PopulateClusterConnection env release c out = Inr c'"
        "kc_Patch (ou_clusterConnections env) GuardUID c c' (w_api w1) = (y, w_api w')" by blast
    have meta: "kn_meta c' = kn_meta c" using PopulateClusterConnection_meta [OF c'(1)] by simp
    have "k = nn '''' name" using kube_kind.patch_frame [OF assms(1) c'(2), of k] meta rd(2) assms(3) same by auto
    moreover obtain held where "view (w_api w1) (nn '''' name) = Some held" "om_UID (kn_meta held) = om_UID (kn_meta c)"
      using kube_kind.patch_uid [OF assms(1) c'(2)] meta rd(2) assms(3) same by fastforce
    ultimately show ?thesis using p rd(1) same by auto
  qed
qed

section \<open>A server for examples\<close>

type_synonym out_server = "Connection kserver \<times> ClusterConnection kserver"

definition sample_out_env :: "(out_server, gmap) out_env" where
  "sample_out_env =
     \<lparr>ou_connections = part_client fst (\<lambda>s t. (s, snd t)) (kv_client (\<lambda>m c. c\<lparr>cn_meta := m\<rparr>) cn_meta),
      ou_clusterConnections = part_client snd (\<lambda>s t. (fst t, s)) (kv_client (\<lambda>m c. c\<lparr>kn_meta := m\<rparr>) kn_meta),
      ou_ListConnections = (\<lambda>s. (Ok (map snd (kv_held (fst s))), s)), ou_ListClusterConnections = (\<lambda>s. (Ok (map snd (kv_held (snd s))), s)),
      ou_sections = [], ou_marshal = (\<lambda>_. Ok ''values''), ou_strict = sample_decode, ou_js = sample_js, ou_descr = (\<lambda>_. ''''),
      ou_reader = sample_contracts, ou_gate = True\<rparr>"

lemma sample_out_kinds:
  "kube_kind (ou_clusterConnections sample_out_env) (\<lambda>t. kv_view kn_meta (snd t)) (\<lambda>t. kv_past kn_meta (snd t)) kn_meta"
  "kube_delete (ou_clusterConnections sample_out_env) (\<lambda>t. kv_view kn_meta (snd t)) (\<lambda>t. kv_past kn_meta (snd t)) kn_meta"
  by (simp_all add: sample_out_env_def part_kube_kind part_kube_delete kv.kube_kind_axioms kv.kube_delete_axioms)

definition out_world :: "Connection list \<Rightarrow> ClusterConnection list \<Rightarrow> out_server world" where
  "out_world cs ks = \<lparr>w_api = (\<lparr>kv_held = map (\<lambda>c. (meta_key (cn_meta c), c)) cs, kv_cache = [], kv_faults = []\<rparr>,
       \<lparr>kv_held = map (\<lambda>c. (meta_key (kn_meta c), c)) ks, kv_cache = [], kv_faults = []\<rparr>), w_events = []\<rparr>"

definition no_outputs :: out_state where
  "no_outputs = \<lparr>op_byName = [], op_connections = [], op_clusterConnections = []\<rparr>"

definition child_of :: "string \<Rightarrow> ClusterConnection" where
  "child_of parent = (let c = new_clusterConnection ((new_meta '''' ''kcd-n-r-o'')\<lparr>om_UID := ''k1''\<rparr>)
     in c\<lparr>kn_Spec := (kn_Spec c)\<lparr>ks_ParentRelease := Some \<lparr>pf_Name = parent, pf_Namespace = ''n''\<rparr>\<rparr>\<rparr>)"

theorem clusterConnections_of_others_untouched_witness:
  "kv_view kn_meta (snd (w_api (snd (snd (handleOutputClusterConnection sample_out_env owner_release ''kcd-n-r-o'' (sample_output ''o'')
     (no_outputs, out_world [] [child_of ''other'']))))))
     (nn '''' ''kcd-n-r-o'') = Some (child_of ''other'')"
proof -
  let ?w = "out_world [] [child_of ''other'']"
  let ?k = "nn '''' ''kcd-n-r-o''"
  obtain res st w' where h: "handleOutputClusterConnection sample_out_env owner_release ''kcd-n-r-o'' (sample_output ''o'') (no_outputs, ?w) = (res, st, w')"
    by (cases "handleOutputClusterConnection sample_out_env owner_release ''kcd-n-r-o'' (sample_output ''o'') (no_outputs, ?w)")
  have v: "kv_view kn_meta (snd (w_api ?w)) ?k = Some (child_of ''other'')" by code_simp
  have past: "c = child_of ''other''" if "kv_past kn_meta (snd (w_api ?w)) ?k c" for c
    using that v unfolding kv_past_def kv_view_def by (auto simp: out_world_def kv_at_def)
  have "ks_ParentRelease (kn_Spec (child_of ''other'')) \<noteq> None" "ks_ParentRelease (kn_Spec (child_of ''other'')) \<noteq> Some (parentRef owner_release)"
    by code_simp+
  then have "kv_view kn_meta (snd (w_api w')) ?k = kv_view kn_meta (snd (w_api ?w)) ?k"
    using clusterConnections_of_others_untouched [OF sample_out_kinds(1) h, of ?k] v past by force
  then show ?thesis using h v by simp
qed

section \<open>Connections of others\<close>

text \<open>
  A Connection has no such guard. Two Releases of a namespace can give one name to their outputs, and the Connection of another owner is overwritten:
  the output \<open>c\<close> of the Release \<open>a-b\<close> and the output \<open>b-c\<close> of the Release \<open>a\<close> are the same Connection, which each reconciliation rewrites.
\<close>

lemma connection_names_collide: "BuildConnectionName ''a-b'' ''c'' = BuildConnectionName ''a'' ''b-c''"
  by (simp add: BuildConnectionName_def)

definition controlled_connection :: "string \<Rightarrow> string \<Rightarrow> string \<Rightarrow> Connection" where
  "controlled_connection name kind owner =
     new_connection ((new_meta ''n'' name)\<lparr>om_OwnerReferences := [\<lparr>or_APIVersion = ''v1'', or_Kind = kind, or_Name = owner, or_UID = ''u2'', or_Controller = True\<rparr>]\<rparr>)"

lemma connection_of_other_overwritten:
  "map_option (\<lambda>c. (ns_Values (cn_Spec c), om_OwnerReferences (cn_meta c)))
     (kv_view cn_meta (fst (w_api (snd (snd (handleOutputConnection sample_out_env owner_release ''kcd-r-o'' (sample_output ''o'')
        (no_outputs, out_world [controlled_connection ''kcd-r-o'' ''Release'' ''other''] [])))))) (nn ''n'' ''kcd-r-o''))
   = Some (Some ''values'', om_OwnerReferences (cn_meta (controlled_connection ''kcd-r-o'' ''Release'' ''other'')))"
  by code_simp

text \<open>
  The index of the orphans reads the name of the controller only: a Connection that an object of another kind controls, of the same
  name as the Release, is deleted as an orphan of the Release.
\<close>

lemma orphan_of_another_kind:
  "fst (FindOutputConnectionsFromRelease sample_out_env (nn ''n'' ''r'') (out_world [controlled_connection ''mine'' ''Database'' ''r''] []))
     = Ok [controlled_connection ''mine'' ''Database'' ''r'']"
  "kv_view cn_meta (fst (w_api (deleteOrphans (ou_connections sample_out_env) (\<lambda>c. om_Name (cn_meta c)) [] [controlled_connection ''mine'' ''Database'' ''r'']
     (out_world [controlled_connection ''mine'' ''Database'' ''r''] [])))) (nn ''n'' ''mine'') = None"
  by code_simp+

end
