(* ===== verification/Conditions.thy ===== *)
theory Conditions
  imports Children
begin

text \<open>
  The conditions of a package (\<open>release_conditions.go\<close>, \<open>condition_limits.go\<close>): a Secret or a ConfigMap of the target namespace must exist and
  satisfy an optional CEL expression, within limits. The interpreter of CEL is the parameter \<open>cel\<close>. The state of the Go contexts, which changes with time,
  is given for each place where the code looks at it.
\<close>

section \<open>Limits\<close>

record ConditionLimits =
  li_CostLimit :: int
  li_Timeout :: Duration

definition DefaultConditionLimits :: ConditionLimits where
  "DefaultConditionLimits = \<lparr>li_CostLimit = 1000000, li_Timeout = 1000000000\<rparr>"

definition limits_Validate :: "ConditionLimits \<Rightarrow> (string, unit) result" where
  "limits_Validate l =
     (if li_CostLimit l < 0 then Err ''conditionCelCostLimit must not be negative''
      else if li_Timeout l < 0 then Err ''conditionCelTimeout must not be negative'' else Ok ())"

section \<open>The interpreter of CEL and the contexts\<close>

datatype ctx_err = Canceled | DeadlineExceeded

text \<open>The errors of an evaluation, by what \<open>errors.As\<close> and \<open>errors.Is\<close> find in them.\<close>

datatype eval_err = CostLimitExceeded | EvalCancelled | Interrupted | EvalContextCanceled | OtherEval

record ('env, 'ast, 'prog) cel =
  ce_NewEnv :: "string list \<Rightarrow> 'env option"
  ce_Parse :: "'env \<Rightarrow> string \<Rightarrow> 'ast option"
  ce_Check :: "'env \<Rightarrow> 'ast \<Rightarrow> 'ast option"
  ce_Program :: "'env \<Rightarrow> 'ast \<Rightarrow> int option \<Rightarrow> 'prog option"
  ce_Eval :: "'prog \<Rightarrow> Duration option \<Rightarrow> gmap \<Rightarrow> (eval_err, gval) result"

text \<open>\<open>ctx.Err()\<close> before the read, after it, and of both contexts before and after the evaluation.\<close>

record ctx_times =
  cx_start :: "ctx_err option"
  cx_read :: "ctx_err option"
  cx_before :: "ctx_err option \<times> ctx_err option"
  cx_after :: "ctx_err option \<times> ctx_err option"

definition conditionEvaluationError :: "ctx_err option \<Rightarrow> ctx_err option \<Rightarrow> eval_err option \<Rightarrow> ReconcileError option" where
  "conditionEvaluationError ctxErr evalCtxErr evalErr =
     (if ctxErr = Some Canceled then Some (NewReconcileError ''condition evaluation canceled'' False '''')
      else if evalCtxErr = Some DeadlineExceeded then Some (NewReconcileError ''condition CEL evaluation deadline exceeded'' True ''ConditionError'')
      else if evalErr = Some CostLimitExceeded then Some (NewReconcileError ''condition CEL cost limit exceeded'' True ''ConditionError'')
      else if evalErr \<in> {Some EvalCancelled, Some Interrupted, Some EvalContextCanceled} \<or> evalCtxErr = Some Canceled
      then Some (NewReconcileError ''condition evaluation canceled'' False '''')
      else None)"

section \<open>Checking a condition\<close>

definition conditionRef :: "ConditionRendered \<Rightarrow> string" where
  "conditionRef c =
     (let kind = (if co_Group c \<noteq> '''' then co_Kind c @ ''.'' @ co_Group c else co_Kind c)
      in if co_Namespace c \<noteq> '''' then kind @ '' '' @ squote (co_Namespace c @ ''/'' @ co_Name c)
         else kind @ '' '' @ squote (co_Name c))"

definition conditionWithheld :: string where
  "conditionWithheld = ''message withheld, as it can quote the condition or the object''"

text \<open>The texts of the outcomes.\<close>

definition envText :: string where
  "envText = ''unable to build the cel environment, '' @ conditionWithheld"

definition invalidText :: string where
  "invalidText = ''the cel expression is not valid, '' @ conditionWithheld"

definition programText :: string where
  "programText = ''unable to build a program from the cel expression, '' @ conditionWithheld"

definition notBoolText :: string where
  "notBoolText = ''the cel expression does not evaluate to a boolean''"

definition uncheckedText :: string where
  "uncheckedText = '': unable to check the cel expression against this object, '' @ conditionWithheld"

definition unevaluatedText :: string where
  "unevaluatedText = '': unable to evaluate the cel expression on this object, '' @ conditionWithheld"

definition falseText :: string where
  "falseText = '': the cel expression is false''"

definition missingText :: string where
  "missingText = '': object does not exists''"

definition policyText :: string where
  "policyText = ''only core Secret and ConfigMap conditions in the Release target namespace are allowed''"

definition forbiddenText :: string where
  "forbiddenText = ''condition read forbidden: grant get access to the condition kind in the Release target namespace''"

text \<open>The outcome: an error, or whether the condition holds with the message of the wait.\<close>

type_synonym checked = "(ReconcileError, bool \<times> string) result"

definition evalConditionCel ::
  "('env, 'ast, 'prog) cel \<Rightarrow> ctx_times \<Rightarrow> ConditionRendered \<Rightarrow> gmap \<Rightarrow> ConditionLimits \<Rightarrow> checked" where
  "evalConditionCel cel tm c ob limits =
     (case ce_NewEnv cel (keys ob) of
        None \<Rightarrow> Err (NewReconcileError envText False ''ConditionError'')
      | Some env \<Rightarrow>
     (case ce_Parse cel env (co_Cel c) of
        None \<Rightarrow> Err (NewReconcileError invalidText True ''ConditionError'')
      | Some ast \<Rightarrow>
     (case ce_Check cel env ast of
        None \<Rightarrow> Ok (False, conditionRef c @ uncheckedText)
      | Some ast' \<Rightarrow>
     (case ce_Program cel env ast' (if li_CostLimit limits > 0 then Some (li_CostLimit limits) else None) of
        None \<Rightarrow> Err (NewReconcileError programText True ''ConditionError'')
      | Some program \<Rightarrow>
     (case conditionEvaluationError (fst (cx_before tm)) (snd (cx_before tm)) None of
        Some e \<Rightarrow> Err e
      | None \<Rightarrow>
          let r = ce_Eval cel program (if li_Timeout limits > 0 then Some (li_Timeout limits) else None) ob
          in (case conditionEvaluationError (fst (cx_after tm)) (snd (cx_after tm)) (case r of Inl e \<Rightarrow> Some e | Inr _ \<Rightarrow> None) of
                Some e \<Rightarrow> Err e
              | None \<Rightarrow>
                  (case r of
                     Inl _ \<Rightarrow> Ok (False, conditionRef c @ unevaluatedText)
                   | Inr v \<Rightarrow>
                       (case asBool v of
                          None \<Rightarrow> Err (NewReconcileError notBoolText True ''ConditionError'')
                        | Some False \<Rightarrow> Ok (False, conditionRef c @ falseText)
                        | Some True \<Rightarrow> Ok (True, ''''))))))))) "

definition IsForbidden :: "api_err \<Rightarrow> bool" where
  "IsForbidden e = (case e of Request _ \<Rightarrow> False | Status s \<Rightarrow> as_Reason s = ''Forbidden'')"

definition CheckConditionWithLimits ::
  "('env, 'ast, 'prog) cel \<Rightarrow> (string \<times> string list) list \<Rightarrow> ctx_times \<Rightarrow> (string \<Rightarrow> NamespacedName \<Rightarrow> (api_err, gmap) result)
     \<Rightarrow> ConditionRendered \<Rightarrow> ConditionLimits \<Rightarrow> checked" where
  "CheckConditionWithLimits cel sections tm get c limits =
     rbind (wrap_err (\<lambda>e. NewReconcileError e True ''ConditionError'') (limits_Validate limits)) (\<lambda>_.
     (case CoreKind (Some c) of
        None \<Rightarrow> Err (NewReconcileError policyText True ''ConditionError'')
      | Some kind \<Rightarrow>
     (case conditionEvaluationError (cx_start tm) (cx_start tm) None of
        Some e \<Rightarrow> Err e
      | None \<Rightarrow>
          let got = get kind (nn (co_Namespace c) (co_Name c))
          in (case conditionEvaluationError (cx_read tm) (cx_read tm) None of
                Some e \<Rightarrow> Err e
              | None \<Rightarrow>
                  (case got of
                     Inl e \<Rightarrow>
                       if IsNotFound e then Ok (False, conditionRef c @ missingText)
                       else if IsForbidden e
                       then Err (NewReconcileError forbiddenText False ''ConditionError'')
                       else Err (NewReconcileError (''unable to fetch the object: '' @ apiError sections e) False ''ConditionError'')
                   | Inr ob \<Rightarrow> if TrimSpace (co_Cel c) = '''' then Ok (True, '''') else evalConditionCel cel tm c ob limits)))))"

definition CheckCondition where
  "CheckCondition cel sections tm get c = CheckConditionWithLimits cel sections tm get c DefaultConditionLimits"

section \<open>Properties\<close>

text \<open>What must hold for the expression of a condition, on the object that was read.\<close>

definition cel_true :: "('env, 'ast, 'prog) cel \<Rightarrow> ctx_times \<Rightarrow> ConditionRendered \<Rightarrow> ConditionLimits \<Rightarrow> gmap \<Rightarrow> bool" where
  "cel_true cel tm c limits ob \<longleftrightarrow>
     (\<exists>env ast ast' program. ce_NewEnv cel (keys ob) = Some env \<and> ce_Parse cel env (co_Cel c) = Some ast \<and> ce_Check cel env ast = Some ast'
        \<and> ce_Program cel env ast' (if li_CostLimit limits > 0 then Some (li_CostLimit limits) else None) = Some program
        \<and> ce_Eval cel program (if li_Timeout limits > 0 then Some (li_Timeout limits) else None) ob = Ok (GBool True)
        \<and> fst (cx_before tm) \<noteq> Some Canceled \<and> snd (cx_before tm) = None \<and> fst (cx_after tm) \<noteq> Some Canceled \<and> snd (cx_after tm) = None)"

text \<open>The texts that a message can hold besides the reference of the object.\<close>

definition wait_texts :: "string list" where
  "wait_texts = [missingText, falseText,
     uncheckedText,
     unevaluatedText]"

definition error_texts :: "string list" where
  "error_texts = [''conditionCelCostLimit must not be negative'', ''conditionCelTimeout must not be negative'',
     policyText, ''condition evaluation canceled'',
     ''condition CEL evaluation deadline exceeded'', ''condition CEL cost limit exceeded'',
     forbiddenText,
     envText, invalidText,
     programText, notBoolText]"

lemma evaluationError_None:
  "conditionEvaluationError a b None = None \<longleftrightarrow> a \<noteq> Some Canceled \<and> b = None"
  by (cases b) (auto simp: conditionEvaluationError_def, metis ctx_err.exhaust)

lemma evaluationError_Some: "conditionEvaluationError a b None = Some e \<Longrightarrow> a = Some Canceled \<or> b \<noteq> None"
  using evaluationError_None [of a b] by auto

lemma texts_mem:
  "policyText \<in> set error_texts"
  "forbiddenText \<in> set error_texts"
  "envText \<in> set error_texts"
  "invalidText \<in> set error_texts"
  "programText \<in> set error_texts"
  "notBoolText \<in> set error_texts"
  "missingText \<in> set wait_texts" "falseText \<in> set wait_texts"
  "uncheckedText \<in> set wait_texts"
  "unevaluatedText \<in> set wait_texts"
  by (simp_all only: error_texts_def wait_texts_def list.set insert_iff simp_thms)

lemma evaluationError_texts: "conditionEvaluationError a b r = Some e \<Longrightarrow> re_error e \<in> set error_texts"
  by (auto simp: conditionEvaluationError_def NewReconcileError_def error_texts_def split: if_splits)

lemma evalConditionCel_true: "evalConditionCel cel tm c ob limits = Ok (True, m) \<longleftrightarrow> m = [] \<and> cel_true cel tm c limits ob"
proof -
  have opt: "(case x of None \<Rightarrow> Err e | Some y \<Rightarrow> f y) = Ok r \<longleftrightarrow> (\<exists>y. x = Some y \<and> f y = Ok r)" for x :: "'x option" and e :: ReconcileError and f r
    by (cases x) auto
  have chk: "(case ce_Check cel env ast of None \<Rightarrow> Ok (False, t) | Some y \<Rightarrow> f y) = Ok (True, m) \<longleftrightarrow> (\<exists>y. ce_Check cel env ast = Some y \<and> f y = Ok (True, m))"
    for env ast t and f :: "_ \<Rightarrow> checked" by (cases "ce_Check cel env ast") auto
  have stop: "(case conditionEvaluationError a b r of None \<Rightarrow> q | Some e \<Rightarrow> Err e) = Ok s \<longleftrightarrow> conditionEvaluationError a b r = None \<and> q = Ok s"
    for a b r q and s :: "bool \<times> string" by (cases "conditionEvaluationError a b r") auto
  have eval: "(case r of Inl _ \<Rightarrow> Ok (False, t) | Inr v \<Rightarrow> (case asBool v of None \<Rightarrow> Err e | Some True \<Rightarrow> Ok (True, '''') | Some False \<Rightarrow> Ok (False, u)))
      = Ok (True, m) \<longleftrightarrow> r = Inr (GBool True) \<and> m = ''''" for r :: "(eval_err, gval) result" and t e u
    by (auto split: sum.splits option.splits bool.splits)
  show ?thesis
    unfolding evalConditionCel_def cel_true_def Let_def by (auto simp: opt chk stop eval evaluationError_None)
qed

lemma evalConditionCel_texts:
  shows "evalConditionCel cel tm c ob limits = Ok (False, m) \<Longrightarrow> \<exists>t\<in>set wait_texts. m = conditionRef c @ t"
    and "evalConditionCel cel tm c ob limits = Err e \<Longrightarrow> re_error e \<in> set error_texts"
  using texts_mem evaluationError_texts unfolding evalConditionCel_def Let_def
  by (auto simp: NewReconcileError_def split: option.splits sum.splits bool.splits)


text \<open>An interpreter of CEL that knows one expression, and a condition of it.\<close>

definition sample_cel :: "(string list, string, string) cel" where
  "sample_cel = \<lparr>ce_NewEnv = Some, ce_Parse = (\<lambda>_ t. if t = '''' then None else Some t), ce_Check = (\<lambda>env t. if t \<in> set env then Some t else None),
     ce_Program = (\<lambda>_ t _. Some t), ce_Eval = (\<lambda>t _ ob. case map_of ob t of None \<Rightarrow> Err OtherEval | Some v \<Rightarrow> Ok v)\<rparr>"

definition sample_times :: ctx_times where
  "sample_times = \<lparr>cx_start = None, cx_read = None, cx_before = (None, None), cx_after = (None, None)\<rparr>"

definition x_condition :: ConditionRendered where
  "x_condition = \<lparr>co_Group = '''', co_Kind = ''secret'', co_Name = ''ready'', co_Namespace = ''apps'', co_Cel = ''x''\<rparr>"

lemma x_condition_facts:
  "CoreKind (Some x_condition) = Some ''Secret''" "TrimSpace ''x'' = ''x''" "co_Cel x_condition = ''x''"
  subgoal by (simp add: CoreKind_def x_condition_def ascii_lower_def)
  subgoal by code_simp
  subgoal by (simp add: x_condition_def)
  done


end
