(* ===== verification/Parameters.thy ===== *)
theory Parameters
  imports ParamRefs
begin

text \<open>
  The parameters of a Release: their text with the template actions as written (\<open>release_parameters.go\<close>), the model of the templates and the
  rendering of the parameters (\<open>HandleParameters\<close> and \<open>BuildModel\<close> of \<open>release_helpers.go\<close>). Texts are bytes in UTF-8. The Unicode table of
  \<open>unicode.IsGraphic\<close> is the parameter \<open>graphic\<close>.
\<close>

section \<open>Runes\<close>

abbreviation byte :: "char \<Rightarrow> nat" where
  "byte c \<equiv> of_char c"

definition RuneError :: nat where
  "RuneError = 65533"

definition between :: "nat \<Rightarrow> nat \<Rightarrow> nat \<Rightarrow> bool" where
  "between lo hi n \<longleftrightarrow> lo \<le> n \<and> n \<le> hi"

text \<open>\<open>utf8.DecodeRuneInString\<close>: the first rune and its size, \<open>(RuneError, 1)\<close> where the text is not valid UTF-8.\<close>

definition DecodeRuneInString :: "string \<Rightarrow> nat \<times> nat" where
  "DecodeRuneInString s =
     (let b = (\<lambda>i. if i < length s then byte (s ! i) else 0); cont = between 128 191
      in if s = [] then (RuneError, 0)
         else if b 0 < 128 then (b 0, 1)
         else if between 194 223 (b 0) \<and> cont (b 1) then ((b 0 - 192) * 64 + (b 1 - 128), 2)
         else if between 224 239 (b 0) \<and> between (if b 0 = 224 then 160 else 128) (if b 0 = 237 then 159 else 191) (b 1) \<and> cont (b 2)
         then ((b 0 - 224) * 4096 + (b 1 - 128) * 64 + (b 2 - 128), 3)
         else if between 240 244 (b 0) \<and> between (if b 0 = 240 then 144 else 128) (if b 0 = 244 then 143 else 191) (b 1) \<and> cont (b 2) \<and> cont (b 3)
         then ((b 0 - 240) * 262144 + (b 1 - 128) * 4096 + (b 2 - 128) * 64 + (b 3 - 128), 4)
         else (RuneError, 1))"

definition IsSurrogate :: "nat \<Rightarrow> bool" where
  "IsSurrogate r \<longleftrightarrow> between 55296 57343 r"

text \<open>The conversion \<open>string(r)\<close> of a rune.\<close>

definition rune_string :: "nat \<Rightarrow> string" where
  "rune_string r0 =
     (let r = (if IsSurrogate r0 \<or> r0 > 1114111 then RuneError else r0)
      in map char_of
           (if r < 128 then [r]
            else if r < 2048 then [192 + r div 64, 128 + r mod 64]
            else if r < 65536 then [224 + r div 4096, 128 + r div 64 mod 64, 128 + r mod 64]
            else [240 + r div 262144, 128 + r div 4096 mod 64, 128 + r div 64 mod 64, 128 + r mod 64]))"

text \<open>\<open>utf16.DecodeRune\<close>.\<close>

definition utf16_DecodeRune :: "nat \<Rightarrow> nat \<Rightarrow> nat" where
  "utf16_DecodeRune r1 r2 =
     (if between 55296 56319 r1 \<and> between 56320 57343 r2 then (r1 - 55296) * 1024 + (r2 - 56320) + 65536 else RuneError)"

section \<open>The characters of a JSON string\<close>

record jsonUnit =
  ju_char :: string
  ju_raw :: string
  ju_invalid :: bool

definition hex_digit :: "char \<Rightarrow> nat option" where
  "hex_digit c =
     (if between 48 57 (byte c) then Some (byte c - 48)
      else if between 97 102 (byte c) then Some (byte c - 87)
      else if between 65 70 (byte c) then Some (byte c - 55) else None)"

text \<open>The functions on \<open>text\<close> and an index take the text from that index on.\<close>

definition jsonHex :: "string \<Rightarrow> nat option" where
  "jsonHex s =
     (if length s < 6 \<or> s ! 0 \<noteq> CHR 0x5C \<or> s ! 1 \<noteq> CHR ''u'' then None
      else foldl (\<lambda>acc c. case (acc, hex_digit c) of (Some n, Some d) \<Rightarrow> Some (n * 16 + d) | _ \<Rightarrow> None) (Some 0) (take 4 (drop 2 s)))"

definition simpleEscapes :: "(char \<times> string) list" where
  "simpleEscapes = [(CHR 0x22, [CHR 0x22]), (CHR 0x5C, [CHR 0x5C]), (CHR ''/'', ''/''), (CHR ''b'', [CHR 0x08]), (CHR ''f'', [CHR 0x0C]),
     (CHR ''n'', [CHR 0x0A]), (CHR ''r'', [CHR 0x0D]), (CHR ''t'', [CHR 0x09])]"

definition jsonEscape :: "string \<Rightarrow> (string \<times> nat \<times> bool) option" where
  "jsonEscape s =
     (if length s < 2 then None
      else (case map_of simpleEscapes (s ! 1) of
              Some ch \<Rightarrow> Some (ch, 2, False)
            | None \<Rightarrow>
                if s ! 1 = CHR ''u''
                then (case jsonHex s of
                        None \<Rightarrow> None
                      | Some r \<Rightarrow>
                          if \<not> IsSurrogate r then Some (rune_string r, 6, False)
                          else (case jsonHex (drop 6 s) of
                                  None \<Rightarrow> Some (rune_string RuneError, 6, True)
                                | Some low \<Rightarrow>
                                    if utf16_DecodeRune r low \<noteq> RuneError then Some (rune_string (utf16_DecodeRune r low), 12, False)
                                    else Some (rune_string RuneError, 6, True)))
                else None))"

lemma jsonEscape_size: "jsonEscape s = Some (c, n, bad) \<Longrightarrow> 2 \<le> n \<and> s \<noteq> []"
  by (auto simp: jsonEscape_def Let_def split: if_splits option.splits)

lemma DecodeRuneInString_size:
  assumes "s \<noteq> []"
  shows "0 < snd (DecodeRuneInString s)"
proof -
  have pos_if: "0 < a \<Longrightarrow> 0 < b \<Longrightarrow> 0 < (if c then a else b)" for a b :: nat and c by simp
  show ?thesis
    unfolding DecodeRuneInString_def Let_def if_not_P [OF assms] if_distrib [of snd] snd_conv by (intro pos_if zero_less_numeral zero_less_one)
qed

text \<open>From after the opening quote: the units, and the text after the closing quote.\<close>

function jsonStringUnits :: "string \<Rightarrow> (jsonUnit list \<times> string) option" where
  "jsonStringUnits s =
     (case s of
        [] \<Rightarrow> None
      | c # cs \<Rightarrow>
          if c = CHR 0x22 then Some ([], cs)
          else if c = CHR 0x5C
          then (case jsonEscape s of
                  None \<Rightarrow> None
                | Some (ch, n, bad) \<Rightarrow>
                    map_option (\<lambda>(us, rest). (\<lparr>ju_char = ch, ju_raw = take n s, ju_invalid = bad\<rparr> # us, rest)) (jsonStringUnits (drop n s)))
          else let size = snd (DecodeRuneInString s)
               in map_option (\<lambda>(us, rest). (\<lparr>ju_char = take size s, ju_raw = take size s, ju_invalid = False\<rparr> # us, rest))
                    (jsonStringUnits (drop size s)))"
  by pat_completeness auto

termination
proof (relation "measure length", goal_cases)
  case (2 s c cs ch y n bad)
  then show ?case using jsonEscape_size [of s] by (cases s) auto
next
  case (3 s c cs size)
  then show ?case using DecodeRuneInString_size [of s] by (cases s) auto
qed simp

declare jsonStringUnits.simps [simp del]

section \<open>Actions as written\<close>

datatype action_state = actionCode | actionQuoted | actionChar | actionRaw | actionComment

definition decodable :: "(nat \<Rightarrow> bool) \<Rightarrow> jsonUnit \<Rightarrow> action_state \<Rightarrow> bool" where
  "decodable graphic u state =
     (case DecodeRuneInString (ju_char u) of (r, n) \<Rightarrow>
        if ju_invalid u \<or> (r = RuneError \<and> n \<le> 1) then False
        else if r = 92 then False
        else if r \<in> {9, 10, 13} then state = actionCode
        else graphic r)"

definition codeState :: "string \<Rightarrow> action_state" where
  "codeState c =
     (if c = [CHR 0x22] then actionQuoted else if c = [CHR 0x27] then actionChar else if c = [CHR 0x60] then actionRaw else actionCode)"

text \<open>\<open>char(i)\<close> where the units from \<open>i\<close> on are given, empty at the end.\<close>

definition charAt :: "jsonUnit list \<Rightarrow> string" where
  "charAt us = (case us of [] \<Rightarrow> '''' | u # _ \<Rightarrow> ju_char u)"

definition twoChars :: "string \<Rightarrow> string \<Rightarrow> jsonUnit list \<Rightarrow> bool" where
  "twoChars a b us \<longleftrightarrow> charAt us = a \<and> charAt (drop 1 us) = b"

definition stringEnds :: "jsonUnit \<Rightarrow> action_state \<Rightarrow> bool" where
  "stringEnds u state \<longleftrightarrow> (ju_char u = [CHR 0x22] \<and> state = actionQuoted) \<or> (ju_char u = [CHR 0x27] \<and> state = actionChar)
     \<or> (ju_char u = [CHR 0x60] \<and> state = actionRaw)"

text \<open>The loop of \<open>writtenAction\<close>: the text it writes, and the units after the action. \<open>None\<close>: it returns false.\<close>

function actionLoop :: "(nat \<Rightarrow> bool) \<Rightarrow> action_state \<Rightarrow> jsonUnit list \<Rightarrow> (string \<times> jsonUnit list) option" where
  "actionLoop graphic state us =
     (case us of
        [] \<Rightarrow> None
      | u # rest \<Rightarrow>
          if state = actionComment
          then if twoChars ''*'' ''/'' us
               then map_option (apfst ((@) ''*/'')) (actionLoop graphic actionCode (tl rest))
               else map_option (apfst ((@) (ju_raw u))) (actionLoop graphic actionComment rest)
          else if \<not> decodable graphic u state then None
          else if state \<noteq> actionCode
          then map_option (apfst ((@) (ju_char u))) (actionLoop graphic (if stringEnds u state then actionCode else state) rest)
          else if twoChars ''}'' ''}'' us then Some (''}}'', tl rest)
          else map_option (apfst ((@) (ju_char u))) (actionLoop graphic (codeState (ju_char u)) rest))"
  by pat_completeness auto

termination by (relation "measure (\<lambda>(_, _, us). length us)") auto

declare actionLoop.simps [simp del]

definition blanks :: "string list" where
  "blanks = ['' '', [CHR 0x09], [CHR 0x0D], [CHR 0x0A]]"

text \<open>From after the two braces.\<close>

definition writtenAction :: "(nat \<Rightarrow> bool) \<Rightarrow> jsonUnit list \<Rightarrow> (string \<times> jsonUnit list) option" where
  "writtenAction graphic us =
     (let trim = (charAt us = ''-'' \<and> charAt (drop 1 us) \<in> set blanks)
      in if trim \<and> \<not> decodable graphic (us ! 1) actionCode then None
         else let marker = (if trim then charAt us @ charAt (drop 1 us) else '''');
                  us1 = (if trim then drop 2 us else us);
                  comment = twoChars ''/'' ''*'' us1
              in map_option (apfst ((@) (''{{'' @ marker @ (if comment then ''/*'' else ''''))))
                   (actionLoop graphic (if comment then actionComment else actionCode) (if comment then drop 2 us1 else us1)))"

lemma actionLoop_shorter: "actionLoop graphic state us = Some (out, rest) \<Longrightarrow> length rest \<le> length us"
proof (induction graphic state us arbitrary: out rest rule: actionLoop.induct)
  case (1 graphic state us)
  show ?case
  proof (cases us)
    case Nil
    then show ?thesis using "1.prems" by (simp add: actionLoop.simps)
  next
    case (Cons u rest)
    have "length (tl rest) \<le> length us" using Cons by simp
    then show ?thesis
      using "1.prems" "1.IH" [OF Cons] Cons by (subst (asm) actionLoop.simps) (fastforce simp del: append_Cons append_Nil split: if_splits)
  qed
qed

lemma writtenAction_shorter: "writtenAction graphic us = Some (out, rest) \<Longrightarrow> length rest \<le> length us"
  using actionLoop_shorter unfolding writtenAction_def Let_def
  by (fastforce split: if_splits)

function writtenActions :: "(nat \<Rightarrow> bool) \<Rightarrow> jsonUnit list \<Rightarrow> string option" where
  "writtenActions graphic us =
     (case us of
        [] \<Rightarrow> Some ''''
      | u # rest \<Rightarrow>
          if ju_raw u = ''{'' \<and> rest \<noteq> [] \<and> ju_raw (hd rest) = ''{''
          then (case writtenAction graphic (tl rest) of
                  None \<Rightarrow> None
                | Some (action, us') \<Rightarrow> map_option ((@) action) (writtenActions graphic us'))
          else map_option ((@) (ju_raw u)) (writtenActions graphic rest))"
  by pat_completeness auto

termination
proof (relation "measure (\<lambda>(_, us). length us)", goal_cases)
  case (2 graphic us u rest y action us')
  then show ?case using writtenAction_shorter [of graphic "tl rest" action us'] by (cases rest) auto
qed auto

declare writtenActions.simps [simp del]

text \<open>The loop over the text: \<open>None\<close> when it returns the text unchanged.\<close>

lemma jsonStringUnits_shorter: "jsonStringUnits s = Some (us, rest) \<Longrightarrow> length rest < length s"
proof (induction s arbitrary: us rest rule: jsonStringUnits.induct)
  case (1 s)
  show ?case
  proof (cases s)
    case Nil
    then show ?thesis using "1.prems" by (simp add: jsonStringUnits.simps)
  next
    case (Cons c cs)
    have "length (drop k s) \<le> length s" for k by simp
    then show ?thesis
      using "1.prems" "1.IH" [OF Cons] Cons
      by (subst (asm) jsonStringUnits.simps) (fastforce simp: Let_def split: if_splits option.splits prod.splits)
  qed
qed

function asWritten :: "(nat \<Rightarrow> bool) \<Rightarrow> string \<Rightarrow> string option" where
  "asWritten graphic s =
     (case s of
        [] \<Rightarrow> Some ''''
      | c # cs \<Rightarrow>
          if c \<noteq> CHR 0x22 then map_option ((#) c) (asWritten graphic cs)
          else (case jsonStringUnits cs of
                  None \<Rightarrow> None
                | Some (units, rest) \<Rightarrow>
                    (case writtenActions graphic units of
                       None \<Rightarrow> None
                     | Some written \<Rightarrow> map_option (\<lambda>t. CHR 0x22 # written @ CHR 0x22 # t) (asWritten graphic rest))))"
  by pat_completeness auto

termination
proof (relation "measure (\<lambda>(_, s). length s)", goal_cases)
  case (3 graphic s c cs y units rest)
  then show ?case using jsonStringUnits_shorter [of cs units rest] by (cases s) auto
qed auto

declare asWritten.simps [simp del]

definition actionsAsWritten :: "(nat \<Rightarrow> bool) \<Rightarrow> string \<Rightarrow> string" where
  "actionsAsWritten graphic stored = (case asWritten graphic stored of None \<Rightarrow> stored | Some out \<Rightarrow> out)"

section \<open>What the rewriting changes\<close>

text \<open>
  The rewritten text is the stored one piece by piece: a piece is a stored text with the text that is shown for it, which is the same, or the
  character of the JSON escape that is stored, printable or a blank, or a delimiter of an action.
\<close>

definition escape_of :: "string \<Rightarrow> string \<Rightarrow> bool" where
  "escape_of raw ch \<longleftrightarrow> (\<exists>rest bad. raw \<noteq> [] \<and> hd raw = CHR 0x5C \<and> jsonEscape (raw @ rest) = Some (ch, length raw, bad))"

definition printable :: "(nat \<Rightarrow> bool) \<Rightarrow> string \<Rightarrow> bool" where
  "printable graphic ch \<longleftrightarrow> decodable graphic \<lparr>ju_char = ch, ju_raw = ch, ju_invalid = False\<rparr> actionCode"

definition marks :: "string list" where
  "marks = [''-'', ''/'', ''*'', ''}'']"

definition piece_ok :: "(nat \<Rightarrow> bool) \<Rightarrow> string \<times> string \<Rightarrow> bool" where
  "piece_ok graphic = (\<lambda>(raw, shown). shown = raw \<or> (escape_of raw shown \<and> (printable graphic shown \<or> shown \<in> set marks)))"

definition unit_ok :: "jsonUnit \<Rightarrow> bool" where
  "unit_ok u \<longleftrightarrow> ju_char u = ju_raw u \<or> escape_of (ju_raw u) (ju_char u)"

definition rewritten :: "(nat \<Rightarrow> bool) \<Rightarrow> jsonUnit list \<Rightarrow> jsonUnit list \<Rightarrow> string \<Rightarrow> bool" where
  "rewritten graphic us rest out \<longleftrightarrow>
     (\<exists>vs ps. us = vs @ rest \<and> map fst ps = map ju_raw vs \<and> concat (map snd ps) = out \<and> list_all (piece_ok graphic) ps)"

lemma rewritten_none: "rewritten graphic us us ''''"
  unfolding rewritten_def by (intro exI [of _ "[]"]) simp

lemma rewritten_one:
  assumes "rewritten graphic us rest out" "piece_ok graphic (ju_raw u, shown)"
  shows "rewritten graphic (u # us) rest (shown @ out)"
proof -
  obtain vs ps where "us = vs @ rest" "map fst ps = map ju_raw vs" "concat (map snd ps) = out" "list_all (piece_ok graphic) ps"
    using assms(1) unfolding rewritten_def by blast
  then show ?thesis
    using assms(2) unfolding rewritten_def by (intro exI [of _ "u # vs"] exI [of _ "(ju_raw u, shown) # ps"]) simp
qed

lemma rewritten_trans:
  assumes "rewritten graphic us mid out" "rewritten graphic mid rest out'"
  shows "rewritten graphic us rest (out @ out')"
proof -
  obtain vs ps where 1: "us = vs @ mid" "map fst ps = map ju_raw vs" "concat (map snd ps) = out" "list_all (piece_ok graphic) ps"
    using assms(1) unfolding rewritten_def by blast
  obtain ws qs where 2: "mid = ws @ rest" "map fst qs = map ju_raw ws" "concat (map snd qs) = out'" "list_all (piece_ok graphic) qs"
    using assms(2) unfolding rewritten_def by blast
  show ?thesis
    unfolding rewritten_def by (rule exI [of _ "vs @ ws"], rule exI [of _ "ps @ qs"]) (simp add: 1 2)
qed

lemma piece_char:
  assumes "unit_ok u" "decodable graphic u state \<or> ju_char u \<in> set marks"
  shows "piece_ok graphic (ju_raw u, ju_char u)"
  using assms by (auto simp: piece_ok_def unit_ok_def printable_def decodable_def Let_def split: if_splits prod.splits)

lemma twoChars_split: "twoChars a b us \<Longrightarrow> a \<noteq> '''' \<Longrightarrow> b \<noteq> '''' \<Longrightarrow> \<exists>u v rest. us = u # v # rest \<and> ju_char u = a \<and> ju_char v = b"
  by (cases us; cases "tl us") (auto simp: twoChars_def charAt_def)

lemma rewritten_two:
  assumes "twoChars a b us" "list_all unit_ok us" "a \<in> set marks" "b \<in> set marks"
  shows "rewritten graphic us (drop 2 us) (a @ b)"
proof -
  have "a \<noteq> ''''" "b \<noteq> ''''" using assms(3,4) by (auto simp: marks_def)
  then obtain u v rest where us: "us = u # v # rest" "ju_char u = a" "ju_char v = b" using twoChars_split [OF assms(1)] by blast
  then show ?thesis
    using assms(2-4) rewritten_one [OF rewritten_one [OF rewritten_none [of graphic rest], of v b], of u a] piece_char [of v graphic] piece_char [of u graphic]
    by auto
qed

lemma actionLoop_rewritten:
  "actionLoop graphic state us = Some (out, rest) \<Longrightarrow> list_all unit_ok us \<Longrightarrow> rewritten graphic us rest out"
proof (induction graphic state us arbitrary: out rest rule: actionLoop.induct)
  case (1 graphic state us)
  obtain u vs where us: "us = u # vs" using "1.prems"(1) by (cases us) (simp_all add: actionLoop.simps)
  have ok: "unit_ok u" "list_all unit_ok vs" "list_all unit_ok (tl vs)" using "1.prems"(2) us by (cases vs; simp)+
  have m: "''*'' \<in> set marks" "''/'' \<in> set marks" "''}'' \<in> set marks" by (simp_all add: marks_def)
  have d: "drop 2 us = tl vs" using us by (simp add: drop_Suc)
  consider (cend) out' where "state = actionComment" "twoChars ''*'' ''/'' us" "actionLoop graphic actionCode (tl vs) = Some (out', rest)" "out = ''*/'' @ out'"
    | (craw) out' where "state = actionComment" "\<not> twoChars ''*'' ''/'' us" "actionLoop graphic actionComment vs = Some (out', rest)" "out = ju_raw u @ out'"
    | (str) out' where "state \<noteq> actionComment" "decodable graphic u state" "state \<noteq> actionCode"
        "actionLoop graphic (if stringEnds u state then actionCode else state) vs = Some (out', rest)" "out = ju_char u @ out'"
    | (fin) "state = actionCode" "twoChars ''}'' ''}'' us" "out = ''}}''" "rest = tl vs"
    | (code) out' where "state = actionCode" "decodable graphic u state" "\<not> twoChars ''}'' ''}'' us"
        "actionLoop graphic (codeState (ju_char u)) vs = Some (out', rest)" "out = ju_char u @ out'"
    using "1.prems"(1) us by (subst (asm) actionLoop.simps) (auto simp del: append_Cons append_Nil split: if_split_asm)
  then show ?case
  proof cases
    case cend
    have "rewritten graphic (tl vs) rest out'" using "1.IH"(1) [OF us cend(1,2) cend(3)] ok by blast
    then show ?thesis using rewritten_trans [OF rewritten_two [OF cend(2) "1.prems"(2) m(1,2)], of graphic rest out'] d cend(4) by simp
  next
    case craw
    have "rewritten graphic vs rest out'" using "1.IH"(2) [OF us craw(1,2) craw(3)] ok by blast
    then show ?thesis using rewritten_one [of graphic vs rest out' u "ju_raw u"] us craw(4) by (simp add: piece_ok_def)
  next
    case str
    have "rewritten graphic vs rest out'" using "1.IH"(3) [OF us str(1) _ str(3) str(4)] str(2) ok by blast
    then show ?thesis using rewritten_one [OF _ piece_char [OF ok(1) disjI1 [OF str(2)]]] us str(5) by simp
  next
    case fin
    then show ?thesis using rewritten_two [OF fin(2) "1.prems"(2) m(3,3)] d by simp
  next
    case code
    have "rewritten graphic vs rest out'" using "1.IH"(4) [OF us _ _ _ code(3) code(4)] code(1,2) ok by blast
    then show ?thesis using rewritten_one [OF _ piece_char [OF ok(1) disjI1 [OF code(2)]]] us code(5) by simp
  qed
qed

lemma rewritten_units: "rewritten graphic us rest out \<Longrightarrow> list_all unit_ok us \<Longrightarrow> list_all unit_ok rest"
  unfolding rewritten_def by auto

lemma writtenAction_rewritten:
  assumes "writtenAction graphic us = Some (out, rest)" "list_all unit_ok us"
  shows "\<exists>out'. out = ''{{'' @ out' \<and> rewritten graphic us rest out'"
proof -
  define trim where "trim \<longleftrightarrow> charAt us = ''-'' \<and> charAt (drop 1 us) \<in> set blanks"
  define marker where "marker = (if trim then charAt us @ charAt (drop 1 us) else '''')"
  define us1 where "us1 = (if trim then drop 2 us else us)"
  define comment where "comment \<longleftrightarrow> twoChars ''/'' ''*'' us1"
  obtain tail where t: "actionLoop graphic (if comment then actionComment else actionCode) (if comment then drop 2 us1 else us1) = Some (tail, rest)"
      "out = ''{{'' @ (marker @ (if comment then ''/*'' else '''') @ tail)" and dec: "trim \<Longrightarrow> decodable graphic (us ! 1) actionCode"
    using assms(1) unfolding writtenAction_def Let_def trim_def [symmetric]
    unfolding marker_def [symmetric] us1_def [symmetric] comment_def [symmetric] by (auto split: if_split_asm)
  have "rewritten graphic us us1 marker"
  proof (cases trim)
    case True
    then obtain u v vs where us: "us = u # v # vs" "ju_char u = ''-''" "ju_char v = charAt (drop 1 us)"
      by (cases us; cases "tl us") (auto simp: trim_def charAt_def blanks_def)
    have "unit_ok u" "unit_ok v" "piece_ok graphic (ju_raw v, ju_char v)" "piece_ok graphic (ju_raw u, ''-'')"
      using assms(2) us piece_char [of v graphic actionCode] piece_char [of u graphic actionCode] dec [OF True] by (auto simp: marks_def)
    moreover have "us1 = vs" "marker = ''-'' @ ju_char v" using True us(1,2) by (simp_all add: us1_def marker_def charAt_def)
    ultimately show ?thesis
      using us(1) rewritten_one [OF rewritten_one [OF rewritten_none [of graphic vs], of v "ju_char v"], of u "''-''"] by simp
  qed (simp add: marker_def us1_def rewritten_none)
  moreover have ok1: "list_all unit_ok us1" using rewritten_units [OF calculation assms(2)] .
  moreover have mid: "rewritten graphic us1 (if comment then drop 2 us1 else us1) (if comment then ''/*'' else '''')"
    using rewritten_two [of "''/''" "''*''" us1 graphic] ok1 by (auto simp: comment_def marks_def rewritten_none)
  ultimately have "rewritten graphic us rest (marker @ (if comment then ''/*'' else '''') @ tail)"
    using actionLoop_rewritten [OF t(1) rewritten_units [OF mid ok1]] rewritten_trans by blast
  then show ?thesis using t(2) by blast
qed

lemma writtenActions_rewritten: "writtenActions graphic us = Some out \<Longrightarrow> list_all unit_ok us \<Longrightarrow> rewritten graphic us [] out"
proof (induction graphic us arbitrary: out rule: writtenActions.induct)
  case (1 graphic us)
  show ?case
  proof (cases us)
    case Nil
    then show ?thesis using "1.prems"(1) rewritten_none [of graphic "[]"] by (simp add: writtenActions.simps)
  next
    case (Cons u rest)
    have ok: "list_all unit_ok rest" "list_all unit_ok (tl rest)" using "1.prems"(2) Cons by (cases rest; simp)+
    show ?thesis
    proof (cases "ju_raw u = ''{'' \<and> rest \<noteq> [] \<and> ju_raw (hd rest) = ''{''")
      case True
      obtain action us' t where w: "writtenAction graphic (tl rest) = Some (action, us')" "writtenActions graphic us' = Some t" "out = action @ t"
        using "1.prems"(1) Cons True by (subst (asm) writtenActions.simps) (auto split: option.splits)
      obtain act where a: "action = ''{{'' @ act" "rewritten graphic (tl rest) us' act" using writtenAction_rewritten [OF w(1) ok(2)] by blast
      have "rewritten graphic us' [] t" using "1.IH"(1) [OF Cons True w(1) refl w(2)] rewritten_units [OF a(2) ok(2)] by blast
      from rewritten_trans [OF a(2) this]
      have "rewritten graphic (u # hd rest # tl rest) [] (ju_raw u @ ju_raw (hd rest) @ act @ t)"
        by (intro rewritten_one) (simp_all add: piece_ok_def)
      then show ?thesis using Cons True a(1) w(3) by simp
    next
      case False
      then obtain t where "writtenActions graphic rest = Some t" "out = ju_raw u @ t"
        using "1.prems"(1) Cons by (subst (asm) writtenActions.simps) auto
      then show ?thesis using "1.IH"(2) [OF Cons False] ok(1) Cons rewritten_one [of graphic rest "[]" t u "ju_raw u"] by (simp add: piece_ok_def)
    qed
  qed
qed

lemma jsonEscape_length: "jsonEscape s = Some (ch, n, bad) \<Longrightarrow> n \<le> length s"
  by (auto simp: jsonEscape_def jsonHex_def split: if_splits option.splits)

lemma jsonStringUnits_concat:
  "jsonStringUnits s = Some (us, rest) \<Longrightarrow> s = concat (map ju_raw us) @ CHR 0x22 # rest \<and> list_all unit_ok us"
proof (induction s arbitrary: us rest rule: jsonStringUnits.induct)
  case (1 s)
  show ?case
  proof (cases s)
    case Nil
    then show ?thesis using "1.prems" by (simp add: jsonStringUnits.simps)
  next
    case (Cons c cs)
    consider "c = CHR 0x22" "us = []" "rest = cs"
      | ch n bad vs where "c \<noteq> CHR 0x22" "c = CHR 0x5C" "jsonEscape s = Some (ch, n, bad)" "jsonStringUnits (drop n s) = Some (vs, rest)"
          "us = \<lparr>ju_char = ch, ju_raw = take n s, ju_invalid = bad\<rparr> # vs"
      | n vs where "c \<noteq> CHR 0x22" "c \<noteq> CHR 0x5C" "n = snd (DecodeRuneInString s)" "jsonStringUnits (drop n s) = Some (vs, rest)"
          "us = \<lparr>ju_char = take n s, ju_raw = take n s, ju_invalid = False\<rparr> # vs"
      using "1.prems" Cons by (subst (asm) jsonStringUnits.simps) (auto simp: Let_def split: if_split_asm option.splits prod.splits)
    then show ?thesis
    proof cases
      case 1
      then show ?thesis using Cons by simp
    next
      case 2
      have "unit_ok (hd us)" unfolding unit_ok_def 2(5) list.sel jsonUnit.simps
        using 2(2,3) Cons jsonEscape_size [OF 2(3)] jsonEscape_length [OF 2(3)] unfolding escape_of_def
        by (intro disjI2 exI [of _ "drop n s"] exI [of _ bad]) (cases n; simp)
      moreover have "drop n s = concat (map ju_raw vs) @ CHR 0x22 # rest \<and> list_all unit_ok vs"
        using "1.IH"(1) [OF Cons 2(1,2,3) refl refl 2(4)] .
      ultimately show ?thesis using 2(5) append_take_drop_id [of n s] by simp
    next
      case 3
      then have "unit_ok (hd us)" by (simp add: unit_ok_def)
      moreover
      have "drop n s = concat (map ju_raw vs) @ CHR 0x22 # rest \<and> list_all unit_ok vs"
        using "1.IH"(2) [OF Cons 3(1,2,3) 3(4)] .
      ultimately show ?thesis using 3(5) append_take_drop_id [of n s] by simp
    qed
  qed
qed

lemma sublist_parts: "\<not> sublist xs (ys @ zs) \<Longrightarrow> \<not> sublist xs ys \<and> \<not> sublist xs zs"
  by (meson sublist_append)

lemma writtenActions_plain:
  "\<not> sublist ''{{'' (concat (map ju_raw us)) \<Longrightarrow> writtenActions graphic us = Some (concat (map ju_raw us))"
proof (induction us)
  case Nil
  then show ?case by (simp add: writtenActions.simps)
next
  case (Cons u us)
  have no: "\<not> (ju_raw u = ''{'' \<and> us \<noteq> [] \<and> ju_raw (hd us) = ''{'')"
  proof
    assume a: "ju_raw u = ''{'' \<and> us \<noteq> [] \<and> ju_raw (hd us) = ''{''"
    then have "concat (map ju_raw (u # us)) = ''{{'' @ concat (map ju_raw (tl us))" by (cases us) simp_all
    then show False using Cons.prems sublist_appendI [of "''{{''" "[]"] by (metis append_Nil)
  qed
  have "\<not> sublist ''{{'' (concat (map ju_raw us))" using Cons.prems sublist_parts [of _ "ju_raw u"] by simp
  then have "writtenActions graphic us = Some (concat (map ju_raw us))" using Cons.IH by blast
  then show ?case by (subst writtenActions.simps) (simp only: if_not_P [OF no] list.case option.map list.map concat.simps)
qed

lemma asWritten_plain: "\<not> sublist ''{{'' s \<Longrightarrow> asWritten graphic s = None \<or> asWritten graphic s = Some s"
proof (induction graphic s rule: asWritten.induct)
  case (1 graphic s)
  show ?case
  proof (cases s)
    case Nil
    then show ?thesis by (simp add: asWritten.simps)
  next
    case (Cons c cs)
    have no: "\<not> sublist ''{{'' cs" using "1.prems" Cons sublist_parts [of _ "[c]" cs] by simp
    show ?thesis
    proof (cases "c = CHR 0x22")
      case False
      then show ?thesis using "1.IH"(1) [OF Cons] no Cons by (subst (1 2) asWritten.simps) auto
    next
      case True
      show ?thesis
      proof (cases "jsonStringUnits cs")
        case None
        then show ?thesis using Cons True by (subst asWritten.simps) simp
      next
        case (Some p)
        obtain us rest where p: "jsonStringUnits cs = Some (us, rest)" using Some by (cases p) auto
        have cs: "cs = concat (map ju_raw us) @ CHR 0x22 # rest" using jsonStringUnits_concat [OF p] by simp
        then have n: "\<not> sublist ''{{'' (concat (map ju_raw us))" "\<not> sublist ''{{'' rest"
          using no sublist_parts [of _ "concat (map ju_raw us)"] sublist_parts [of _ "[CHR 0x22]" rest] by (simp, metis append_Cons append_Nil)
        have "asWritten graphic rest = None \<or> asWritten graphic rest = Some rest"
          using "1.IH"(2) [OF Cons _ p refl writtenActions_plain [OF n(1)] n(2)] True by simp
        then show ?thesis using Cons True p cs writtenActions_plain [OF n(1), of graphic] by (subst (1 2) asWritten.simps) auto
      qed
    qed
  qed
qed

lemma asWritten_pieces:
  "asWritten graphic s = Some out \<Longrightarrow> \<exists>ps. concat (map fst ps) = s \<and> concat (map snd ps) = out \<and> list_all (piece_ok graphic) ps"
proof (induction graphic s arbitrary: out rule: asWritten.induct)
  case (1 graphic s)
  show ?case
  proof (cases s)
    case Nil
    then show ?thesis using "1.prems" by (intro exI [of _ "[]"]) (simp add: asWritten.simps)
  next
    case (Cons c cs)
    have q: "piece_ok graphic (t, t)" for t by (simp add: piece_ok_def)
    show ?thesis
    proof (cases "c = CHR 0x22")
      case False
      then obtain t where t: "asWritten graphic cs = Some t" "out = c # t" using "1.prems" Cons by (subst (asm) asWritten.simps) auto
      then obtain ps where "concat (map fst ps) = cs" "concat (map snd ps) = t" "list_all (piece_ok graphic) ps"
        using "1.IH"(1) [OF Cons False] by blast
      then show ?thesis using Cons t(2) q by (intro exI [of _ "([c], [c]) # ps"]) simp
    next
      case True
      then obtain us rest written t where u: "jsonStringUnits cs = Some (us, rest)" "writtenActions graphic us = Some written"
          "asWritten graphic rest = Some t" "out = CHR 0x22 # written @ CHR 0x22 # t"
        using "1.prems" Cons by (subst (asm) asWritten.simps) (auto split: option.splits prod.splits)
      have js: "cs = concat (map ju_raw us) @ CHR 0x22 # rest" "list_all unit_ok us" using jsonStringUnits_concat [OF u(1)] by blast+
      obtain qs where qs: "map fst qs = map ju_raw us" "concat (map snd qs) = written" "list_all (piece_ok graphic) qs"
        using writtenActions_rewritten [OF u(2) js(2)] unfolding rewritten_def by auto
      obtain ps where "concat (map fst ps) = rest" "concat (map snd ps) = t" "list_all (piece_ok graphic) ps"
        using "1.IH"(2) [OF Cons _ u(1) refl u(2,3)] True by blast
      then show ?thesis using Cons True js(1) u(4) qs q by (intro exI [of _ "([CHR 0x22], [CHR 0x22]) # qs @ ([CHR 0x22], [CHR 0x22]) # ps"]) simp
    qed
  qed
qed

text \<open>A stored action with a string, read step by step.\<close>

lemma decode_ascii: "byte c < 128 \<Longrightarrow> DecodeRuneInString (c # cs) = (byte c, 1)"
  by (simp add: DecodeRuneInString_def)

lemma json_plain:
  "byte c < 128 \<Longrightarrow> c \<noteq> CHR 0x22 \<Longrightarrow> c \<noteq> CHR 0x5C \<Longrightarrow>
   jsonStringUnits (c # cs) =
     map_option (\<lambda>(us, rest). (\<lparr>ju_char = [c], ju_raw = [c], ju_invalid = False\<rparr> # us, rest)) (jsonStringUnits cs)"
  by (subst jsonStringUnits.simps) (simp add: decode_ascii)

lemma json_end: "jsonStringUnits (CHR 0x22 # cs) = Some ([], cs)"
  by (subst jsonStringUnits.simps) simp

lemma json_quote:
  "jsonStringUnits (CHR 0x5C # CHR 0x22 # cs) =
     map_option (\<lambda>(us, rest). (\<lparr>ju_char = [CHR 0x22], ju_raw = [CHR 0x5C, CHR 0x22], ju_invalid = False\<rparr> # us, rest)) (jsonStringUnits cs)"
  by (subst jsonStringUnits.simps) (simp add: jsonEscape_def simpleEscapes_def)

lemma quoted_action:
  "actionsAsWritten (\<lambda>r. 32 \<le> r) (concat [[CHR 0x22], ''{{ f '', [CHR 0x5C, CHR 0x22], ''x'', [CHR 0x5C, CHR 0x22], '' }}'', [CHR 0x22]])
   = concat [[CHR 0x22], ''{{ f '', [CHR 0x22], ''x'', [CHR 0x22], '' }}'', [CHR 0x22]]"
  unfolding actionsAsWritten_def
  by (simp add: asWritten.simps json_plain json_end json_quote writtenActions.simps
    writtenAction_def charAt_def twoChars_def blanks_def actionLoop.simps decodable_def decode_ascii codeState_def stringEnds_def RuneError_def)


section \<open>The model of the templates\<close>

fun to_tdata :: "gval \<Rightarrow> tdata" where
  "to_tdata (GMap m) = DMap (map (\<lambda>(k, v). (k, to_tdata v)) m)"
| "to_tdata (GList l) = DList (map to_tdata l)"
| "to_tdata (GStrs l) = DStrs l"
| "to_tdata v = DScalar v"

definition ImageRedirectTable :: "ImageRedirectSpec list \<Rightarrow> tdata" where
  "ImageRedirectTable redirects =
     DList (map (\<lambda>r. DMap [(''oldPrefix'', DScalar (GStr (ir_OldPrefix r))), (''newPrefix'', DScalar (GStr (ir_NewPrefix r))),
       (''imagePullPolicy'', DScalar (GStr (ir_ImagePullPolicy r))), (''imagePullSecrets'', DStrs (ir_ImagePullSecrets r))]) redirects)"

datatype param_error =
    CannotUnquote string
  | ParametersTemplate tmpl_error
  | ReleaseModel
  | ParametersRender tmpl_error
  | RefDefaults ref_error
  | ParametersInvalid container_error

text \<open>\<open>toMap\<close> is \<open>misc.ObjectToMap\<close>, the conversion of the Release through YAML. A nil map of parameters is \<open>None\<close>.\<close>

definition BuildModel :: "(Release \<Rightarrow> gmap option) \<Rightarrow> configuration \<Rightarrow> gmap \<Rightarrow> gmap option \<Rightarrow> Release \<Rightarrow> (param_error, (string \<times> tdata) list) result" where
  "BuildModel toMap cfg context0 parameters release =
     (case toMap release of
        None \<Rightarrow> Err ReleaseModel
      | Some releaseMap \<Rightarrow>
          Ok [(''Context'', to_tdata (GMap context0)),
              (''Parameters'', case parameters of None \<Rightarrow> DNilMap | Some p \<Rightarrow> to_tdata (GMap p)),
              (''Release'', to_tdata (GMap releaseMap)), (''ImageRedirects'', ImageRedirectTable (imageRedirects cfg))])"

section \<open>The parameters\<close>

record 't param_env =
  pe_engine :: "'t engine"
  pe_toMap :: "Release \<Rightarrow> gmap option"
  pe_Unquote :: "string \<Rightarrow> (string, string) result"
  pe_graphic :: "nat \<Rightarrow> bool"

definition parametersText :: "Release \<Rightarrow> string" where
  "parametersText release = (case rs_Parameters (rl_Spec release) of None \<Rightarrow> ''{}'' | Some raw \<Rightarrow> if raw = '''' then ''{}'' else raw)"

text \<open>The text that is parsed, then its template: read a second time, with the actions as written, when the stored form of an object does not parse.\<close>

definition unquoted :: "'t param_env \<Rightarrow> string \<Rightarrow> (param_error, string) result" where
  "unquoted env txt =
     (if Contains txt [CHR 0x5C, CHR ''n''] \<and> take 1 txt \<noteq> ''{'' then wrap_err CannotUnquote (pe_Unquote env txt) else Ok txt)"

definition parametersTmpl :: "'t param_env \<Rightarrow> bool \<Rightarrow> string \<Rightarrow> (param_error, 't tmpl) result" where
  "parametersTmpl env jsonObject txt =
     wrap_err ParametersTemplate
       (case NewFromAny (pe_engine env) (GStr txt) '''' of
          Inr t \<Rightarrow> Ok t
        | Inl e \<Rightarrow>
            if jsonObject \<and> actionsAsWritten (pe_graphic env) txt \<noteq> txt
            then NewFromAny (pe_engine env) (GStr (actionsAsWritten (pe_graphic env) txt)) '''' else Err e)"

definition HandleParameters ::
  "'t param_env \<Rightarrow> 'g jsonschema \<Rightarrow> configuration \<Rightarrow> ('t, 'g) PckContainer \<Rightarrow> gmap \<Rightarrow> Release \<Rightarrow> (param_error, gmap) result" where
  "HandleParameters env js cfg pck kcontext release =
     (let txt = parametersText release
      in rbind (unquoted env txt) (\<lambda>txt'.
         rbind (parametersTmpl env (HasPrefix txt ''{'') txt') (\<lambda>t.
         rbind (BuildModel (pe_toMap env) cfg kcontext None release) (\<lambda>pModel.
         rbind (wrap_err ParametersRender (RenderToMap (pe_engine env) t pModel)) (\<lambda>releaseParameters.
         let merged = MergeMaps (pc_DefaultParameters pck) releaseParameters
         in rbind (if pc_ParamConnectionDecls pck = [] then Ok merged
                   else rbind (wrap_err RefDefaults
                          (RenderRefDefaults (pe_engine env) (pc_ParamConnectionDecls pck) (GMap (DeepCopyTree merged)) releaseParameters pModel)) (\<lambda>tree.
                        Ok (case tree of GMap m \<Rightarrow> m | _ \<Rightarrow> []))) (\<lambda>parameters.
            rbind (wrap_err ParametersInvalid (ValidateParameters js pck parameters)) (\<lambda>_. Ok parameters)))))))"

lemma HandleParameters_valid: "HandleParameters env js cfg pck kcontext release = Ok p \<Longrightarrow> ValidateParameters js pck p = Ok ()"
  by (auto simp: HandleParameters_def Let_def rbind_Inr wrap_err_def split: sum.splits)

end
