(* ===== verification/Words.thy ===== *)
theory Words
  imports "HOL-Library.Word"
begin

text \<open>
  The 64-bit integers of Go, \<open>int\<close> and \<open>int64\<close>, as words: what the signed reading of a sum or a difference is when it does not overflow.
\<close>

lemma sint_range: "- (2 ^ 63) \<le> sint (w :: 64 word) \<and> sint w < 2 ^ 63"
  using sint_greater_eq [of w] sint_less [of w] by simp

lemma sint_of_range: "- (2 ^ 63) \<le> x \<Longrightarrow> x < 2 ^ 63 \<Longrightarrow> sint (word_of_int x :: 64 word) = x"
  by (subst sint_sbintrunc') (simp add: signed_take_bit_int_eq_self)

lemma sint_add: "- (2 ^ 63) \<le> sint a + sint b \<Longrightarrow> sint a + sint b < 2 ^ 63 \<Longrightarrow> sint (a + b) = sint a + sint b" for a b :: "64 word"
  using sint_of_range [of "sint a + sint b"] by simp

lemma sint_sub: "- (2 ^ 63) \<le> sint a - sint b \<Longrightarrow> sint a - sint b < 2 ^ 63 \<Longrightarrow> sint (a - b) = sint a - sint b" for a b :: "64 word"
  using sint_of_range [of "sint a - sint b"] by simp

lemma sint_of_nat: "n < 2 ^ 63 \<Longrightarrow> sint (of_nat n :: 64 word) = int n"
  using sint_of_range [of "int n"] by simp

lemma uint_diff:
  fixes a b :: "64 word"
  assumes "sint b \<le> sint a"
  shows "uint (a - b) = sint a - sint b"
proof -
  have "a - b = word_of_int (sint a - sint b)" by (simp add: wi_hom_syms)
  then have "uint (a - b) = (sint a - sint b) mod 2 ^ 64" by (simp only: uint_word_of_int len_bit0 len_num1) simp
  also have "\<dots> = sint a - sint b" using assms sint_range [of a] sint_range [of b] by (intro mod_pos_pos_trivial) auto
  finally show ?thesis .
qed

end
