(* ===== verification/TmplFunctions.thy ===== *)
theory TmplFunctions
  imports Parameters Words
begin

text \<open>
  \<open>internal/tmpl/functions.go\<close>: the functions that KuboCD gives to templates, with the bounds that keep their results small, and the saturating sizes of
  \<open>size_bound.go\<close>. An \<open>int\<close> of Go is a word of 64 bits read as signed. The functions of sprig are parameters of those that wrap them.
\<close>

section \<open>Errors and function sets\<close>

text \<open>An error that is shown as written, an error of a limit, or another one, whose text is withheld.\<close>

datatype fn_error = Shown string | Limit string | Withheld string

definition fail_fn :: "string \<Rightarrow> (fn_error, string) result" where
  "fail_fn msg = Err (Shown msg)"

definition required :: "string \<Rightarrow> gval \<Rightarrow> (fn_error, gval) result" where
  "required msg val = (if val = GNil \<or> val = GStr '''' then Err (Shown msg) else Ok val)"

datatype build_error = NotProvided string | ListedTwice string | DefinedTwice string

definition takeNamed :: "(string \<times> 'f) list \<Rightarrow> (string \<times> 'f) list \<Rightarrow> string \<Rightarrow> (build_error, (string \<times> 'f) list) result" where
  "takeNamed src funcs name =
     (case map_of src name of
        None \<Rightarrow> Err (NotProvided name)
      | Some fn \<Rightarrow> if map_of funcs name \<noteq> None then Err (ListedTwice name) else Ok (mput name fn funcs))"

definition addExtra :: "(string \<times> 'f) list \<Rightarrow> string \<times> 'f \<Rightarrow> (build_error, (string \<times> 'f) list) result" where
  "addExtra funcs = (\<lambda>(name, fn). if map_of funcs name \<noteq> None then Err (DefinedTwice name) else Ok (mput name fn funcs))"

definition buildFunctions ::
  "(string \<times> 'f) list \<Rightarrow> string list \<Rightarrow> (string \<times> 'f) list list \<Rightarrow> (build_error, (string \<times> 'f) list) result" where
  "buildFunctions src names extras =
     rbind (rfold (takeNamed src) [] names) (\<lambda>funcs. rfold (rfold addExtra) funcs extras)"

definition withFunction :: "(string \<times> 'f) list \<Rightarrow> string \<Rightarrow> 'f \<Rightarrow> (string \<times> 'f) list" where
  "withFunction funcs name fn = mput name fn funcs"

section \<open>Saturating sizes\<close>

definition saturatedBound :: int where
  "saturatedBound = maxRenderedText + 1"

definition boundAdd :: "int \<Rightarrow> int \<Rightarrow> int" where
  "boundAdd a b = (if a > maxRenderedText \<or> b > maxRenderedText - a then saturatedBound else a + b)"

definition boundMultiply :: "int \<Rightarrow> int \<Rightarrow> int" where
  "boundMultiply a b = (if a = 0 \<or> b = 0 then 0 else if a > maxRenderedText div b then saturatedBound else a * b)"

lemma boundAdd_exact: "0 \<le> a \<Longrightarrow> 0 \<le> b \<Longrightarrow> boundAdd a b = min saturatedBound (a + b)"
  by (auto simp: boundAdd_def saturatedBound_def)

lemma div_less_iff: "0 < b \<Longrightarrow> n div b < a \<longleftrightarrow> n < a * b" for n a b :: int
proof -
  assume b: "0 < b"
  have e: "n = n div b * b + n mod b" "0 \<le> n mod b" "n mod b < b" using b by simp_all
  show ?thesis
  proof
    assume "n div b < a"
    then have "n div b * b + b \<le> a * b" using b mult_right_mono [of "n div b + 1" a b] by (simp add: distrib_right)
    then show "n < a * b" using e by linarith
  next
    assume "n < a * b"
    then have "n div b * b < a * b" using e by linarith
    then show "n div b < a" using b by (simp add: mult_less_cancel_right)
  qed
qed

lemma boundMultiply_exact:
  assumes "0 \<le> a" "0 \<le> b"
  shows "boundMultiply a b = min saturatedBound (a * b)"
proof (cases "a = 0 \<or> b = 0")
  case False
  then have b: "0 < b" using assms by simp
  have "maxRenderedText div b < a \<longleftrightarrow> maxRenderedText < a * b"
    using b by (rule div_less_iff)
  then show ?thesis using False by (auto simp: boundMultiply_def saturatedBound_def)
qed (auto simp: boundMultiply_def saturatedBound_def maxRenderedText_def)

section \<open>Bounded texts\<close>

definition textResultLimit :: "string \<Rightarrow> fn_error" where
  "textResultLimit name = Limit (name @ '': the result is larger than 4194304 bytes'')"

definition checkIndentation :: "string \<Rightarrow> int \<Rightarrow> string \<Rightarrow> int \<Rightarrow> (fn_error, unit) result" where
  "checkIndentation name width val leadingNewline =
     (let remaining = maxRenderedText - leadingNewline; size = int (length val)
      in if width < 0 then Err (Limit (name @ '': the indentation must not be negative''))
         else if size > remaining \<or> width > (remaining - size) div (int (count_list val newline) + 1) then Err (textResultLimit name)
         else Ok ())"

definition indent :: "(int \<Rightarrow> string \<Rightarrow> string) \<Rightarrow> int \<Rightarrow> string \<Rightarrow> (fn_error, string) result" where
  "indent sprigIndent width val = rbind (checkIndentation ''indent'' width val 0) (\<lambda>_. Ok (sprigIndent width val))"

definition nindent :: "(int \<Rightarrow> string \<Rightarrow> string) \<Rightarrow> int \<Rightarrow> string \<Rightarrow> (fn_error, string) result" where
  "nindent sprigNindent width val = rbind (checkIndentation ''nindent'' width val 1) (\<lambda>_. Ok (sprigNindent width val))"

definition repeat_fn :: "int \<Rightarrow> string \<Rightarrow> (fn_error, string) result" where
  "repeat_fn n s =
     (if n < 0 then Err (Limit ''repeat: the count must not be negative'')
      else if length s > 0 \<and> n > maxRenderedText div int (length s) then Err (textResultLimit ''repeat'')
      else Ok (concat (replicate (nat n) s)))"

lemma repeat_bounded: "repeat_fn n s = Ok t \<Longrightarrow> int (length t) \<le> maxRenderedText"
proof -
  assume a: "repeat_fn n s = Ok t"
  then have n: "0 \<le> n" "length s > 0 \<Longrightarrow> n \<le> maxRenderedText div int (length s)" "t = concat (replicate (nat n) s)"
    by (auto simp: repeat_fn_def split: if_splits)
  have l: "int (length t) = n * int (length s)" using n(1,3) by (simp add: length_concat sum_list_replicate)
  show ?thesis
  proof (cases "length s = 0")
    case False
    then show ?thesis using n(2) l div_less_iff [of "int (length s)" maxRenderedText n] by auto
  qed (simp add: l maxRenderedText_def)
qed

section \<open>Bounded sequences\<close>

definition maxUntil :: nat where
  "maxUntil = 10000"

definition until :: "(64 word \<Rightarrow> 64 word list) \<Rightarrow> 64 word \<Rightarrow> (fn_error, 64 word list) result" where
  "until sprigUntil n =
     (if sint n > int maxUntil \<or> sint n < - int maxUntil then Err (Limit ''until: the count is beyond the limit of 10000'')
      else Ok (sprigUntil n))"

definition sequenceCount :: "64 word \<Rightarrow> 64 word \<Rightarrow> 64 word \<Rightarrow> bool \<Rightarrow> nat" where
  "sequenceCount start stop step inclusive =
     (if step = 0 \<or> (sint step > 0 \<and> sint start > sint stop) \<or> (sint step < 0 \<and> sint start < sint stop) then 0
      else let distance = (if sint step < 0 then start - stop else stop - start);
               stride = (if sint step < 0 then 0 - step else step)
           in if \<not> inclusive \<and> distance = 0 then 0
              else let quotient = (if inclusive then distance else distance - 1) div stride
                   in if quotient \<ge> 10000 then maxUntil + 1 else unat quotient + 1)"

text \<open>The loop that fills the list: no step is added after the last item.\<close>

fun items :: "nat \<Rightarrow> 64 word \<Rightarrow> 64 word \<Rightarrow> 64 word list" where
  "items 0 start step = []"
| "items (Suc n) start step = start # (if n = 0 then [] else items n (start + step) step)"

definition untilStep :: "64 word \<Rightarrow> 64 word \<Rightarrow> 64 word \<Rightarrow> (fn_error, 64 word list) result" where
  "untilStep start stop step =
     (let n = sequenceCount start stop step False
      in if n > maxUntil then Err (Limit ''untilStep: the count is beyond the limit of 10000'') else Ok (items n start step))"

definition seq_range :: "64 word list \<Rightarrow> (64 word \<times> 64 word \<times> 64 word) option" where
  "seq_range params =
     (case params of
        [stop] \<Rightarrow> Some (1, stop, if sint stop < 1 then - 1 else 1)
      | [start, stop] \<Rightarrow> Some (start, stop, if sint stop < sint start then - 1 else 1)
      | [start, step, stop] \<Rightarrow> Some (start, stop, step)
      | _ \<Rightarrow> None)"

definition seq :: "64 word list \<Rightarrow> (fn_error, string) result" where
  "seq params =
     (case seq_range params of
        None \<Rightarrow> Ok ''''
      | Some (start, stop, step) \<Rightarrow>
          if start = stop \<and> sint step < 0 then Ok ''''
          else let n = sequenceCount start stop step True
               in if n > maxUntil then Err (Limit ''seq: the count is beyond the limit of 10000'')
                  else Ok (Join '' '' (map (\<lambda>w. Itoa (sint w)) (items n start step))))"

section \<open>Lemmas on sequences\<close>

text \<open>The values that a sequence runs over, as unbounded integers: before the stop in the direction of the step, or at it.\<close>

definition in_range :: "bool \<Rightarrow> int \<Rightarrow> int \<Rightarrow> int \<Rightarrow> bool" where
  "in_range inclusive stop step x \<longleftrightarrow>
     (0 < step \<and> (x < stop \<or> (inclusive \<and> x = stop))) \<or> (step < 0 \<and> (stop < x \<or> (inclusive \<and> x = stop)))"

lemma step_sign: "(sint step < 0 \<or> 0 \<le> int i * sint step) \<and> (0 < sint step \<or> int i * sint step \<le> 0)" for step :: "64 word"
  by (simp add: zero_le_mult_iff mult_le_0_iff) linarith

lemma in_range_zero: "\<not> in_range inclusive stop 0 x"
  by (simp add: in_range_def)

text \<open>No later value is in range once the start is past the stop.\<close>

lemma in_range_after:
  fixes step stop :: "64 word"
  assumes "0 < sint step \<and> sint stop < a \<or> sint step < 0 \<and> a < sint stop \<or> a = sint stop \<and> \<not> inclusive"
  shows "\<not> in_range inclusive (sint stop) (sint step) (a + int i * sint step)"
proof -
  define m where "m = int i * sint step"
  have "(sint step < 0 \<or> 0 \<le> m) \<and> (0 < sint step \<or> m \<le> 0)" unfolding m_def by (rule step_sign)
  then show ?thesis using assms unfolding m_def [symmetric] by (auto simp: in_range_def)
qed

lemma sequenceCount_exact:
  assumes "i \<le> maxUntil"
  shows "i < sequenceCount start stop step inclusive \<longleftrightarrow> in_range inclusive (sint stop) (sint step) (sint start + int i * sint step)"
proof (cases "step = 0 \<or> (sint step > 0 \<and> sint start > sint stop) \<or> (sint step < 0 \<and> sint start < sint stop)")
  case True
  then show ?thesis using in_range_after [of step stop "sint start" inclusive i] by (auto simp: sequenceCount_def in_range_zero)
next
  case False
  define distance where "distance = (if sint step < 0 then start - stop else stop - start)"
  define stride where "stride = (if sint step < 0 then 0 - step else step)"
  define q where "q = (if inclusive then distance else distance - 1) div stride"
  have nz: "sint step \<noteq> 0" using False by (metis sint_0 signed_word_eqI)
  have d: "uint distance = \<bar>sint stop - sint start\<bar>" using False nz by (auto simp: distance_def uint_diff)
  have k: "uint stride = \<bar>sint step\<bar>" using uint_diff [of step 0] uint_diff [of 0 step] by (auto simp: stride_def)
  have c: "sequenceCount start stop step inclusive = (if \<not> inclusive \<and> distance = 0 then 0 else if q \<ge> 10000 then maxUntil + 1 else unat q + 1)"
    unfolding sequenceCount_def Let_def distance_def stride_def q_def using False by (simp only: if_False)
  show ?thesis
  proof (cases "\<not> inclusive \<and> distance = 0")
    case True
    then have "sint stop = sint start" using d by simp
    then show ?thesis using True c in_range_after [of step stop "sint start" inclusive i] by simp
  next
    case moves: False
    let ?d = "if inclusive then \<bar>sint stop - sint start\<bar> else \<bar>sint stop - sint start\<bar> - 1"
    have "uint (distance - 1) = uint distance - 1" if "distance \<noteq> 0"
    proof -
      have "uint distance \<noteq> 0" "0 \<le> uint distance" using that by (simp_all add: uint_0_iff)
      then have "1 \<le> uint distance" by linarith
      then have "1 \<le> distance" by (simp add: word_le_def)
      then show ?thesis by (simp add: uint_minus_simple_alt)
    qed
    then have "uint q = ?d div \<bar>sint step\<bar>" using moves d k by (auto simp: q_def uint_div)
    moreover have "i < sequenceCount start stop step inclusive \<longleftrightarrow> int i \<le> uint q"
    proof -
      have "(10000 \<le> q) = (10000 \<le> uint q)" by (simp add: word_le_def)
      moreover have "int (unat q) = uint q" by simp
      ultimately show ?thesis using assms moves unfolding c maxUntil_def by (simp only: if_False split: if_split) linarith
    qed
    moreover have "int i \<le> ?d div \<bar>sint step\<bar> \<longleftrightarrow> int i * \<bar>sint step\<bar> \<le> ?d" using div_less_iff [of "\<bar>sint step\<bar>" ?d "int i"] nz by auto
    moreover have "int i * \<bar>sint step\<bar> \<le> ?d \<longleftrightarrow> in_range inclusive (sint stop) (sint step) (sint start + int i * sint step)"
      using False nz by (cases "sint step < 0") (auto simp: in_range_def)
    ultimately show ?thesis by simp
  qed
qed

lemma items_map: "items n start step = map (\<lambda>i. start + of_nat i * step) [0..<n]"
proof (induction n start step rule: items.induct)
  case (2 n start step)
  have "map (\<lambda>i. start + of_nat i * step) [0..<Suc n] = start # map (\<lambda>i. start + step + of_nat i * step) [0..<n]"
    by (simp add: upt_conv_Cons map_Suc_upt [symmetric] algebra_simps del: upt_Suc)
  then show ?case using 2 by simp
qed simp

text \<open>A value in range lies between two words, so that the word that is computed with wrap-around is that value.\<close>

lemma in_range_no_overflow:
  fixes start stop step :: "64 word"
  assumes "in_range inclusive (sint stop) (sint step) (sint start + int i * sint step)"
  shows "sint (start + of_nat i * step) = sint start + int i * sint step"
proof -
  define m where "m = int i * sint step"
  have "(sint step < 0 \<or> 0 \<le> m) \<and> (0 < sint step \<or> m \<le> 0)" unfolding m_def by (rule step_sign)
  then have r: "- (2 ^ 63) \<le> sint start + m \<and> sint start + m < 2 ^ 63"
    using assms sint_range [of start] sint_range [of stop] unfolding m_def [symmetric] by (auto simp: in_range_def)
  have "start + of_nat i * step = word_of_int (sint start + m)" by (simp add: m_def)
  then show ?thesis using sint_of_range [of "sint start + m"] r unfolding m_def by metis
qed

text \<open>Every sequence that is not refused: its items are the integers of the range, in order, and no other.\<close>

lemma items_exact:
  assumes "sequenceCount start stop step inclusive = n" "n \<le> maxUntil"
  shows "map sint (items n start step) = map (\<lambda>i. sint start + int i * sint step) [0..<n]"
    and "list_all (in_range inclusive (sint stop) (sint step)) (map sint (items n start step))"
    and "\<not> in_range inclusive (sint stop) (sint step) (sint start + int n * sint step)"
proof -
  have i: "in_range inclusive (sint stop) (sint step) (sint start + int i * sint step)" if "i < n" for i
    using sequenceCount_exact [of i start stop step inclusive] assms that by simp
  show m: "map sint (items n start step) = map (\<lambda>i. sint start + int i * sint step) [0..<n]"
    using in_range_no_overflow [OF i] by (auto simp: items_map)
  show "list_all (in_range inclusive (sint stop) (sint step)) (map sint (items n start step))"
    using i unfolding m by (simp add: list_all_iff)
  show "\<not> in_range inclusive (sint stop) (sint step) (sint start + int n * sint step)"
    using sequenceCount_exact [of n start stop step inclusive] assms by simp
qed

lemma items_length [simp]: "length (items n start step) = n"
  by (simp add: items_map)

lemma sequence_refused:
  assumes "sequenceCount start stop step inclusive > maxUntil"
  shows "in_range inclusive (sint stop) (sint step) (sint start + int maxUntil * sint step)"
  using assms sequenceCount_exact [of maxUntil start stop step inclusive] by simp

text \<open>C32: \<open>untilStep\<close> computes with machine integers that wrap around, on a count found by unsigned subtraction and division. For every start, stop and step, the
  extreme ones included, a list that is returned holds exactly the integers from the start, one step apart, that are before the stop in the direction of the step:
  the next one is not. The list has at most \<open>maxUntil\<close> items, and an error is returned only for a range that has more.
\<close>

theorem untilStep_exact:
  "case untilStep start stop step of
     Err _ \<Rightarrow> in_range False (sint stop) (sint step) (sint start + int maxUntil * sint step)
   | Ok xs \<Rightarrow> length xs \<le> maxUntil \<and> map sint xs = map (\<lambda>i. sint start + int i * sint step) [0..<length xs]
       \<and> list_all (in_range False (sint stop) (sint step)) (map sint xs)
       \<and> \<not> in_range False (sint stop) (sint step) (sint start + int (length xs) * sint step)"
proof (cases "sequenceCount start stop step False > maxUntil")
  case True
  then show ?thesis using sequence_refused by (simp add: untilStep_def)
next
  case False
  then show ?thesis using items_exact [of start stop step False] by (simp add: untilStep_def)
qed

text \<open>The text of \<open>seq\<close>: the integers of the range, its end included, separated by blanks.\<close>

lemma seq_exact:
  assumes "seq_range params = Some (start, stop, step)" "start \<noteq> stop \<or> 0 \<le> sint step"
  shows "(\<exists>e. seq params = Err e \<and> in_range True (sint stop) (sint step) (sint start + int maxUntil * sint step))
    \<or> (\<exists>n. n \<le> maxUntil \<and> seq params = Ok (Join '' '' (map (\<lambda>i. Itoa (sint start + int i * sint step)) [0..<n]))
         \<and> \<not> in_range True (sint stop) (sint step) (sint start + int n * sint step))"
proof (cases "sequenceCount start stop step True > maxUntil")
  case True
  then show ?thesis using assms sequence_refused by (auto simp: seq_def Let_def)
next
  case False
  define n where "n = sequenceCount start stop step True"
  have "map (\<lambda>w. Itoa (sint w)) (items n start step) = map Itoa (map sint (items n start step))" by simp
  also have "\<dots> = map (\<lambda>i. Itoa (sint start + int i * sint step)) [0..<n]" using items_exact(1) [of start stop step True n] False by (simp add: n_def)
  finally have "seq params = Ok (Join '' '' (map (\<lambda>i. Itoa (sint start + int i * sint step)) [0..<n]))"
    using assms False by (auto simp: seq_def n_def [symmetric] Let_def)
  moreover have "n \<le> maxUntil \<and> \<not> in_range True (sint stop) (sint step) (sint start + int n * sint step)"
    using items_exact(3) [of start stop step True n] False by (simp add: n_def)
  ultimately show ?thesis by blast
qed

section \<open>Image redirects\<close>

text \<open>
  The type assertions on the values of a template model. A nil map or list is one without entries; a nil \<open>[]string\<close> of the result is written as an empty one.
\<close>

fun asDMap :: "tdata \<Rightarrow> (string \<times> tdata) list option" where
  "asDMap (DMap m) = Some m"
| "asDMap DNilMap = Some []"
| "asDMap _ = None"

fun asDList :: "tdata option \<Rightarrow> tdata list option" where
  "asDList (Some (DList l)) = Some l"
| "asDList (Some DNilList) = Some []"
| "asDList _ = None"

fun asDStr :: "tdata option \<Rightarrow> string option" where
  "asDStr (Some (DScalar (GStr s))) = Some s"
| "asDStr _ = None"

definition optionalString :: "(string \<times> tdata) list \<Rightarrow> string \<Rightarrow> (string, string) result" where
  "optionalString m key =
     (let v = map_of m key
      in if v = None \<or> v = Some (DScalar GNil) then Ok ''''
         else case asDStr v of None \<Rightarrow> Err (key @ '' is not a string'') | Some s \<Rightarrow> Ok s)"

definition optionalStringList :: "(string \<times> tdata) list \<Rightarrow> string \<Rightarrow> (string, string list) result" where
  "optionalStringList m key =
     (let v = map_of m key
      in if v = None \<or> v = Some (DScalar GNil) then Ok []
         else case (v, asDList v) of
                (Some (DStrs l), _) \<Rightarrow> Ok l
              | (_, Some l) \<Rightarrow>
                  rfold (\<lambda>acc item. case asDStr (Some item) of None \<Rightarrow> Err (key @ '' is not a list of strings'') | Some s \<Rightarrow> Ok (acc @ [s])) [] l
              | _ \<Rightarrow> Err (key @ '' is not a list of strings''))"

text \<open>The loop over the table, up to its \<open>break\<close>: the URL, the pull policy and the pull secrets.\<close>

definition entryError :: "nat \<Rightarrow> string \<Rightarrow> fn_error" where
  "entryError idx what = Shown (''imageRedirect: entry '' @ Itoa (int idx) @ '' of the image redirect table'' @ what)"

fun redirectLoop :: "string \<Rightarrow> nat \<Rightarrow> tdata list \<Rightarrow> (fn_error, string \<times> string \<times> string list) result" where
  "redirectLoop url idx [] = Ok (url, '''', [])"
| "redirectLoop url idx (entry # table) =
     (case asDMap entry of
        None \<Rightarrow> Err (entryError idx '' is not a map'')
      | Some redirect \<Rightarrow>
          (case asDStr (map_of redirect ''oldPrefix'') of
             None \<Rightarrow> Err (entryError idx '' has no oldPrefix'')
           | Some oldPrefix \<Rightarrow>
               if \<not> HasPrefix url oldPrefix then redirectLoop url (idx + 1) table
               else wrap_err (\<lambda>e. entryError idx ('': '' @ e))
                 (rbind (optionalString redirect ''newPrefix'') (\<lambda>newPrefix.
                  rbind (optionalString redirect ''imagePullPolicy'') (\<lambda>imagePullPolicy.
                  rbind (optionalStringList redirect ''imagePullSecrets'') (\<lambda>imagePullSecrets.
                  Ok (if newPrefix \<noteq> '''' then newPrefix @ drop (length oldPrefix) url else url, imagePullPolicy, imagePullSecrets)))))))"

definition imageRedirect :: "string \<Rightarrow> (string \<times> tdata) list \<Rightarrow> (fn_error, (string \<times> tdata) list) result" where
  "imageRedirect url scope =
     (case asDList (map_of scope ''ImageRedirects'') of
        None \<Rightarrow> Err (Shown ''imageRedirect: the scope has no image redirect table, pass the root context ('.' or '$')'')
      | Some table \<Rightarrow>
          rbind (redirectLoop url 0 table) (\<lambda>(newURL, imagePullPolicy, imagePullSecrets).
            case DecodeImageUrl newURL of
              Err _ \<Rightarrow>
                Err (Shown (if newURL \<noteq> url
                            then ''imageRedirect: the redirected image reference is invalid, check the newPrefix of the matching redirect''
                            else ''imageRedirect: the image reference is invalid''))
            | Ok (repo, tag) \<Rightarrow>
                let sa = Split CHR ''/'' repo
                in Ok [(''url'', DScalar (GStr newURL)), (''imagePullPolicy'', DScalar (GStr imagePullPolicy)),
                       (''imagePullSecrets'', DStrs imagePullSecrets), (''repository'', DScalar (GStr repo)), (''tag'', DScalar (GStr tag)),
                       (''registry'', DScalar (GStr (hd sa))), (''baseRepository'', DScalar (GStr (Join ''/'' (tl sa))))]))"

section \<open>Lemmas on image redirects\<close>

text \<open>What the redirects of the configuration mean: the first whose old prefix the reference has, and nothing of the others.\<close>

definition redirected :: "ImageRedirectSpec list \<Rightarrow> string \<Rightarrow> string \<times> string \<times> string list" where
  "redirected redirects url =
     (case find (\<lambda>r. HasPrefix url (ir_OldPrefix r)) redirects of
        None \<Rightarrow> (url, '''', [])
      | Some r \<Rightarrow> (if ir_NewPrefix r = '''' then url else ir_NewPrefix r @ drop (length (ir_OldPrefix r)) url, ir_ImagePullPolicy r, ir_ImagePullSecrets r))"

lemma redirectLoop_table:
  "asDList (Some (ImageRedirectTable redirects)) = Some table \<Longrightarrow> redirectLoop url idx table = Ok (redirected redirects url)"
proof (induction redirects arbitrary: idx table)
  case Nil
  then show ?case by (simp add: ImageRedirectTable_def redirected_def)
next
  case (Cons r redirects)
  then show ?case
    by (auto simp: ImageRedirectTable_def redirected_def optionalString_def optionalStringList_def rbind_def wrap_err_def)
qed

lemma Split_parts: "(c \<in> set s \<longleftrightarrow> tl (Split c s) \<noteq> []) \<and> c \<notin> set (hd (Split c s))"
  by (induction s) (auto split: list.split)

lemma registry_and_rest: "repo = hd (Split CHR ''/'' repo) @ (if tl (Split CHR ''/'' repo) = [] then [] else ''/'' @ Join ''/'' (tl (Split CHR ''/'' repo)))"
  using Join_Split [of "CHR ''/''" repo] Join_Cons [of "tl (Split CHR ''/'' repo)" "''/''" "hd (Split CHR ''/'' repo)"]
  by (cases "Split CHR ''/'' repo") auto

text \<open>C33: the image redirects of the configuration reach a template as they are declared. On the model that \<open>BuildModel\<close> builds, \<open>imageRedirect\<close> never fails for
  want of a table or for the shape of its entries: it returns the URL, the pull policy and the pull secrets of the first redirect whose old prefix the reference has
  (the URL as given, when its new prefix is empty), and the repository of the result is its registry followed by its base repository. It fails only where the
  reference that results is no image reference.
\<close>

theorem imageRedirect_first_match:
  assumes "BuildModel toMap cfg context0 parameters release = Ok scope" "redirected (imageRedirects cfg) url = (newURL, policy, secrets)"
  shows "case DecodeImageUrl newURL of
     Err _ \<Rightarrow> (\<exists>e. imageRedirect url scope = Err (Shown e))
   | Ok (repo, tag) \<Rightarrow>
       (\<exists>registry base. repo = registry @ (if CHR ''/'' \<in> set repo then ''/'' @ base else []) \<and> CHR ''/'' \<notin> set registry
          \<and> imageRedirect url scope =
              Ok [(''url'', DScalar (GStr newURL)), (''imagePullPolicy'', DScalar (GStr policy)), (''imagePullSecrets'', DStrs secrets),
                  (''repository'', DScalar (GStr repo)), (''tag'', DScalar (GStr tag)), (''registry'', DScalar (GStr registry)),
                  (''baseRepository'', DScalar (GStr base))])"
proof -
  have "map_of scope ''ImageRedirects'' = Some (ImageRedirectTable (imageRedirects cfg))"
    using assms(1) by (auto simp: BuildModel_def split: option.splits)
  moreover obtain table where t: "asDList (Some (ImageRedirectTable (imageRedirects cfg))) = Some table" by (simp add: ImageRedirectTable_def)
  ultimately have i: "asDList (map_of scope ''ImageRedirects'') = Some table" "redirectLoop url 0 table = Ok (newURL, policy, secrets)"
    using redirectLoop_table [OF t] assms(2) by simp_all
  show ?thesis
  proof (cases "DecodeImageUrl newURL")
    case (Inl e)
    then show ?thesis using i by (simp add: imageRedirect_def rbind_def)
  next
    case (Inr r)
    obtain repo tag where r: "r = (repo, tag)" by (cases r)
    let ?sa = "Split CHR ''/'' repo"
    have s: "CHR ''/'' \<in> set repo \<longleftrightarrow> tl ?sa \<noteq> []" "CHR ''/'' \<notin> set (hd ?sa)" using Split_parts [of "CHR ''/''" repo] by simp_all
    then show ?thesis using i Inr r registry_and_rest [of repo] by (auto simp: imageRedirect_def rbind_def Let_def)
  qed
qed

definition mirror_configuration :: configuration where
  "mirror_configuration = empty_configuration\<lparr>imageRedirects :=
     [\<lparr>ir_OldPrefix = ''docker.io/'', ir_NewPrefix = '''', ir_ImagePullPolicy = ''Always'', ir_ImagePullSecrets = []\<rparr>,
      \<lparr>ir_OldPrefix = ''quay.io/'', ir_NewPrefix = ''mirror:5000/q/'', ir_ImagePullPolicy = '''', ir_ImagePullSecrets = [''pull'']\<rparr>,
      \<lparr>ir_OldPrefix = ''quay.io/kubo/'', ir_NewPrefix = ''never'', ir_ImagePullPolicy = '''', ir_ImagePullSecrets = []\<rparr>]\<rparr>"

theorem imageRedirect_first_match_witness:
  "imageRedirect ''quay.io/kubo/podinfo:6.7.1''
     [(''Context'', DMap []), (''Parameters'', DNilMap), (''Release'', DMap []), (''ImageRedirects'', ImageRedirectTable (imageRedirects mirror_configuration))]
   = Ok [(''url'', DScalar (GStr ''mirror:5000/q/kubo/podinfo:6.7.1'')), (''imagePullPolicy'', DScalar (GStr '''')), (''imagePullSecrets'', DStrs [''pull'']),
         (''repository'', DScalar (GStr ''mirror:5000/q/kubo/podinfo'')), (''tag'', DScalar (GStr ''6.7.1'')),
         (''registry'', DScalar (GStr ''mirror:5000'')), (''baseRepository'', DScalar (GStr ''q/kubo/podinfo''))]"
proof -
  have b: "BuildModel (\<lambda>_. Some []) mirror_configuration [] None sample_release
      = Ok [(''Context'', DMap []), (''Parameters'', DNilMap), (''Release'', DMap []), (''ImageRedirects'', ImageRedirectTable (imageRedirects mirror_configuration))]"
    by (simp add: BuildModel_def)
  have r: "redirected (imageRedirects mirror_configuration) ''quay.io/kubo/podinfo:6.7.1'' = (''mirror:5000/q/kubo/podinfo:6.7.1'', '''', [''pull''])"
    by (simp add: mirror_configuration_def redirected_def HasPrefix_def)
  have d: "DecodeImageUrl ''mirror:5000/q/kubo/podinfo:6.7.1'' = Ok (''mirror:5000/q/kubo/podinfo'', ''6.7.1'')"
    by (simp add: DecodeImageUrl_def HasPrefix_def)
  have u: "registry = ''mirror:5000'' \<and> base = ''q/kubo/podinfo''"
    if "''mirror:5000/q/kubo/podinfo'' = registry @ ''/'' @ base" "CHR ''/'' \<notin> set registry" for registry base
  proof -
    have "Split CHR ''/'' ''mirror:5000/q/kubo/podinfo'' = Split CHR ''/'' (registry @ ''/'' @ base)" by (rule arg_cong [OF that(1)])
    also have "\<dots> = registry # Split CHR ''/'' base" using that(2) by (simp add: Split_append_sep)
    finally have s: "Split CHR ''/'' base = [''q'', ''kubo'', ''podinfo'']" "registry = ''mirror:5000''" by auto
    show ?thesis using Join_Split [of "CHR ''/''" base] s by simp
  qed
  from imageRedirect_first_match [OF b r] show ?thesis unfolding d using u by auto
qed

end
