(* ===== verification/Archive.thy ===== *)
theory Archive
  imports Prelude Words
begin

text \<open>
  \<open>internal/archiveio\<close>: a reader of compressed archives that counts what it decompresses, holds, lists and reads as metadata against the limits it is given. The
  counters are 64-bit integers. The decompressed input and the tar reader are parameters: a read of at most \<open>n\<close> bytes returns bytes, an error or both, and the rest of
  the input.
\<close>

section \<open>Limits\<close>

record Limits =
  lm_StreamSize :: "64 word"
  lm_ContentSize :: "64 word"
  lm_Entries :: "64 word"
  lm_MetadataSize :: "64 word"
  lm_ListingSize :: "64 word"
  lm_Disabled :: bool

datatype archive_error =
    EOF
  | UnexpectedEOF
  | Other string
  | BoundInvalid string
  | EntriesInvalid
  | LimitExceeded string
  | ReadArchive archive_error
  | AfterEnd

definition Defaults :: Limits where
  "Defaults = \<lparr>lm_StreamSize = 47087616, lm_ContentSize = 40 * 2 ^ 20, lm_Entries = 1000, lm_MetadataSize = 2 ^ 20, lm_ListingSize = 2 ^ 20, lm_Disabled = False\<rparr>"

definition checkBound :: "unit \<Rightarrow> string \<times> 64 word \<Rightarrow> (archive_error, unit) result" where
  "checkBound _ bound =
     (if sint (snd bound) < 1 \<or> sint (snd bound) > 4611686018427387903 then Err (BoundInvalid (fst bound)) else Ok ())"

definition Limits_Validate :: "Limits \<Rightarrow> (archive_error, unit) result" where
  "Limits_Validate l =
     rbind (rfold checkBound ()
              [(''maxArchiveStreamSize'', lm_StreamSize l), (''maxArchiveContentSize'', lm_ContentSize l),
               (''maxArchiveMetadataSize'', lm_MetadataSize l), (''maxArchiveListingSize'', lm_ListingSize l)])
       (\<lambda>_. if sint (lm_Entries l) < 1 \<or> sint (lm_Entries l) > 1048576 then Err EntriesInvalid else Ok ())"

text \<open>The variadic options: the limits that the first one points to, if any.\<close>

definition resolve :: "Limits option list \<Rightarrow> (archive_error, Limits) result" where
  "resolve options =
     (let l = (case options of Some given # _ \<Rightarrow> given | _ \<Rightarrow> Defaults) in rbind (Limits_Validate l) (\<lambda>_. Ok l))"

section \<open>The budget\<close>

record budget =
  bg_limits :: Limits
  bg_stream :: "64 word"
  bg_content :: "64 word"
  bg_entries :: "64 word"
  bg_metadata :: "64 word"
  bg_listing :: "64 word"

definition newBudget :: "Limits \<Rightarrow> budget" where
  "newBudget l = \<lparr>bg_limits = l, bg_stream = 0, bg_content = 0, bg_entries = 0, bg_metadata = 0, bg_listing = 0\<rparr>"

definition reserve :: "budget \<Rightarrow> 64 word \<Rightarrow> 64 word \<Rightarrow> 64 word \<Rightarrow> string \<Rightarrow> string \<Rightarrow> (archive_error, 64 word) result" where
  "reserve b used n most what unit =
     (if lm_Disabled (bg_limits b) then Ok used
      else if sint n < 0 \<or> sint n > sint (most - used) then Err (LimitExceeded (what @ Itoa (sint most) @ unit))
      else Ok (used + n))"

definition reserveStream :: "budget \<Rightarrow> 64 word \<Rightarrow> (archive_error, budget) result" where
  "reserveStream b n = rbind (reserve b (bg_stream b) n (lm_StreamSize (bg_limits b)) ''archive decompressed stream exceeds '' '' bytes'') (\<lambda>u. Ok (b\<lparr>bg_stream := u\<rparr>))"

definition reserveContent :: "budget \<Rightarrow> 64 word \<Rightarrow> (archive_error, budget) result" where
  "reserveContent b n = rbind (reserve b (bg_content b) n (lm_ContentSize (bg_limits b)) ''archive content exceeds '' '' bytes'') (\<lambda>u. Ok (b\<lparr>bg_content := u\<rparr>))"

definition reserveEntries :: "budget \<Rightarrow> 64 word \<Rightarrow> (archive_error, budget) result" where
  "reserveEntries b n = rbind (reserve b (bg_entries b) n (lm_Entries (bg_limits b)) ''archive entries exceed '' '''') (\<lambda>u. Ok (b\<lparr>bg_entries := u\<rparr>))"

definition reserveMetadata :: "budget \<Rightarrow> 64 word \<Rightarrow> (archive_error, budget) result" where
  "reserveMetadata b n = rbind (reserve b (bg_metadata b) n (lm_MetadataSize (bg_limits b)) ''archive metadata exceeds '' '' bytes'') (\<lambda>u. Ok (b\<lparr>bg_metadata := u\<rparr>))"

definition reserveListing :: "budget \<Rightarrow> 64 word \<Rightarrow> (archive_error, budget) result" where
  "reserveListing b n = rbind (reserve b (bg_listing b) n (lm_ListingSize (bg_limits b)) ''archive listing exceeds '' '' bytes'') (\<lambda>u. Ok (b\<lparr>bg_listing := u\<rparr>))"

section \<open>The decompressed stream\<close>

fun IsLimit :: "archive_error \<Rightarrow> bool" where
  "IsLimit (LimitExceeded _) = True"
| "IsLimit (ReadArchive e) = IsLimit e"
| "IsLimit _ = False"

definition archiveError :: "archive_error \<Rightarrow> archive_error" where
  "archiveError err = (if IsLimit err then err else ReadArchive err)"

type_synonym 'i input_read = "'i \<Rightarrow> nat \<Rightarrow> (string \<times> archive_error option) \<times> 'i"

record 'i streamReader =
  sr_input :: 'i
  sr_budget :: budget
  sr_requireEnd :: bool
  sr_pending :: "archive_error option"

definition atEnd :: "bool \<Rightarrow> archive_error \<Rightarrow> archive_error" where
  "atEnd requireEnd err = (if err = EOF \<and> requireEnd then UnexpectedEOF else err)"

text \<open>The buffer is cut to one byte more than what is left of a limit.\<close>

definition room :: "Limits \<Rightarrow> 64 word \<Rightarrow> 64 word \<Rightarrow> nat \<Rightarrow> nat" where
  "room l most used n =
     (let remaining = most - used
      in if lm_Disabled l then n else if int n > sint (remaining + 1) then nat (sint (remaining + 1)) else n)"

definition stream_Read :: "'i input_read \<Rightarrow> 'i streamReader \<Rightarrow> nat \<Rightarrow> (string \<times> archive_error option) \<times> 'i streamReader" where
  "stream_Read input_Read r n =
     (if n = 0 then (([], None), r)
      else case sr_pending r of
        Some err \<Rightarrow> (([], Some (atEnd (sr_requireEnd r) err)), r)
      | None \<Rightarrow>
          (let b = sr_budget r
           in case input_Read (sr_input r) (room (bg_limits b) (lm_StreamSize (bg_limits b)) (bg_stream b) n) of
                ((bytes, err), input) \<Rightarrow>
                  (case reserveStream b (of_nat (length bytes)) of
                     Inl limitErr \<Rightarrow> (([], Some limitErr), r\<lparr>sr_input := input\<rparr>)
                   | Inr b' \<Rightarrow>
                       if bytes \<noteq> [] then ((bytes, None), r\<lparr>sr_input := input, sr_budget := b', sr_pending := err\<rparr>)
                       else (([], map_option (atEnd (sr_requireEnd r)) err), r\<lparr>sr_input := input, sr_budget := b'\<rparr>))))"

text \<open>\<open>finish\<close>: what follows the end marker of the archive must be zeros. The error, if any, and the stream.\<close>

partial_function (option) drain :: "'i input_read \<Rightarrow> 'i streamReader \<Rightarrow> (archive_error option \<times> 'i streamReader) option" where
  "drain input_Read r =
     (case stream_Read input_Read r 32768 of
        ((bytes, err), r') \<Rightarrow>
          if list_ex (\<lambda>c. c \<noteq> CHR 0x00) bytes then Some (Some AfterEnd, r')
          else (case err of
                  None \<Rightarrow> drain input_Read r'
                | Some e \<Rightarrow> if e = EOF then Some (None, r') else Some (Some (archiveError e), r')))"

definition finish :: "'i input_read \<Rightarrow> 'i streamReader \<Rightarrow> (archive_error option \<times> 'i streamReader) option" where
  "finish input_Read r = drain input_Read (r\<lparr>sr_requireEnd := False\<rparr>)"

section \<open>Metadata\<close>

partial_function (option) readLoop :: "'i input_read \<Rightarrow> budget \<Rightarrow> string \<Rightarrow> 'i \<Rightarrow> ((archive_error, string) result \<times> 'i) option" where
  "readLoop input_Read b out input =
     (case input_Read input (room (bg_limits b) (lm_MetadataSize (bg_limits b)) (bg_metadata b) 32768) of
        ((bytes, err), input') \<Rightarrow>
          (case reserveMetadata b (of_nat (length bytes)) of
             Inl limitErr \<Rightarrow> Some (Err limitErr, input')
           | Inr b' \<Rightarrow>
               (case err of
                  None \<Rightarrow> readLoop input_Read b' (out @ bytes) input'
                | Some e \<Rightarrow> if e = EOF then Some (Ok (out @ bytes), input') else Some (Err e, input'))))"

definition ReadMetadata :: "'i input_read \<Rightarrow> 'i \<Rightarrow> 64 word \<Rightarrow> Limits option list \<Rightarrow> ((archive_error, string) result \<times> 'i) option" where
  "ReadMetadata input_Read input declared options =
     (case resolve options of
        Inl e \<Rightarrow> Some (Err e, input)
      | Inr limits \<Rightarrow>
          (case reserveMetadata (newBudget limits) declared of
             Inl e \<Rightarrow> Some (Err e, input)
           | Inr b \<Rightarrow> readLoop input_Read (b\<lparr>bg_metadata := 0\<rparr>) [] input))"

section \<open>Entries\<close>

text \<open>
  A path that \<open>path.Clean\<close> returns: whether it starts at the root, and its elements. The path \<open>.\<close> has none, and \<open>path.Dir\<close> of a clean path drops the last one.
\<close>

type_synonym clean_path = "bool \<times> string list"

fun cleanElems :: "bool \<Rightarrow> string list \<Rightarrow> string list \<Rightarrow> string list" where
  "cleanElems rooted done [] = done"
| "cleanElems rooted done (e # es) =
     (if e = '''' \<or> e = ''.'' then cleanElems rooted done es
      else if e = ''..'' \<and> done \<noteq> [] \<and> last done \<noteq> ''..'' then cleanElems rooted (butlast done) es
      else if e = ''..'' \<and> rooted then cleanElems rooted done es
      else cleanElems rooted (done @ [e]) es)"

definition Clean :: "string \<Rightarrow> clean_path" where
  "Clean p = (HasPrefix p ''/'', cleanElems (HasPrefix p ''/'') [] (Split CHR ''/'' p))"

record tar_header =
  th_Name :: string
  th_Size :: "64 word"
  th_isDir :: bool

record ('t, 'i) Reader =
  rd_tar :: 't
  rd_stream :: "'i streamReader"
  rd_directories :: "clean_path list"
  rd_current :: "tar_header option"
  rd_done :: bool
  rd_failure :: "archive_error option"

text \<open>The loop over the parents of a name, from the nearest one: it stops at the first that is known. The elements are given last first.\<close>

fun accountParents :: "bool \<Rightarrow> string list \<Rightarrow> budget \<Rightarrow> clean_path list \<Rightarrow> archive_error option \<times> budget \<times> clean_path list" where
  "accountParents rooted [] b dirs = (None, b, dirs)"
| "accountParents rooted (e # es) b dirs =
     (if (rooted, rev (e # es)) \<in> set dirs then (None, b, dirs)
      else case reserveEntries b 1 of
             Inl err \<Rightarrow> (Some err, b, dirs)
           | Inr b' \<Rightarrow> accountParents rooted es b' ((rooted, rev (e # es)) # dirs))"

definition account :: "('t, 'i) Reader \<Rightarrow> tar_header \<Rightarrow> archive_error option \<times> ('t, 'i) Reader" where
  "account r h =
     (let put = (\<lambda>b. r\<lparr>rd_stream := (rd_stream r)\<lparr>sr_budget := b\<rparr>\<rparr>)
      in case reserveContent (sr_budget (rd_stream r)) (th_Size h) of
        Inl err \<Rightarrow> (Some err, r)
      | Inr b1 \<Rightarrow>
          (case reserveEntries b1 1 of
             Inl err \<Rightarrow> (Some err, put b1)
           | Inr b2 \<Rightarrow>
               if lm_Disabled (bg_limits b2) then (None, put b2)
               else let name = Clean (th_Name h)
                    in case accountParents (fst name) (tl (rev (snd name))) b2 (rd_directories r) of
                         (Some err, b3, dirs) \<Rightarrow> (Some err, (put b3)\<lparr>rd_directories := dirs\<rparr>)
                       | (None, b3, dirs) \<Rightarrow> (None, (put b3)\<lparr>rd_directories := (if th_isDir h then name # dirs else dirs)\<rparr>)))"

text \<open>\<open>tar_Next\<close> is the tar reader over the stream: the next header or an error. A nil header with \<open>io.EOF\<close> is \<open>Err EOF\<close>.\<close>

definition Next ::
  "'i input_read \<Rightarrow> ('t \<Rightarrow> 'i streamReader \<Rightarrow> (archive_error, tar_header) result \<times> 't \<times> 'i streamReader) \<Rightarrow> ('t, 'i) Reader
   \<Rightarrow> ((archive_error, tar_header) result \<times> ('t, 'i) Reader) option" where
  "Next input_Read tar_Next r =
     (case rd_failure r of
        Some err \<Rightarrow> Some (Err err, r)
      | None \<Rightarrow>
          if rd_done r then Some (Err EOF, r)
          else case tar_Next (rd_tar r) (rd_stream r) of
                 (res, t, s) \<Rightarrow>
                   (let r1 = r\<lparr>rd_tar := t, rd_stream := s\<rparr>
                    in case res of
                         Inl err \<Rightarrow>
                           if err = EOF
                           then map_option (\<lambda>(e, s'). case e of
                                  Some e' \<Rightarrow> (Err e', r1\<lparr>rd_stream := s', rd_failure := Some e'\<rparr>)
                                | None \<Rightarrow> (Err EOF, r1\<lparr>rd_stream := s', rd_done := True\<rparr>)) (finish input_Read s)
                           else Some (Err (archiveError err), r1\<lparr>rd_failure := Some (archiveError err)\<rparr>)
                       | Inr h \<Rightarrow>
                           (case account r1 h of
                              (Some err, r2) \<Rightarrow> Some (Err err, r2\<lparr>rd_failure := Some err\<rparr>)
                            | (None, r2) \<Rightarrow> Some (Ok h, r2\<lparr>rd_current := Some h\<rparr>))))"

section \<open>Lemmas on the budget\<close>

lemma reserve_exact:
  assumes "\<not> lm_Disabled (bg_limits b)" "0 \<le> sint used" "sint used \<le> sint most"
  shows "reserve b used n most what unit =
    (if 0 \<le> sint n \<and> sint used + sint n \<le> sint most then Ok (used + n) else Err (LimitExceeded (what @ Itoa (sint most) @ unit)))"
    and "0 \<le> sint n \<Longrightarrow> sint used + sint n \<le> sint most \<Longrightarrow> sint (used + n) = sint used + sint n"
proof -
  have r: "sint most < 2 ^ 63" using sint_range by blast
  have "sint (most - used) = sint most - sint used" using assms r by (intro sint_sub) auto
  then show "reserve b used n most what unit =
    (if 0 \<le> sint n \<and> sint used + sint n \<le> sint most then Ok (used + n) else Err (LimitExceeded (what @ Itoa (sint most) @ unit)))"
    using assms(1) by (auto simp: reserve_def)
  show "0 \<le> sint n \<Longrightarrow> sint used + sint n \<le> sint most \<Longrightarrow> sint (used + n) = sint used + sint n"
    using assms r by (intro sint_add) auto
qed

definition bound_ok :: "64 word \<Rightarrow> bool" where
  "bound_ok w \<longleftrightarrow> 1 \<le> sint w \<and> sint w \<le> 4611686018427387903"

lemma room_exact:
  assumes "\<not> lm_Disabled l" "bound_ok most" "0 \<le> sint used" "sint used \<le> sint most"
  shows "room l most used n = min n (nat (sint most - sint used + 1))"
proof -
  have d: "sint (most - used) = sint most - sint used" using assms by (intro sint_sub) (auto simp: bound_ok_def)
  have "sint (most - used + 1) = sint (most - used) + sint (1 :: 64 word)"
    using assms d by (intro sint_add) (auto simp: bound_ok_def)
  then show ?thesis using assms d by (auto simp: room_def Let_def min_def)
qed

section \<open>Lemmas on reading\<close>

text \<open>The contract of an \<open>io.Reader\<close>: at most as many bytes as asked for, and at least one byte or an error.\<close>

definition reader_contract :: "'i input_read \<Rightarrow> bool" where
  "reader_contract input_Read \<longleftrightarrow>
     (\<forall>i n. case input_Read i n of ((bytes, err), _) \<Rightarrow> length bytes \<le> n \<and> (0 < n \<longrightarrow> bytes \<noteq> [] \<or> err \<noteq> None))"

text \<open>What an input delivers by a number of reads, up to its first error.\<close>

inductive delivers :: "'i input_read \<Rightarrow> 'i \<Rightarrow> string \<Rightarrow> archive_error option \<Rightarrow> 'i \<Rightarrow> bool"
  for input_Read :: "'i input_read" where
  last: "input_Read i n = ((bytes, err), i') \<Longrightarrow> delivers input_Read i bytes err i'"
| more: "input_Read i n = ((bytes, None), i') \<Longrightarrow> delivers input_Read i' rest err i'' \<Longrightarrow> delivers input_Read i (bytes @ rest) err i''"

definition metadataLimit :: "Limits \<Rightarrow> archive_error" where
  "metadataLimit l = LimitExceeded (''archive metadata exceeds '' @ Itoa (sint (lm_MetadataSize l)) @ '' bytes'')"

definition metadata_result :: "Limits \<Rightarrow> string \<Rightarrow> archive_error option \<Rightarrow> (archive_error, string) result \<Rightarrow> bool" where
  "metadata_result l bytes err res \<longleftrightarrow>
     (if int (length bytes) \<le> sint (lm_MetadataSize l)
      then err = Some EOF \<and> res = Ok bytes \<or> (\<exists>e. err = Some e \<and> e \<noteq> EOF \<and> res = Err e)
      else int (length bytes) = sint (lm_MetadataSize l) + 1
           \<and> res = Err (metadataLimit l))"

lemma readLoop_exact:
  assumes contract: "reader_contract input_Read"
    and "\<not> lm_Disabled (bg_limits b)" "bound_ok (lm_MetadataSize (bg_limits b))"
    and "int (length out) = sint (bg_metadata b)" "sint (bg_metadata b) \<le> sint (lm_MetadataSize (bg_limits b))"
  shows "\<exists>res bytes err input'. readLoop input_Read b out input = Some (res, input') \<and> delivers input_Read input bytes err input'
    \<and> metadata_result (bg_limits b) (out @ bytes) err res"
  using assms(2-)
proof (induction "nat (sint (lm_MetadataSize (bg_limits b)) - sint (bg_metadata b))" arbitrary: b out input rule: less_induct)
  case less
  let ?most = "lm_MetadataSize (bg_limits b)" and ?used = "bg_metadata b"
  let ?n = "room (bg_limits b) ?most ?used 32768"
  obtain bytes err input1 where r: "input_Read input ?n = ((bytes, err), input1)" by (metis prod.exhaust)
  have d: "delivers input_Read input bytes err input1" using delivers.last [of input_Read input ?n bytes err input1] r by blast
  have used: "0 \<le> sint ?used" using less.prems(3) by linarith
  have n: "?n = min 32768 (nat (sint ?most - sint ?used + 1))" using room_exact less.prems used by blast
  have c: "length bytes \<le> ?n" "bytes \<noteq> [] \<or> err \<noteq> None"
    using contract r less.prems n by (auto simp: reader_contract_def dest!: spec [of _ input] spec [of _ ?n])
  have k: "sint (of_nat (length bytes) :: 64 word) = int (length bytes)" using c n by (intro sint_of_nat) auto
  show ?case
  proof (cases "sint ?used + int (length bytes) \<le> sint ?most")
    case False
    then have "int (length (out @ bytes)) = sint ?most + 1" using c(1) n less.prems by auto
    then have m: "metadata_result (bg_limits b) (out @ bytes) err (Err (metadataLimit (bg_limits b)))"
      by (simp add: metadata_result_def metadataLimit_def)
    have "readLoop input_Read b out input = Some (Err (metadataLimit (bg_limits b)), input1)"
      using r k False less.prems used by (subst readLoop.simps) (simp add: reserveMetadata_def reserve_exact rbind_def metadataLimit_def)
    then show ?thesis using m d by blast
  next
    case True
    let ?b = "b\<lparr>bg_metadata := ?used + of_nat (length bytes)\<rparr>"
    have u: "sint (?used + of_nat (length bytes)) = sint ?used + int (length bytes)"
      using reserve_exact(2) [of b ?used ?most "of_nat (length bytes)"] k True less.prems used by simp
    have step: "readLoop input_Read b out input =
        (case err of None \<Rightarrow> readLoop input_Read ?b (out @ bytes) input1
         | Some e \<Rightarrow> if e = EOF then Some (Ok (out @ bytes), input1) else Some (Err e, input1))"
      using r k True less.prems used by (subst readLoop.simps) (simp add: reserveMetadata_def reserve_exact rbind_def)
    show ?thesis
    proof (cases err)
      case (Some e)
      then show ?thesis using step d True less.prems
        by (auto simp: metadata_result_def)
    next
      case None
      then have "0 < int (length bytes)" using c(2) by (simp only: of_nat_0_less_iff length_greater_0_conv) simp
      then have "sint ?used < sint (bg_metadata ?b)" "sint (bg_metadata ?b) \<le> sint ?most" using u True by simp_all
      then have "nat (sint ?most - sint (bg_metadata ?b)) < nat (sint ?most - sint ?used)" by linarith
      then obtain res rest err' input' where
        "readLoop input_Read ?b (out @ bytes) input1 = Some (res, input')" "delivers input_Read input1 rest err' input'"
        "metadata_result (bg_limits b) ((out @ bytes) @ rest) err' res"
        using less.hyps [of ?b "out @ bytes" input1] less.prems u True by auto
      then show ?thesis using step None r delivers.more [of input_Read input ?n bytes input1 rest err' input'] by auto
    qed
  qed
qed

text \<open>The check of what follows the archive ends too: it reads at most one byte beyond the limit of the stream.\<close>

definition stream_within :: "budget \<Rightarrow> bool" where
  "stream_within b \<longleftrightarrow> \<not> lm_Disabled (bg_limits b) \<and> bound_ok (lm_StreamSize (bg_limits b)) \<and> 0 \<le> sint (bg_stream b)
     \<and> sint (bg_stream b) \<le> sint (lm_StreamSize (bg_limits b))"

lemma stream_Read_progress:
  assumes "reader_contract input_Read" "stream_within (sr_budget r)" "0 < n" "n < 2 ^ 62" "stream_Read input_Read r n = ((bytes, err), r')"
  shows "stream_within (sr_budget r') \<and> bg_limits (sr_budget r') = bg_limits (sr_budget r)
    \<and> (err = None \<longrightarrow> sint (bg_stream (sr_budget r)) < sint (bg_stream (sr_budget r')))"
proof (cases "sr_pending r")
  case None
  let ?b = "sr_budget r"
  let ?m = "room (bg_limits ?b) (lm_StreamSize (bg_limits ?b)) (bg_stream ?b) n"
  obtain given e i where g: "input_Read (sr_input r) ?m = ((given, e), i)" by (metis prod.exhaust)
  have w: "\<not> lm_Disabled (bg_limits ?b)" "bound_ok (lm_StreamSize (bg_limits ?b))" "0 \<le> sint (bg_stream ?b)"
    "sint (bg_stream ?b) \<le> sint (lm_StreamSize (bg_limits ?b))" using assms(2) by (simp_all add: stream_within_def)
  have m: "0 < ?m" "?m \<le> n" using room_exact [OF w, of n] assms(3) w by auto
  have c: "length given \<le> ?m" "given \<noteq> [] \<or> e \<noteq> None"
    using assms(1) g m by (auto simp: reader_contract_def dest!: spec [of _ "sr_input r"] spec [of _ ?m])
  have k: "sint (of_nat (length given) :: 64 word) = int (length given)" using c m assms(4) by (intro sint_of_nat) auto
  have s: "sint (bg_stream ?b + of_nat (length given)) = sint (bg_stream ?b) + int (length given)"
    if "sint (bg_stream ?b) + int (length given) \<le> sint (lm_StreamSize (bg_limits ?b))"
    using reserve_exact(2) [of ?b "bg_stream ?b" "lm_StreamSize (bg_limits ?b)" "of_nat (length given)"] k that w by simp
  show ?thesis
  proof (cases "sint (bg_stream ?b) + int (length given) \<le> sint (lm_StreamSize (bg_limits ?b))")
    case True
    have p: "given = [] \<or> sint (bg_stream ?b) < sint (bg_stream ?b + of_nat (length given))" using s [OF True] by (cases given) auto
    have q: "0 \<le> sint (bg_stream ?b + of_nat (length given))" "sint (bg_stream ?b + of_nat (length given)) \<le> sint (lm_StreamSize (bg_limits ?b))"
      using s [OF True] True w by auto
    have "reserveStream ?b (of_nat (length given)) = Ok (?b\<lparr>bg_stream := bg_stream ?b + of_nat (length given)\<rparr>)"
      using True k w by (simp add: reserveStream_def reserve_exact rbind_def)
    then show ?thesis using assms(3,5) None g w(1,2) p q c(2) by (auto simp: stream_Read_def Let_def stream_within_def split: if_splits)
  next
    case False
    then show ?thesis using assms(2,3,5) None g k w
      by (auto simp: stream_Read_def Let_def reserveStream_def reserve_exact rbind_def)
  qed
qed (use assms in \<open>auto simp: stream_Read_def\<close>)

lemma drain_returns:
  assumes "reader_contract input_Read" "stream_within (sr_budget r)"
  shows "\<exists>res. drain input_Read r = Some res"
  using assms(2)
proof (induction "nat (sint (lm_StreamSize (bg_limits (sr_budget r))) - sint (bg_stream (sr_budget r)))" arbitrary: r rule: less_induct)
  case less
  obtain bytes err r' where s: "stream_Read input_Read r 32768 = ((bytes, err), r')" by (metis prod.exhaust)
  have p: "stream_within (sr_budget r')" "bg_limits (sr_budget r') = bg_limits (sr_budget r)"
    "err = None \<Longrightarrow> sint (bg_stream (sr_budget r)) < sint (bg_stream (sr_budget r'))"
    using stream_Read_progress [OF assms(1) less.prems _ _ s] by simp_all
  show ?case
  proof (cases err)
    case None
    have "sint (bg_stream (sr_budget r')) \<le> sint (lm_StreamSize (bg_limits (sr_budget r')))" using p(1) by (simp add: stream_within_def)
    then have "nat (sint (lm_StreamSize (bg_limits (sr_budget r'))) - sint (bg_stream (sr_budget r')))
        < nat (sint (lm_StreamSize (bg_limits (sr_budget r))) - sint (bg_stream (sr_budget r)))"
      using p(2) p(3) [OF None] by simp
    then show ?thesis using less.hyps [of r'] p(1) s None by (subst drain.simps) simp
  qed (use s in \<open>subst drain.simps; simp\<close>)
qed

lemma finish_returns:
  assumes "reader_contract input_Read" "stream_within (sr_budget r)"
  shows "\<exists>res. finish input_Read r = Some res"
  using drain_returns [OF assms(1), of "r\<lparr>sr_requireEnd := False\<rparr>"] assms(2) by (simp add: finish_def)

text \<open>Every directory that an entry implies is counted once, and the count of entries stays within its limit.\<close>

lemma accountParents_counts:
  assumes "accountParents rooted es b dirs = (err, b', dirs')" "\<not> lm_Disabled (bg_limits b)"
    "0 \<le> sint (bg_entries b)" "sint (bg_entries b) \<le> sint (lm_Entries (bg_limits b))"
  shows "bg_limits b' = bg_limits b \<and> sint (bg_entries b') = sint (bg_entries b) + (int (length dirs') - int (length dirs))
    \<and> sint (bg_entries b') \<le> sint (lm_Entries (bg_limits b))"
  using assms
proof (induction rooted es b dirs rule: accountParents.induct)
  case (2 rooted e es b dirs)
  have one: "reserveEntries b 1 = (if sint (bg_entries b) + 1 \<le> sint (lm_Entries (bg_limits b)) then Ok (b\<lparr>bg_entries := bg_entries b + 1\<rparr>)
      else Err (LimitExceeded (''archive entries exceed '' @ Itoa (sint (lm_Entries (bg_limits b))) @ '''')))"
    using 2 reserve_exact(1) [of b "bg_entries b" "lm_Entries (bg_limits b)" 1] by (simp add: reserveEntries_def rbind_def)
  have s: "sint (bg_entries b) + 1 \<le> sint (lm_Entries (bg_limits b)) \<Longrightarrow> sint (bg_entries b + 1) = sint (bg_entries b) + 1"
    using 2 reserve_exact(2) [of b "bg_entries b" "lm_Entries (bg_limits b)" 1] by simp
  show ?case using 2 one s by (auto split: if_splits)
qed simp

lemma resolve_ok:
  assumes "resolve options = Ok l"
  shows "bound_ok (lm_StreamSize l) \<and> bound_ok (lm_ContentSize l) \<and> bound_ok (lm_MetadataSize l) \<and> bound_ok (lm_ListingSize l)
    \<and> 1 \<le> sint (lm_Entries l) \<and> sint (lm_Entries l) \<le> 1048576"
  using assms by (auto simp: resolve_def Limits_Validate_def checkBound_def rbind_def bound_ok_def Let_def split: sum.splits if_splits)

text \<open>C29: \<open>ReadMetadata\<close> returns on every input that keeps the contract of a reader, however long the input is, unless the limits are disabled. What it returns is
  the input up to its end when that is within the limit, or the error of the input; otherwise the limit is reported, after exactly one byte more than the
  limit was taken from the input. A declared size beyond the limit is refused before anything is read.\<close>

theorem ReadMetadata_bounded:
  assumes "reader_contract input_Read" "resolve options = Ok l" "\<not> lm_Disabled l"
  shows "if 0 \<le> sint declared \<and> sint declared \<le> sint (lm_MetadataSize l)
    then \<exists>res bytes err input'. ReadMetadata input_Read input declared options = Some (res, input')
           \<and> delivers input_Read input bytes err input' \<and> metadata_result l bytes err res
    else ReadMetadata input_Read input declared options = Some (Err (metadataLimit l), input)"
proof -
  have l: "bound_ok (lm_MetadataSize l)" using resolve_ok [OF assms(2)] by blast
  let ?b = "newBudget l"
  have r: "reserveMetadata ?b declared =
     (if 0 \<le> sint declared \<and> sint declared \<le> sint (lm_MetadataSize l) then Ok (?b\<lparr>bg_metadata := declared\<rparr>)
      else Err (metadataLimit l))"
    using reserve_exact [of ?b 0 "lm_MetadataSize l" declared] l assms(3)
    by (simp add: reserveMetadata_def newBudget_def bound_ok_def rbind_def metadataLimit_def)
  have "\<exists>res bytes err input'. readLoop input_Read (?b\<lparr>bg_metadata := 0\<rparr>) [] input = Some (res, input')
      \<and> delivers input_Read input bytes err input' \<and> metadata_result l bytes err res"
    using readLoop_exact [OF assms(1), of "?b\<lparr>bg_metadata := 0\<rparr>" "[]" input] l assms(3) by (simp add: newBudget_def bound_ok_def)
  then show ?thesis using r assms(2) by (simp add: ReadMetadata_def)
qed

text \<open>An input of known bytes, which ends with \<open>io.EOF\<close>.\<close>

definition bytesRead :: "string input_read" where
  "bytesRead i n = (if i = [] then (([], Some EOF), []) else ((take n i, None), drop n i))"

theorem ReadMetadata_bounded_witness:
  "\<exists>res bytes err input'. ReadMetadata bytesRead ''name: podinfo'' 13 [None] = Some (res, input')
     \<and> delivers bytesRead ''name: podinfo'' bytes err input' \<and> metadata_result Defaults bytes err res"
proof -
  have c: "reader_contract bytesRead" by (auto simp: reader_contract_def bytesRead_def)
  have d: "resolve [None] = Ok Defaults" "\<not> lm_Disabled Defaults"
    by (simp_all add: resolve_def Limits_Validate_def checkBound_def rbind_def Defaults_def)
  show ?thesis using ReadMetadata_bounded [OF c d, of 13 "''name: podinfo''"] by (simp add: Defaults_def)
qed

end
