(* ===== verification/ReleaseController.thy ===== *)
theory ReleaseController
  imports Parameters Conditions HelmReleases Outputs RoleStore Cache ContextController ReplicationController
begin

text \<open>
  \<open>release_controller.go\<close>: the reconciliation of a Release, which composes the sources, the package, the context, the parameters, the inputs, the
  rendering, the dependencies, the conditions, the HelmReleases and the outputs, and reports the outcome in the status of the Release and in the
  role store.

  The state holds what a reconciliation changes: the API server and the disk (in the world), the role store, the failed status updates and the
  package cache, with the Release that it works on, \<open>forceUpdate\<close> and \<open>op.roles\<close>. The steps of \<open>reconcile2\<close> return \<open>Inl\<close> the result of
  the reconciliation, or \<open>Inr\<close> what the next step uses. A nil map or list of a status is not distinguished from an empty one.
\<close>

section \<open>State\<close>

type_synonym ctrl_result = "(string, Duration) result"

record ('s, 't, 'g) rstate =
  rr_world :: "'s world"
  rr_roles :: roleStore
  rr_failures :: "(NamespacedName \<times> bool) list"
  rr_cache :: "('t, 'g) PckContainer cache"
  rr_release :: Release
  rr_force :: bool
  rr_opRoles :: "string list"

text \<open>The texts of the errors that the components give as values.\<close>

record rel_texts =
  rt_container :: "container_error \<Rightarrow> string"
  rt_param :: "param_error \<Rightarrow> string"
  rt_package :: "package_error \<Rightarrow> string"
  rt_ref :: "ref_error \<Rightarrow> string"
  rt_bim :: "bim_error \<Rightarrow> string"
  rt_context :: "compute_error \<Rightarrow> string"
  rt_limit :: "package_error \<Rightarrow> bool"

text \<open>
  The environment of a reconciliation: the API server, the disk and the fetch of packages (\<open>rv_ReadRevision\<close> to \<open>rv_LoadStatus\<close>), and the
  components with what they call. \<open>rv_versions\<close> are the two reads of the version of the configuration around the load of a package, \<open>rv_order\<close> the
  order in which the loop over the map of states visits them, \<open>rv_times\<close> the state of the contexts for each condition.
\<close>

record ('s, 't, 'g, 'env, 'ast, 'prog) rel_env =
  rv_Get :: "NamespacedName \<Rightarrow> 's \<Rightarrow> (api_err, Release) result \<times> 's"
  rv_Update :: "Release \<Rightarrow> 's \<Rightarrow> (api_err, unit) result \<times> 's"
  rv_StatusUpdate :: "Release \<Rightarrow> 's \<Rightarrow> (api_err, unit) result \<times> 's"
  rv_sections :: "(string \<times> string list) list"
  rv_config :: configuration
  rv_versions :: "64 word \<times> 64 word"
  rv_ServerRoot :: string
  rv_HelmRepoAdvAddr :: string
  rv_ReadRevision :: "string \<Rightarrow> 's \<Rightarrow> string \<times> 's"
  rv_WriteRevision :: "string \<Rightarrow> string \<Rightarrow> 's \<Rightarrow> (string, unit) result \<times> 's"
  rv_EnsureEmpty :: "string \<Rightarrow> 's \<Rightarrow> (string, unit) result \<times> 's"
  rv_Remove :: "string \<Rightarrow> 's \<Rightarrow> (string, unit) result \<times> 's"
  rv_Fetch :: "artifact \<Rightarrow> string \<Rightarrow> 's \<Rightarrow> (bool \<times> string, unit) result \<times> 's"
  rv_LoadPackage :: "string \<Rightarrow> 's \<Rightarrow> (string, 't Package \<times> int) result \<times> 's"
  rv_LoadStatus :: "string \<Rightarrow> 's \<Rightarrow> (string, PackageStatus \<times> int) result \<times> 's"
  rv_now :: "int \<times> int \<times> int"
  rv_oci :: "'s oci_env"
  rv_helmRepositories :: "('s, HelmRepository) kind_client"
  rv_hr :: "'s hr_env"
  rv_out :: "('s, 'g) out_env"
  rv_engine :: "'t engine"
  rv_params :: "'t param_env"
  rv_js :: "'g jsonschema"
  rv_dec :: decoders
  rv_contexts :: ctx_reader
  rv_unmarshal :: "JSON \<Rightarrow> (string, gmap option) result"
  rv_marshal :: "gmap \<Rightarrow> JSON option"
  rv_bim :: bim_helper
  rv_cel :: "('env, 'ast, 'prog) cel"
  rv_limits :: "ConditionLimits option"
  rv_times :: "nat \<Rightarrow> ctx_times"
  rv_condition :: "string \<Rightarrow> NamespacedName \<Rightarrow> (api_err, gmap) result"
  rv_order :: "states \<Rightarrow> states"
  rv_texts :: rel_texts

section \<open>Failed status updates\<close>

definition fail :: "NamespacedName \<Rightarrow> (NamespacedName \<times> bool) list \<Rightarrow> bool \<times> (NamespacedName \<times> bool) list" where
  "fail release failures = (map_of failures release = Some True, mput release True failures)"

definition clear :: "NamespacedName \<Rightarrow> (NamespacedName \<times> bool) list \<Rightarrow> (NamespacedName \<times> bool) list" where
  "clear release failures = mdel release failures"

section \<open>The report of an outcome\<close>

definition milliseconds :: "int \<Rightarrow> Duration" where
  "milliseconds n = n * 1000000"

definition onWorld :: "('s world \<Rightarrow> 'a \<times> 's world) \<Rightarrow> ('s, 't, 'g) rstate \<Rightarrow> 'a \<times> ('s, 't, 'g) rstate" where
  "onWorld f st = (case f (rr_world st) of (x, w) \<Rightarrow> (x, st\<lparr>rr_world := w\<rparr>))"

definition event :: "string \<Rightarrow> string \<Rightarrow> string \<Rightarrow> ('s, 't, 'g) rstate \<Rightarrow> ('s, 't, 'g) rstate" where
  "event kind reason message st = st\<lparr>rr_world := Event kind reason message (rr_world st)\<rparr>"

definition updateStatus ::
  "('s, 't, 'g, 'env, 'ast, 'prog) rel_env \<Rightarrow> NamespacedName \<Rightarrow> ReleasePhase \<Rightarrow> string \<Rightarrow> ('s, 't, 'g) rstate \<Rightarrow> ctrl_result \<times> ('s, 't, 'g) rstate" where
  "updateStatus env req phase message st0 =
     (let st = st0\<lparr>rr_roles := (if phase = ReleasePhaseReady then RegisterRelease req (rr_opRoles st0) (rr_roles st0)
                                else UnRegisterRelease req (rr_roles st0))\<rparr>;
          status = rl_Status (rr_release st)
      in if st_Phase status = phase \<and> st_Message status = message \<and> \<not> rr_force st then (Ok 0, st)
         else let release = (rr_release st)\<lparr>rl_Status := status\<lparr>st_Phase := phase, st_Message := message\<rparr>\<rparr>
              in case onWorld (call (rv_StatusUpdate env release)) (st\<lparr>rr_release := release\<rparr>) of
                   (Inl e, st1) \<Rightarrow>
                     (case fail req (rr_failures st1) of (again, failures) \<Rightarrow>
                        (if again then Err (''could not update the Release status: '' @ apiError (rv_sections env) e) else Ok (milliseconds 200),
                         st1\<lparr>rr_failures := failures\<rparr>))
                 | (Inr _, st1) \<Rightarrow> (Ok 0, st1\<lparr>rr_failures := clear req (rr_failures st1)\<rparr>))"

definition reportError ::
  "('s, 't, 'g, 'env, 'ast, 'prog) rel_env \<Rightarrow> NamespacedName \<Rightarrow> ReconcileError \<Rightarrow> ('s, 't, 'g) rstate \<Rightarrow> ctrl_result \<times> ('s, 't, 'g) rstate" where
  "reportError env req rErr st =
     (case updateStatus env req ReleasePhaseError (re_error rErr) st of
        (Inl _, st1) \<Rightarrow> (Err (re_error rErr), st1)
      | (Inr d, st1) \<Rightarrow>
          let st2 = (if re_eventReason rErr \<noteq> '''' then event ''Warning'' (re_eventReason rErr) (re_error rErr) st1 else st1)
          in (if re_fatal rErr then Ok d else Err (re_error rErr), st2))"

text \<open>A phase to wait in, checked again after 5 seconds.\<close>

definition waitAgain ::
  "('s, 't, 'g, 'env, 'ast, 'prog) rel_env \<Rightarrow> NamespacedName \<Rightarrow> ReleasePhase \<Rightarrow> string \<Rightarrow> ('s, 't, 'g) rstate \<Rightarrow> ctrl_result \<times> ('s, 't, 'g) rstate" where
  "waitAgain env req phase message st =
     (case updateStatus env req phase message st of
        (Inl e, st1) \<Rightarrow> (Err e, st1)
      | (Inr d, st1) \<Rightarrow> (Ok (if d > 0 then d else seconds 5), st1))"

section \<open>Steps\<close>

type_synonym ('s, 't, 'g, 'a) step = "('s, 't, 'g) rstate \<Rightarrow> (ctrl_result + 'a) \<times> ('s, 't, 'g) rstate"

definition andThen :: "('s, 't, 'g, 'a) step \<Rightarrow> ('a \<Rightarrow> ('s, 't, 'g, 'b) step) \<Rightarrow> ('s, 't, 'g, 'b) step" where
  "andThen m f st = (case m st of (Inl r, st') \<Rightarrow> (Inl r, st') | (Inr x, st') \<Rightarrow> f x st')"

definition next_step :: "'a \<Rightarrow> ('s, 't, 'g, 'a) step" where
  "next_step x st = (Inr x, st)"

definition leave :: "(('s, 't, 'g) rstate \<Rightarrow> ctrl_result \<times> ('s, 't, 'g) rstate) \<Rightarrow> ('s, 't, 'g, 'a) step" where
  "leave m st = apfst Inl (m st)"

definition modify :: "(('s, 't, 'g) rstate \<Rightarrow> ('s, 't, 'g) rstate) \<Rightarrow> ('s, 't, 'g, unit) step" where
  "modify f st = (Inr (), f st)"

definition orReport ::
  "('s, 't, 'g, 'env, 'ast, 'prog) rel_env \<Rightarrow> NamespacedName \<Rightarrow> (ReconcileError, 'a) result \<Rightarrow> ('s, 't, 'g, 'a) step" where
  "orReport env req r = (case r of Inl e \<Rightarrow> leave (reportError env req e) | Inr x \<Rightarrow> next_step x)"

text \<open>A call on the world whose error is reported, and a field of the status that is set, with \<open>forceUpdate\<close>, when it differs.\<close>

definition calling ::
  "('s, 't, 'g, 'env, 'ast, 'prog) rel_env \<Rightarrow> NamespacedName \<Rightarrow> ('s world \<Rightarrow> (ReconcileError, 'a) result \<times> 's world) \<Rightarrow> ('s, 't, 'g, 'a) step" where
  "calling env req f st = (case onWorld f st of (r, st1) \<Rightarrow> orReport env req r st1)"

definition track :: "(ReleaseStatus \<Rightarrow> 'a) \<Rightarrow> ('a \<Rightarrow> 'a \<Rightarrow> bool) \<Rightarrow> (('a \<Rightarrow> 'a) \<Rightarrow> ReleaseStatus \<Rightarrow> ReleaseStatus) \<Rightarrow> 'a \<Rightarrow> ('s, 't, 'g) rstate \<Rightarrow> ('s, 't, 'g) rstate" where
  "track get same upd v st =
     (if same v (get (rl_Status (rr_release st))) then st
      else st\<lparr>rr_release := (rr_release st)\<lparr>rl_Status := upd (\<lambda>_. v) (rl_Status (rr_release st))\<rparr>, rr_force := True\<rparr>)"

definition sameMap :: "('k \<times> 'v) list \<Rightarrow> ('k \<times> 'v) list \<Rightarrow> bool" where
  "sameMap a b \<longleftrightarrow> set a = set b"

section \<open>Deletion, and the finalizer\<close>

definition hasFinalizer :: "Release \<Rightarrow> bool" where
  "hasFinalizer release \<longleftrightarrow> FinalizerName \<in> set (om_Finalizers (rl_meta release))"

definition withFinalizers :: "(string list \<Rightarrow> string list) \<Rightarrow> Release \<Rightarrow> Release" where
  "withFinalizers f release = release\<lparr>rl_meta := (rl_meta release)\<lparr>om_Finalizers := f (om_Finalizers (rl_meta release))\<rparr>\<rparr>"

definition repositoryPath :: "Release \<Rightarrow> string" where
  "repositoryPath release = ''hr/'' @ om_Namespace (rl_meta release) @ ''/'' @ om_Name (rl_meta release)"

definition repositoryFolder :: "('s, 't, 'g, 'env, 'ast, 'prog) rel_env \<Rightarrow> Release \<Rightarrow> string" where
  "repositoryFolder env release = rv_ServerRoot env @ ''/'' @ repositoryPath release"

definition deleteRelease ::
  "('s, 't, 'g, 'env, 'ast, 'prog) rel_env \<Rightarrow> NamespacedName \<Rightarrow> ('s, 't, 'g) rstate \<Rightarrow> ctrl_result \<times> ('s, 't, 'g) rstate" where
  "deleteRelease env req st =
     (let st1 = st\<lparr>rr_roles := UnRegisterRelease req (rr_roles st), rr_failures := clear req (rr_failures st)\<rparr>; release = rr_release st
      in if \<not> hasFinalizer release then (Ok 0, st1)
         else (case onWorld (call (rv_Remove env (repositoryFolder env release))) st1 of (_, st2) \<Rightarrow>
                (case onWorld (deleteOutputClusterConnections (rv_out env) req) st2 of
                   (Inl e, st3) \<Rightarrow> (Err e, st3)
                 | (Inr _, st3) \<Rightarrow>
                     (case onWorld (call (rv_Update env (withFinalizers (removeAll FinalizerName) release))) st3 of
                        (Inl e, st4) \<Rightarrow> (Err (''could not remove the finalizer of the Release: '' @ apiError (rv_sections env) e), st4)
                      | (Inr _, st4) \<Rightarrow> (Ok 0, st4)))))"

definition addFinalizer ::
  "('s, 't, 'g, 'env, 'ast, 'prog) rel_env \<Rightarrow> ('s, 't, 'g) rstate \<Rightarrow> ctrl_result \<times> ('s, 't, 'g) rstate" where
  "addFinalizer env st =
     (case onWorld (call (rv_Update env (withFinalizers (\<lambda>l. l @ [FinalizerName]) (rr_release st)))) st of
        (Inl e, st1) \<Rightarrow> (Err (''could not add the finalizer to the Release: '' @ apiError (rv_sections env) e), st1)
      | (Inr _, st1) \<Rightarrow> (Ok 0, st1))"

section \<open>The sources and the package\<close>

definition sourceName :: "Release \<Rightarrow> string" where
  "sourceName release = ''kcd-'' @ om_Name (rl_meta release)"

text \<open>What a source has, or the phase to wait in. The OCIRepository that is used has an artifact.\<close>

definition orWait ::
  "('s, 't, 'g, 'env, 'ast, 'prog) rel_env \<Rightarrow> NamespacedName \<Rightarrow> ReleasePhase \<Rightarrow> 'a option \<times> string \<Rightarrow> ('s, 't, 'g, 'a) step" where
  "orWait env req phase = (\<lambda>(hit, waitMessage).
     (case hit of None \<Rightarrow> leave (updateStatus env req phase waitMessage) | Some x \<Rightarrow> next_step x))"

definition ociSource :: "('s, 't, 'g, 'env, 'ast, 'prog) rel_env \<Rightarrow> NamespacedName \<Rightarrow> ('s, 't, 'g, artifact) step" where
  "ociSource env req st =
     andThen (calling env req (handleOciRepository (rv_oci env) (rr_release st) (sourceName (rr_release st)))) (\<lambda>found.
     andThen (orWait env req ReleasePhaseWaitOci found) (\<lambda>ociRepository.
       case fo_Artifact ociRepository of None \<Rightarrow> leave (\<lambda>st. (Err ''panic: nil artifact'', st)) | Some art \<Rightarrow> next_step art)) st"

definition failed :: "string \<Rightarrow> bool \<Rightarrow> string \<Rightarrow> (string, 'a) result \<Rightarrow> (ReconcileError, 'a) result" where
  "failed what fatal reason r = wrap_err (\<lambda>e. NewReconcileError (what @ e) fatal reason) r"

definition fetchPackage :: "('s, 't, 'g, 'env, 'ast, 'prog) rel_env \<Rightarrow> NamespacedName \<Rightarrow> artifact \<Rightarrow> ('s, 't, 'g, unit) step" where
  "fetchPackage env req art st0 =
     (let folder = repositoryFolder env (rr_release st0)
      in case onWorld (call (rv_ReadRevision env folder)) st0 of (revisionCached, st) \<Rightarrow>
           if revisionCached = ar_Revision art then (Inr (), st)
           else andThen (calling env req (\<lambda>w. apfst (failed ''unable to clean helmRepoFolder: '' True ''LocalFS'') (call (rv_EnsureEmpty env folder) w))) (\<lambda>_.
                andThen (\<lambda>st. case onWorld (call (rv_Fetch env art folder)) st of
                            (Inr _, st1) \<Rightarrow> (Inr (), st1)
                          | (Inl (limit, e), st1) \<Rightarrow>
                              (case onWorld (call (rv_EnsureEmpty env folder)) st1 of (_, st2) \<Rightarrow>
                                 leave (reportError env req (NewReconcileError (''unable to fetch artifact: '' @ e) limit ''OCIRepository'')) st2)) (\<lambda>_.
                  calling env req (\<lambda>w. apfst (wrap_err (\<lambda>_. NewReconcileError (''writing '' @ squote (folder @ ''/revision.txt'')) False ''LocalFS''))
                    (call (rv_WriteRevision env folder (ar_Revision art)) w)))) st)"

definition helmSource :: "('s, 't, 'g, 'env, 'ast, 'prog) rel_env \<Rightarrow> NamespacedName \<Rightarrow> string \<Rightarrow> ('s, 't, 'g, HelmRepository) step" where
  "helmSource env req revision st =
     (let release = rr_release st; repoUrl = ''http://'' @ rv_HelmRepoAdvAddr env @ ''/'' @ repositoryPath release
      in andThen (calling env req (handleHelmRepository (rv_helmRepositories env) release (sourceName release) (sourceName release) revision repoUrl))
           (orWait env req ReleasePhaseWaitHelmRepo) st)"

text \<open>
  The package of the cache, or the one of the folder, kept in the cache when the version of the configuration did not change during the load. \<open>Set\<close>
  returns (\<open>Cache.Set_returns\<close>): the case \<open>None\<close> does not occur.
\<close>

definition packageKey :: "string \<Rightarrow> 64 word \<Rightarrow> string" where
  "packageKey revision v = revision @ ''#'' @ nat_digits (unat v)"

definition loadedPackage ::
  "('s, 't, 'g, 'env, 'ast, 'prog) rel_env \<Rightarrow> NamespacedName \<Rightarrow> string \<Rightarrow> ('s, 't, 'g, ('t, 'g) PckContainer \<times> int) step" where
  "loadedPackage env req revision st0 =
     (let folder = repositoryFolder env (rr_release st0); tx = rt_container (rv_texts env)
      in andThen (calling env req (\<lambda>w. apfst (failed ''error while parsing package original.yaml file: '' True ''OCIImage'') (call (rv_LoadPackage env folder) w)))
           (\<lambda>(pck, originalSize).
         andThen (calling env req (\<lambda>w. apfst (failed ''error while parsing status.yaml file: '' True ''OCIImage'') (call (rv_LoadStatus env folder) w)))
           (\<lambda>(status, statusSize).
         andThen (orReport env req (failed ''error while loading package from image: '' True ''OCIImage''
                    (wrap_err tx (SetPackage (rv_engine env) (rv_js env) (Some (rv_config env)) pck (Some status) revision))))
           (\<lambda>container. next_step (container, originalSize + statusSize)))) st0)"

definition thePackage :: "('s, 't, 'g, 'env, 'ast, 'prog) rel_env \<Rightarrow> NamespacedName \<Rightarrow> string \<Rightarrow> ('s, 't, 'g, ('t, 'g) PckContainer) step" where
  "thePackage env req revision st0 =
     (case rv_now env of (now, now1, now2) \<Rightarrow>
      (case rv_versions env of (configVersion, afterwards) \<Rightarrow>
       let key = packageKey revision configVersion
       in case Cache.Get now key (rr_cache st0) of (hit, cache1) \<Rightarrow>
            (case hit of
               Some container \<Rightarrow> (Inr container, st0\<lparr>rr_cache := cache1\<rparr>)
             | None \<Rightarrow>
                 andThen (loadedPackage env req revision) (\<lambda>(container, weight).
                   andThen (modify (\<lambda>st. if afterwards = configVersion
                                          then (case Cache.Set (now1, now2) key container weight (rr_cache st) of
                                                  None \<Rightarrow> st | Some cache2 \<Rightarrow> st\<lparr>rr_cache := cache2\<rparr>)
                                          else st)) (\<lambda>_. next_step container)) (st0\<lparr>rr_cache := cache1\<rparr>))))"

section \<open>The model, the inputs and the rendering\<close>

fun contextError :: "(compute_error \<Rightarrow> string) \<Rightarrow> compute_error \<Rightarrow> ReconcileError" where
  "contextError tx (ContextNotFound n) = NewReconcileError (tx (ContextNotFound n)) True ''ContextNotFound''"
| "contextError tx (ContextRetrieval e) = NewReconcileError (tx (ContextRetrieval e)) False ''ContextRetrieval''"
| "contextError tx (ContextInError n) = NewReconcileError (tx (ContextInError n)) True ''ContextRetrieval''"
| "contextError tx (ContextMerge m) = NewReconcileError (tx (ContextMerge m)) True ''ContextMerge''"

definition setProtected :: "('t, 'g) PckContainer \<Rightarrow> ('s, 't, 'g) rstate \<Rightarrow> ('s, 't, 'g) rstate" where
  "setProtected pck st =
     (let protected = (case rs_Protected (rl_Spec (rr_release st)) of None \<Rightarrow> pk_Protected (pc_Package pck) | Some b \<Rightarrow> b)
      in track st_PrintProtected (=) st_PrintProtected_update (Ternary protected ''X'' ''-'')
           (track st_Protected (=) st_Protected_update protected st))"

text \<open>The dump of the context, or of the parameters, when \<open>spec.debug\<close>, which the grooming sets, asks for it.\<close>

definition dumped ::
  "('s, 't, 'g, 'env, 'ast, 'prog) rel_env \<Rightarrow> NamespacedName \<Rightarrow> (ReleaseDebug \<Rightarrow> bool) \<Rightarrow> (ReleaseStatus \<Rightarrow> JSON option)
     \<Rightarrow> ((JSON option \<Rightarrow> JSON option) \<Rightarrow> ReleaseStatus \<Rightarrow> ReleaseStatus) \<Rightarrow> string \<Rightarrow> string \<Rightarrow> gmap \<Rightarrow> ('s, 't, 'g, unit) step" where
  "dumped env req wanted get upd what reason v st =
     (case rs_Debug (rl_Spec (rr_release st)) of
        None \<Rightarrow> (Inr (), st)
      | Some debug \<Rightarrow>
          if wanted debug
          then (case rv_marshal env v of
                  None \<Rightarrow> leave (reportError env req (NewReconcileError (''unable to marshal '' @ what) False reason)) st
                | Some raw \<Rightarrow> (Inr (), track get (\<lambda>_ _. False) upd (Some raw) st))
          else (Inr (), track get (=) upd None st))"

definition theContext ::
  "('s, 't, 'g, 'env, 'ast, 'prog) rel_env \<Rightarrow> NamespacedName \<Rightarrow> ('t, 'g) PckContainer \<Rightarrow> ('s, 't, 'g, gmap) step" where
  "theContext env req pck st0 =
     andThen (orReport env req (wrap_err (contextError (rt_context (rv_texts env)))
         (ComputeContext (rv_unmarshal env) (rv_contexts env) (rv_config env) (rr_release st0) (pc_DefaultContext pck)))) (\<lambda>(ctx, contextList).
     andThen (modify (track st_PrintContexts (=) st_PrintContexts_update (FlattenNamespacedNames contextList))) (\<lambda>_.
     andThen (dumped env req rd_DumpContext st_Context st_Context_update ''context'' ''ContextError'' ctx) (\<lambda>_.
     andThen (orReport env req (failed ''error while validating context: '' True ''Context''
         (wrap_err (rt_container (rv_texts env)) (ValidateContext (rv_js env) pck ctx)))) (\<lambda>_.
       next_step (if pc_ContextConnectionDecls pck = [] then ctx else DeepCopyTree ctx))))) st0"

definition theParameters ::
  "('s, 't, 'g, 'env, 'ast, 'prog) rel_env \<Rightarrow> NamespacedName \<Rightarrow> ('t, 'g) PckContainer \<Rightarrow> gmap \<Rightarrow> ('s, 't, 'g, gmap) step" where
  "theParameters env req pck ctx st0 =
     andThen (orReport env req (wrap_err (\<lambda>e. NewReconcileError (rt_param (rv_texts env) e) True ''Parameters'')
         (HandleParameters (rv_params env) (rv_js env) (rv_config env) pck ctx (rr_release st0)))) (\<lambda>parameters.
     andThen (dumped env req rd_DumpParameters st_Parameters st_Parameters_update ''parameters'' ''ParametersError'' parameters) (\<lambda>_.
       next_step parameters)) st0"

definition model_step ::
  "('s, 't, 'g, 'env, 'ast, 'prog) rel_env \<Rightarrow> NamespacedName \<Rightarrow> gmap \<Rightarrow> gmap \<Rightarrow> ('s, 't, 'g, (string \<times> tdata) list) step" where
  "model_step env req ctx parameters st =
     orReport env req (wrap_err (\<lambda>e. NewReconcileError (rt_param (rv_texts env) e) True ''Model'')
       (BuildModel (pe_toMap (rv_params env)) (rv_config env) ctx (Some parameters) (rr_release st))) st"

text \<open>The inputs of the package and those of the connection parameters, with the bindings of the latter.\<close>

definition theInputs ::
  "('s, 't, 'g, 'env, 'ast, 'prog) rel_env \<Rightarrow> NamespacedName \<Rightarrow> ('t, 'g) PckContainer \<Rightarrow> gmap \<Rightarrow> gmap \<Rightarrow> (string \<times> tdata) list
     \<Rightarrow> ('s, 't, 'g, InputRendered list \<times> RefBinding list) step" where
  "theInputs env req pck ctx parameters model st0 =
     (let ns = om_Namespace (rl_meta (rr_release st0))
      in andThen (orReport env req (wrap_err (\<lambda>e. NewReconcileError (rt_package (rv_texts env) e) True ''Inputs'')
             (RenderInputs (rv_engine env) (rv_dec env) (pc_Package pck) model ns))) (\<lambda>inputs.
         andThen (orReport env req (wrap_err (\<lambda>e. NewReconcileError (rt_ref (rv_texts env) e) True ''ConnectionParameters'')
             (GenerateRefInputs (pc_ParamConnectionDecls pck) (pc_ContextConnectionDecls pck) parameters ctx ns inputs))) (\<lambda>(generated, bindings).
           next_step (inputs @ generated, bindings))) st0)"

text \<open>The reference of an input without a connection, whose kind is empty in the code.\<close>

definition zero_ref :: InputConnectionReference where
  "zero_ref = \<lparr>ic_Kind = KindConnection, ic_Name = '''', ic_Namespace = ''''\<rparr>"

definition resolveInputs ::
  "('s, 't, 'g, 'env, 'ast, 'prog) rel_env \<Rightarrow> NamespacedName \<Rightarrow> InputRendered list \<Rightarrow> ('s, 't, 'g, BuildInputModelResult) step" where
  "resolveInputs env req inputs st0 =
     (case BuildInputModel (rv_bim env) inputs of
        (Some e, _) \<Rightarrow> leave (reportError env req (NewReconcileError (rt_bim (rv_texts env) e) False ''Inputs'')) st0
      | (None, res) \<Rightarrow>
          let st1 = track st_EffectiveInputConnections (=) st_EffectiveInputConnections_update
                      (map (\<lambda>r. case r of None \<Rightarrow> zero_ref | Some c \<Rightarrow> c) (br_Effective res))
                      (track st_WatchedInputConnections (=) st_WatchedInputConnections_update (br_Watched res) st0)
          in if br_Messages res \<noteq> []
             then leave (waitAgain env req ReleasePhaseWaitInputConnections (Join '' - '' (br_Messages res)))
                    (foldl (\<lambda>st m. event ''Warning'' ''MissingConnections'' m st) st1 (br_Messages res))
             else (Inr res, st1))"


text \<open>The resolved connections take the place of their names in the parameters and in the context, which the model shares.\<close>

definition renderAll ::
  "('s, 't, 'g, 'env, 'ast, 'prog) rel_env \<Rightarrow> NamespacedName \<Rightarrow> ('t, 'g) PckContainer \<Rightarrow> gmap \<Rightarrow> gmap \<Rightarrow> (string \<times> tdata) list
     \<Rightarrow> RefBinding list \<Rightarrow> BuildInputModelResult \<Rightarrow> ('s, 't, 'g, Rendered) step" where
  "renderAll env req pck ctx parameters model bindings res st0 =
     andThen (orReport env req (wrap_err (\<lambda>e. NewReconcileError (rt_ref (rv_texts env) e) False ''ConnectionParameters'')
         (ApplyRefBindings bindings (br_InputModel res, GMap parameters, GMap ctx)))) (\<lambda>(inputModel, parameters', ctx').
       orReport env req (wrap_err (\<lambda>e. case e of
             ConditionPolicy n \<Rightarrow> NewReconcileError (''error on rendering: '' @ rt_package (rv_texts env) e) True ''ConditionError''
           | _ \<Rightarrow> NewReconcileError (''error on rendering: '' @ rt_package (rv_texts env) e) (rt_limit (rv_texts env) e) ''Rendering'')
         (Render (rv_engine env) (rv_dec env) (pc_Package pck)
            (mput ''Context'' (to_tdata ctx') (mput ''Parameters'' (to_tdata parameters') model)
              @ [(''Inputs'', to_tdata (GMap inputModel)),
                 (''InputLists'', DMap (map (\<lambda>(k, l). (k, DMaps (map (\<lambda>m. Some (map (\<lambda>(k, v). (k, to_tdata v)) m)) l))) (br_InputListModel res)))])
            (rr_release st0)))) st0"

section \<open>Roles, dependencies and conditions\<close>

definition storeRendered :: "Rendered \<Rightarrow> ('s, 't, 'g) rstate \<Rightarrow> ('s, 't, 'g) rstate" where
  "storeRendered rendered st0 =
     (let spec = rl_Spec (rr_release st0);
          st1 = track st_Usage sameMap st_Usage_update (re_Usage rendered) st0;
          st2 = track st_PrintDescription (=) st_PrintDescription_update
                  (if rs_Description spec = '''' then re_Description rendered else rs_Description spec) st1;
          roles = RemoveDuplicates (re_Roles rendered @ rs_Roles spec)
      in track st_Dependencies (=) st_Dependencies_update (RemoveDuplicates (re_Dependencies rendered @ rs_Dependencies spec))
           (track st_Roles (=) st_Roles_update roles (st2\<lparr>rr_opRoles := roles\<rparr>)))"

definition dependenciesOf :: "Rendered \<Rightarrow> Release \<Rightarrow> string list" where
  "dependenciesOf rendered release = RemoveDuplicates (re_Dependencies rendered @ rs_Dependencies (rl_Spec release))"

definition checkDependencies ::
  "('s, 't, 'g, 'env, 'ast, 'prog) rel_env \<Rightarrow> NamespacedName \<Rightarrow> string list \<Rightarrow> ('s, 't, 'g, unit) step" where
  "checkDependencies env req dependencies st =
     (let missing = MissingDependency (rv_config env) dependencies (rr_roles st)
      in if missing \<noteq> ''''
         then let message = ''Waiting for the role '' @ squote missing @ '' to be ready''
              in leave (waitAgain env req ReleasePhaseWaitDependencies message) (event ''Normal'' ''MissingDependency'' message st)
         else (Inr (), st))"

fun checkConditions ::
  "('s, 't, 'g, 'env, 'ast, 'prog) rel_env \<Rightarrow> NamespacedName \<Rightarrow> nat \<Rightarrow> ConditionRendered list \<Rightarrow> ('s, 't, 'g, unit) step" where
  "checkConditions env req idx [] st = (Inr (), st)"
| "checkConditions env req idx (c # rest) st =
     (case CheckConditionWithLimits (rv_cel env) (rv_sections env) (rv_times env idx) (rv_condition env) c
             (case rv_limits env of None \<Rightarrow> DefaultConditionLimits | Some l \<Rightarrow> l) of
        Inl e \<Rightarrow> leave (reportError env req (atPlace (''condition['' @ nat_digits idx @ '']'') e)) st
      | Inr (True, _) \<Rightarrow> checkConditions env req (Suc idx) rest st
      | Inr (False, m) \<Rightarrow>
          let message = ''Waiting for cond.#'' @ nat_digits (Suc idx) @ '': '' @ m
          in leave (waitAgain env req ReleasePhaseWaitConditions message) (event ''Normal'' ''UnsetCondition'' message st))"

section \<open>HelmReleases\<close>

definition moduleNames :: "('t, 'g) PckContainer \<Rightarrow> string list" where
  "moduleNames pck = map md_Name (List.map_filter id (pk_Modules (pc_Package pck)))"

definition pkgView :: "Release \<Rightarrow> ('t, 'g) PckContainer \<Rightarrow> Rendered \<Rightarrow> pkg_view" where
  "pkgView release pck rendered =
     \<lparr>pv_charts = (case pc_Status pck of None \<Rightarrow> [] | Some s \<Rightarrow> pst_ChartByModule s), pv_rendered = re_ModuleRenderedByName rendered,
      pv_helmRepositoryName = sourceName release,
      pv_byModule = foldl (\<lambda>m n. mput n (BuildHelmReleaseName (om_Name (rl_meta release)) n) m) [] (moduleNames pck)\<rparr>"

definition spawnHelmReleases ::
  "('s, 't, 'g, 'env, 'ast, 'prog) rel_env \<Rightarrow> NamespacedName \<Rightarrow> ('t, 'g) PckContainer \<Rightarrow> Rendered \<Rightarrow> ('s, 't, 'g, states) step" where
  "spawnHelmReleases env req pck rendered st =
     (let release = rr_release st
      in if rs_Suspended (rl_Spec release) then (Inr [], st)
         else (case handleHelmReleases (rv_hr env) release (pkgView release pck rendered) (moduleNames pck) ([], rr_world st) of
                 (r, states, w) \<Rightarrow> andThen (orReport env req r) (\<lambda>_. next_step states) (st\<lparr>rr_world := w\<rparr>)))"

text \<open>A suspended Release has a nil map of states, which differs from every map of a status.\<close>

definition storeStates :: "('s, 't, 'g, 'env, 'ast, 'prog) rel_env \<Rightarrow> states \<Rightarrow> ('s, 't, 'g) rstate \<Rightarrow> ('s, 't, 'g) rstate" where
  "storeStates env states st0 =
     (let suspended = rs_Suspended (rl_Spec (rr_release st0)); same = (\<lambda>a b. \<not> suspended \<and> sameMap a b);
          st1 = track st_ReadyReleases (=) st_ReadyReleases_update (fst (computeReadyHelmReleases states)) st0
      in if same states (st_HelmReleaseStates (rl_Status (rr_release st1))) then st1
         else foldl (\<lambda>st (k, v). if hs_Status v = '''' then st
                 else event (Ternary (hs_Ready v = ConditionTrue) ''Normal'' ''Warning'') (''HelmRelease:'' @ k) (hs_Status v) st)
                (track st_HelmReleaseStates same st_HelmReleaseStates_update states st1) states)"

definition helmMessage :: "states \<Rightarrow> string" where
  "helmMessage states =
     foldl (\<lambda>message (k, v). if hs_Ready v \<noteq> ConditionTrue \<and> message = ''''
              then let status = (if hs_Status v = '''' then ''Deploying...'' else hs_Status v)
                   in if k = ''noname'' then ''HelmRelease: '' @ status else ''HelmRelease '' @ k @ '': '' @ status
              else message) '''' states"

section \<open>Outputs, and the end\<close>

definition connectionMessage :: "string \<Rightarrow> (string \<times> ReleaseOutputConnection) list \<Rightarrow> string" where
  "connectionMessage unchecked byName =
     (let outputs = sort_key fst byName;
          message = foldl (\<lambda>m (k, v). if oc_Phase v \<noteq> ConnectionPhaseNone \<and> oc_Phase v \<noteq> ConnectionPhaseReady \<and> m = ''''
                             then ''Connection '' @ squote k @ '': '' @ oc_Message v else m) '''' outputs
      in foldl (\<lambda>m (k, v). if oc_Phase v = ConnectionPhaseNone \<and> m = '''' then ''Connection '' @ squote k @ '': '' @ unchecked else m) message outputs)"

definition storeOutputs :: "(string \<times> ReleaseOutputConnection) list \<Rightarrow> ('s, 't, 'g) rstate \<Rightarrow> ('s, 't, 'g) rstate" where
  "storeOutputs byName st0 =
     (let st1 = track st_ReadyOutputConnections (=) st_ReadyOutputConnections_update (fst (computeReadyConnection byName)) st0
      in if sameMap byName (st_OutputConnectionByName (rl_Status (rr_release st1))) then st1
         else foldl (\<lambda>st (k, v). if oc_Phase v = ConnectionPhaseNone then st
                 else event (Ternary (oc_Phase v = ConnectionPhaseReady) ''Normal'' ''Warning'') (''connection:'' @ k)
                        (if oc_Phase v = ConnectionPhaseReady then ''Connection '' @ squote k @ '' ready'' else oc_Message v) st)
                (track st_OutputConnectionByName sameMap st_OutputConnectionByName_update byName st1) byName)"

definition manageOutputs ::
  "('s, 't, 'g, 'env, 'ast, 'prog) rel_env \<Rightarrow> NamespacedName \<Rightarrow> Rendered \<Rightarrow> ('s, 't, 'g, out_state) step" where
  "manageOutputs env req rendered st =
     (case handleOutputs (rv_out env) (rr_release st) 0 (re_Outputs rendered)
             (\<lparr>op_byName = [], op_connections = [], op_clusterConnections = []\<rparr>, rr_world st) of
        (r, outs, w) \<Rightarrow> andThen (orReport env req r) (\<lambda>_. next_step outs) (st\<lparr>rr_world := w\<rparr>))"

text \<open>The orphans: a list that fails is reported, the failure of a deletion is only logged.\<close>

definition removeOrphans ::
  "('s, 't, 'g, 'env, 'ast, 'prog) rel_env \<Rightarrow> NamespacedName \<Rightarrow> out_state \<Rightarrow> ('s, 't, 'g, unit) step" where
  "removeOrphans env req outs st0 =
     (let key = meta_key (rl_meta (rr_release st0)); out = rv_out env
      in andThen (calling env req (\<lambda>w. apfst (wrap_err (\<lambda>e. NewReconcileError (''could not list its Connections: '' @ apiError (rv_sections env) e) False ''ConnectionAccess''))
             (FindOutputConnectionsFromRelease out key w))) (\<lambda>connections.
         andThen (modify (\<lambda>st. st\<lparr>rr_world := deleteOrphans (ou_connections out) (om_Name \<circ> cn_meta) (op_connections outs) connections (rr_world st)\<rparr>)) (\<lambda>_.
         andThen (calling env req (\<lambda>w. apfst (wrap_err (\<lambda>e. NewReconcileError (''could not list its ClusterConnections: '' @ apiError (rv_sections env) e) False
               ''ClusterConnectionAccess'')) (FindOutputClusterConnectionsFromRelease out key w))) (\<lambda>clusterConnections.
           modify (\<lambda>st. st\<lparr>rr_world := deleteOrphans (ou_clusterConnections out) (om_Name \<circ> kn_meta) (op_clusterConnections outs) clusterConnections
             (rr_world st)\<rparr>)))) st0)"

definition deploy ::
  "('s, 't, 'g, 'env, 'ast, 'prog) rel_env \<Rightarrow> NamespacedName \<Rightarrow> ('t, 'g) PckContainer \<Rightarrow> Rendered \<Rightarrow> ('s, 't, 'g) rstate \<Rightarrow> ctrl_result \<times> ('s, 't, 'g) rstate" where
  "deploy env req pck rendered st0 =
     (case spawnHelmReleases env req pck rendered st0 of
        (Inl r, st) \<Rightarrow> (r, st)
      | (Inr states, st) \<Rightarrow>
          let st1 = storeStates env states st; message = helmMessage (rv_order env states)
          in if rs_Suspended (rl_Spec (rr_release st1)) then updateStatus env req ReleasePhaseSuspended message st1
             else if \<not> snd (computeReadyHelmReleases states) then updateStatus env req ReleasePhaseWaitHelmReleases message st1
             else (case manageOutputs env req rendered st1 of
                     (Inl r, st2) \<Rightarrow> (r, st2)
                   | (Inr outs, st2) \<Rightarrow>
                       let st3 = storeOutputs (op_byName outs) st2;
                           message = (if message = '''' then connectionMessage (uncheckedConnection (rv_out env)) (op_byName outs) else message)
                       in if \<not> snd (computeReadyConnection (op_byName outs))
                          then updateStatus env req ReleasePhaseWaitOutputConnections message st3
                          else (case removeOrphans env req outs st3 of
                                  (Inl r, st4) \<Rightarrow> (r, st4)
                                | (Inr _, st4) \<Rightarrow> updateStatus env req ReleasePhaseReady '''' st4)))"

section \<open>The reconciliation\<close>

text \<open>From the sources to the rendering: the package, and what it renders to.\<close>

definition renderPackage :: "('s, 't, 'g, 'env, 'ast, 'prog) rel_env \<Rightarrow> NamespacedName \<Rightarrow> ('s, 't, 'g, ('t, 'g) PckContainer \<times> Rendered) step" where
  "renderPackage env req =
     andThen (ociSource env req) (\<lambda>art.
     andThen (fetchPackage env req art) (\<lambda>_.
     andThen (helmSource env req (ar_Revision art)) (\<lambda>_.
     andThen (thePackage env req (ar_Revision art)) (\<lambda>pck.
     andThen (modify (setProtected pck)) (\<lambda>_.
     andThen (theContext env req pck) (\<lambda>ctx.
     andThen (theParameters env req pck ctx) (\<lambda>parameters.
     andThen (model_step env req ctx parameters) (\<lambda>model.
     andThen (theInputs env req pck ctx parameters model) (\<lambda>(inputs, bindings).
     andThen (resolveInputs env req inputs) (\<lambda>res.
     andThen (renderAll env req pck ctx parameters model bindings res) (\<lambda>rendered.
       next_step (pck, rendered))))))))))))"

definition gate :: "('s, 't, 'g, 'env, 'ast, 'prog) rel_env \<Rightarrow> NamespacedName \<Rightarrow> Rendered \<Rightarrow> ('s, 't, 'g, unit) step" where
  "gate env req rendered =
     andThen (modify (storeRendered rendered)) (\<lambda>_.
     andThen (\<lambda>st. checkDependencies env req (dependenciesOf rendered (rr_release st)) st) (\<lambda>_.
       checkConditions env req 0 (re_Conditions rendered)))"

definition reconcile2 ::
  "('s, 't, 'g, 'env, 'ast, 'prog) rel_env \<Rightarrow> NamespacedName \<Rightarrow> ('s, 't, 'g) rstate \<Rightarrow> ctrl_result \<times> ('s, 't, 'g) rstate" where
  "reconcile2 env req st0 =
     (case onWorld (call (rv_Get env req)) st0 of
        (Inl e, st) \<Rightarrow> (if IsNotFound e then Ok 0 else Err (api_Error e), st)
      | (Inr release, st) \<Rightarrow>
          let st1 = st\<lparr>rr_release := release, rr_force := False, rr_opRoles := []\<rparr>
          in if om_DeletionTimestamp (rl_meta release) \<noteq> None then deleteRelease env req st1
             else if \<not> hasFinalizer release then addFinalizer env st1
             else (case andThen (renderPackage env req) (\<lambda>(pck, rendered). andThen (gate env req rendered) (\<lambda>_. next_step (pck, rendered)))
                          (st1\<lparr>rr_release := GroomRelease (rv_config env) release\<rparr>) of
                     (Inl r, st2) \<Rightarrow> (r, st2)
                   | (Inr (pck, rendered), st2) \<Rightarrow> deploy env req pck rendered st2))"

section \<open>What a step changes\<close>

text \<open>
  A step that goes on leaves the role store and the specification of the Release as they are; a step that ends the reconciliation withdraws the
  roles of the Release.
\<close>

definition stays :: "('s, 't, 'g) rstate \<Rightarrow> ('s, 't, 'g) rstate \<Rightarrow> bool" where
  "stays st st' \<longleftrightarrow> rr_roles st' = rr_roles st \<and> rr_opRoles st' = rr_opRoles st
     \<and> rl_Spec (rr_release st') = rl_Spec (rr_release st) \<and> rl_meta (rr_release st') = rl_meta (rr_release st)"

definition withdraws :: "NamespacedName \<Rightarrow> (('s, 't, 'g) rstate \<Rightarrow> ctrl_result \<times> ('s, 't, 'g) rstate) \<Rightarrow> bool" where
  "withdraws req m \<longleftrightarrow> (\<forall>st. rr_roles (snd (m st)) = UnRegisterRelease req (rr_roles st))"

definition waits :: "NamespacedName \<Rightarrow> ('s, 't, 'g, 'a) step \<Rightarrow> bool" where
  "waits req m \<longleftrightarrow> (\<forall>st. case m st of (Inl _, st') \<Rightarrow> rr_roles st' = UnRegisterRelease req (rr_roles st) | (Inr _, st') \<Rightarrow> stays st st')"

lemma stays_refl [simp]: "stays st st"
  by (simp add: stays_def)

lemma stays_trans: "stays st st1 \<Longrightarrow> stays st1 st2 \<Longrightarrow> stays st st2"
  by (simp add: stays_def)

lemma stays_event [simp]: "stays st (event k r m st)"
  by (simp add: stays_def event_def)

lemma stays_track [simp]: "stays st (track get same upd v st)"
  by (simp add: stays_def track_def)

lemma stays_world [simp]: "stays st (st\<lparr>rr_world := w\<rparr>)" "stays st (st\<lparr>rr_cache := c\<rparr>)"
  by (simp_all add: stays_def)

lemma onWorld_iff: "onWorld f st = (x, st') \<longleftrightarrow> (\<exists>w. f (rr_world st) = (x, w) \<and> st' = st\<lparr>rr_world := w\<rparr>)"
  by (auto simp: onWorld_def split: prod.splits)

lemma updateStatus_roles:
  "rr_roles (snd (updateStatus env req phase m st)) =
     (if phase = ReleasePhaseReady then RegisterRelease req (rr_opRoles st) (rr_roles st) else UnRegisterRelease req (rr_roles st))"
  by (auto simp: updateStatus_def Let_def onWorld_def split: prod.splits sum.splits)

named_theorems waiting

lemma updateStatus_withdraws [waiting]: "phase \<noteq> ReleasePhaseReady \<Longrightarrow> withdraws req (updateStatus env req phase m)"
  by (simp add: withdraws_def updateStatus_roles)

lemma reportError_withdraws [waiting]: "withdraws req (reportError env req e)"
  unfolding withdraws_def
proof
  fix st
  show "rr_roles (snd (reportError env req e st)) = UnRegisterRelease req (rr_roles st)"
    using updateStatus_roles [of env req ReleasePhaseError "re_error e" st]
    by (auto simp: reportError_def Let_def event_def split: prod.splits sum.splits)
qed

lemma waitAgain_withdraws [waiting]:
  assumes "phase \<noteq> ReleasePhaseReady"
  shows "withdraws req (waitAgain env req phase m)"
  unfolding withdraws_def
proof
  fix st
  show "rr_roles (snd (waitAgain env req phase m st)) = UnRegisterRelease req (rr_roles st)"
    using updateStatus_roles [of env req phase m st] assms by (auto simp: waitAgain_def split: prod.splits sum.splits)
qed

lemma waitsI:
  assumes "\<And>st x st'. m st = (Inl x, st') \<Longrightarrow> rr_roles st' = UnRegisterRelease req (rr_roles st)"
    and "\<And>st x st'. m st = (Inr x, st') \<Longrightarrow> stays st st'"
  shows "waits req m"
  unfolding waits_def using assms by (auto split: prod.splits sum.splits)

lemma waitsD:
  assumes "waits req m"
  shows "m st = (Inl x, st') \<Longrightarrow> rr_roles st' = UnRegisterRelease req (rr_roles st)"
    and "m st = (Inr y, st') \<Longrightarrow> stays st st'"
  using assms by (auto simp: waits_def dest: spec [of _ st])

lemma waits_leave [waiting]: "withdraws req m \<Longrightarrow> waits req (leave m)"
  by (rule waitsI) (auto simp: withdraws_def leave_def apfst_def map_prod_def split: prod.splits, metis snd_conv)

lemma leave_stops [simp]: "leave m st \<noteq> (Inr x, st')" "apfst Inl p \<noteq> (Inr x, st')"
  by (auto simp: leave_def apfst_def map_prod_def split: prod.splits)

lemma waits_next [waiting]: "waits req (next_step x)"
  by (simp add: waits_def next_step_def)

lemma waits_modify [waiting]: "(\<And>st. stays st (f st)) \<Longrightarrow> waits req (modify f)"
  by (simp add: waits_def modify_def)

lemma andThen_cases:
  assumes "andThen m f st = (r, st')"
  obtains (stops) x where "m st = (Inl x, st')" "r = Inl x" | (goes) y st1 where "m st = (Inr y, st1)" "f y st1 = (r, st')"
  using assms by (auto simp: andThen_def split: prod.splits sum.splits)

lemma waits_andThen [waiting]:
  assumes "waits req m" "\<And>x. waits req (f x)"
  shows "waits req (andThen m f)"
proof (rule waitsI)
  fix st x st'
  assume "andThen m f st = (Inl x, st')"
  then show "rr_roles st' = UnRegisterRelease req (rr_roles st)"
  proof (cases rule: andThen_cases)
    case stops
    then show ?thesis using waitsD(1) [OF assms(1)] by blast
  next
    case (goes y st1)
    then show ?thesis using waitsD(1) [OF assms(2) goes(2)] waitsD(2) [OF assms(1) goes(1)] by (simp add: stays_def)
  qed
next
  fix st y st'
  assume "andThen m f st = (Inr y, st')"
  then show "stays st st'"
    by (cases rule: andThen_cases) (use waitsD(2) [OF assms(1)] waitsD(2) [OF assms(2)] stays_trans in blast)+
qed

text \<open>A step that depends on the state it starts in, or that starts in another state.\<close>

lemma waits_state:
  assumes "\<And>s. waits req (g s)"
  shows "waits req (\<lambda>st. g st st)"
  using waitsD [OF assms] by (intro waitsI) blast+

lemma waits_from:
  assumes "\<And>s. waits req (g s)" "\<And>st. stays st (f st)"
  shows "waits req (\<lambda>st. g st (f st))"
proof (rule waitsI)
  fix st x st'
  assume "g st (f st) = (Inl x, st')"
  then show "rr_roles st' = UnRegisterRelease req (rr_roles st)" using waitsD(1) [OF assms(1)] assms(2) [of st] by (metis stays_def)
next
  fix st y st'
  assume "g st (f st) = (Inr y, st')"
  then show "stays st st'" using waitsD(2) [OF assms(1)] assms(2) [of st] stays_trans by blast
qed

lemma waits_orReport [waiting]: "waits req (orReport env req r)"
  by (cases r) (auto simp: orReport_def intro!: waiting)

lemma waits_calling [waiting]: "waits req (calling env req f)"
  using waits_from [of req "\<lambda>st. orReport env req (fst (f (rr_world st)))" "\<lambda>st. st\<lparr>rr_world := snd (f (rr_world st))\<rparr>", OF waits_orReport]
  by (simp add: calling_def [abs_def] onWorld_def case_prod_beta)

lemma waits_orWait [waiting]: "phase \<noteq> ReleasePhaseReady \<Longrightarrow> waits req (orWait env req phase hit)"
  by (cases hit) (auto simp: orWait_def intro!: waiting split: option.splits)

subsection \<open>The steps of the reconciliation\<close>

lemma handleOci_artifact: "handleOciRepository env release name w = (Inr (Some ob, m), w') \<Longrightarrow> fo_Artifact ob \<noteq> None"
  unfolding handleOciRepository_def
  by (auto split: prod.splits sum.splits if_splits option.splits dest: readySource_ready)

lemma waits_ociSource [waiting]: "waits req (ociSource env req)"
proof -
  let ?artifact = "\<lambda>ob. case fo_Artifact ob of None \<Rightarrow> leave (\<lambda>st. (Err ''panic: nil artifact'', st)) | Some art \<Rightarrow> next_step art"
  have "rr_roles st' = UnRegisterRelease req (rr_roles st)" if "ociSource env req st = (Inl x, st')" for st x st'
    using that unfolding ociSource_def
  proof (cases rule: andThen_cases)
    case stops
    then show ?thesis using waitsD(1) [OF waits_calling] by blast
  next
    case (goes y st1)
    from goes(2) show ?thesis
    proof (cases rule: andThen_cases)
      case stops
      then show ?thesis using waitsD(1) [OF waits_orWait stops(1)] waitsD(2) [OF waits_calling goes(1)] by (simp add: stays_def)
    next
      case (goes ob st2)
      obtain m where "y = (Some ob, m)" using goes(1)
        by (auto simp: orWait_def leave_def next_step_def split: prod.splits option.splits)
      moreover obtain w where "handleOciRepository (rv_oci env) (rr_release st) (sourceName (rr_release st)) (rr_world st) = (Inr y, w)"
        using \<open>calling env req _ st = (Inr y, st1)\<close>
        by (auto simp: calling_def onWorld_def orReport_def leave_def next_step_def split: prod.splits sum.splits)
      ultimately have "fo_Artifact ob \<noteq> None" using handleOci_artifact by blast
      then show ?thesis using goes(2) by (auto simp: next_step_def)
    qed
  qed
  moreover have "stays st st'" if "ociSource env req st = (Inr x, st')" for st x st'
    using that unfolding ociSource_def
  proof (cases rule: andThen_cases)
    case (goes y st1)
    from goes(2) show ?thesis
    proof (cases rule: andThen_cases)
      case (goes ob st2)
      have "st2 = st'" using goes(2) by (auto simp: next_step_def leave_def split: option.splits)
      then show ?thesis
        using waitsD(2) [OF waits_orWait goes(1)] waitsD(2) [OF waits_calling \<open>calling env req _ st = (Inr y, st1)\<close>] stays_trans by blast
    qed simp
  qed simp
  ultimately show ?thesis by (intro waitsI)
qed

lemma waits_helmSource [waiting]: "waits req (helmSource env req revision)"
  unfolding helmSource_def [abs_def] Let_def by (rule waits_state) (auto intro!: waiting)

lemma waits_fetchPackage [waiting]:
  fixes env :: "('s, 't, 'g, 'env, 'ast, 'prog) rel_env"
  shows "waits req (fetchPackage env req art)"
proof -
  have fetch: "waits req (\<lambda>st. case onWorld (call (rv_Fetch env art folder)) st of
            (Inr _, st1) \<Rightarrow> (Inr (), st1)
          | (Inl (limit, e), st1) \<Rightarrow>
              (case onWorld (call (rv_EnsureEmpty env folder)) st1 of (_, st2) \<Rightarrow>
                 leave (reportError env req (NewReconcileError (''unable to fetch artifact: '' @ e) limit ''OCIRepository'')) st2))" for folder
    by (rule waitsI)
      (auto simp: onWorld_def split: prod.splits sum.splits dest!: waitsD [OF waits_leave [OF reportError_withdraws]])
  define g where "g st0 = (let folder = repositoryFolder env (rr_release st0)
      in if fst (call (rv_ReadRevision env folder) (rr_world st0)) = ar_Revision art then next_step ()
         else andThen (calling env req (\<lambda>w. apfst (failed ''unable to clean helmRepoFolder: '' True ''LocalFS'') (call (rv_EnsureEmpty env folder) w))) (\<lambda>_.
              andThen (\<lambda>st. case onWorld (call (rv_Fetch env art folder)) st of
                  (Inr _, st1) \<Rightarrow> (Inr (), st1)
                | (Inl (limit, e), st1) \<Rightarrow>
                    (case onWorld (call (rv_EnsureEmpty env folder)) st1 of (_, st2) \<Rightarrow>
                       leave (reportError env req (NewReconcileError (''unable to fetch artifact: '' @ e) limit ''OCIRepository'')) st2)) (\<lambda>_.
                calling env req (\<lambda>w. apfst (wrap_err (\<lambda>_. NewReconcileError (''writing '' @ squote (folder @ ''/revision.txt'')) False ''LocalFS''))
                  (call (rv_WriteRevision env folder (ar_Revision art)) w)))))" for st0 :: "('s, 't, 'g) rstate"
  have eq: "fetchPackage env req art = (\<lambda>st0. g st0 (st0\<lparr>rr_world := snd (call (rv_ReadRevision env (repositoryFolder env (rr_release st0))) (rr_world st0))\<rparr>))"
    by (auto simp: fun_eq_iff fetchPackage_def g_def Let_def next_step_def onWorld_def split: prod.splits)
  have gw: "waits req (g st)" for st unfolding g_def Let_def by (auto intro!: waiting fetch)
  show ?thesis unfolding eq by (rule waits_from [of req g, OF gw]) simp
qed

lemma waits_loadedPackage [waiting]: "waits req (loadedPackage env req revision)"
  unfolding loadedPackage_def [abs_def] Let_def by (rule waits_state) (auto intro!: waiting split: prod.splits)

lemma waits_thePackage [waiting]: "waits req (thePackage env req revision)"
proof -
  obtain now now1 now2 where n: "rv_now env = (now, now1, now2)" by (cases "rv_now env")
  obtain v v' where v: "rv_versions env = (v, v')" by (cases "rv_versions env")
  let ?key = "packageKey revision v"
  let ?g = "\<lambda>st0. case fst (Cache.Get now ?key (rr_cache st0)) of
      Some container \<Rightarrow> next_step container
    | None \<Rightarrow> andThen (loadedPackage env req revision) (\<lambda>(container, weight).
        andThen (modify (\<lambda>st. if v' = v then (case Cache.Set (now1, now2) ?key container weight (rr_cache st) of
                                                None \<Rightarrow> st | Some cache2 \<Rightarrow> st\<lparr>rr_cache := cache2\<rparr>) else st)) (\<lambda>_. next_step container))"
  have eq: "thePackage env req revision = (\<lambda>st0. ?g st0 (st0\<lparr>rr_cache := snd (Cache.Get now ?key (rr_cache st0))\<rparr>))"
    by (auto simp: fun_eq_iff thePackage_def n v Let_def next_step_def split: prod.splits option.splits)
  have gw: "waits req (?g st)" for st by (auto intro!: waiting split: prod.splits option.splits)
  show ?thesis unfolding eq by (rule waits_from [of req ?g, OF gw]) simp
qed

lemma stays_setProtected [simp]: "stays st (setProtected pck st)"
  unfolding setProtected_def Let_def by (rule stays_trans; rule stays_track)

lemma waits_dumped [waiting]: "waits req (dumped env req wanted get upd what reason v)"
  by (rule waitsI) (auto simp: dumped_def split: option.splits if_splits dest: waitsD(1) [OF waits_leave [OF reportError_withdraws]])

lemma waits_theContext [waiting]: "waits req (theContext env req pck)"
  unfolding theContext_def [abs_def] by (rule waits_state) (auto intro!: waiting split: prod.splits)

lemma waits_theParameters [waiting]: "waits req (theParameters env req pck ctx)"
  unfolding theParameters_def [abs_def] by (rule waits_state) (auto intro!: waiting)

lemma waits_model_step [waiting]: "waits req (model_step env req ctx parameters)"
  unfolding model_step_def [abs_def] by (rule waits_state) (rule waiting)

lemma waits_theInputs [waiting]: "waits req (theInputs env req pck ctx parameters model)"
  unfolding theInputs_def [abs_def] Let_def by (rule waits_state) (auto intro!: waiting split: prod.splits)

lemma stays_events: "stays st (foldl (\<lambda>st x. event (k x) (r x) (m x) st) st xs)"
  by (induction xs rule: rev_induct) (auto intro: stays_trans)

lemma waits_resolveInputs [waiting]: "waits req (resolveInputs env req inputs)"
proof (cases "BuildInputModel (rv_bim env) inputs")
  case (Pair e res)
  show ?thesis
  proof (cases e)
    case (Some x)
    then show ?thesis using Pair waiting by (auto simp: resolveInputs_def [abs_def] intro!: waiting)
  next
    case None
    let ?st = "\<lambda>st0. track st_EffectiveInputConnections (=) st_EffectiveInputConnections_update
        (map (\<lambda>r. case r of None \<Rightarrow> zero_ref | Some c \<Rightarrow> c) (br_Effective res))
        (track st_WatchedInputConnections (=) st_WatchedInputConnections_update (br_Watched res) st0)"
    have t: "stays st (?st st)" for st by (rule stays_trans; rule stays_track)
    show ?thesis
    proof (cases "br_Messages res = []")
      case True
      then show ?thesis using None Pair t by (auto simp: resolveInputs_def [abs_def] waits_def)
    next
      case False
      have eq: "resolveInputs env req inputs = (\<lambda>st0. leave (waitAgain env req ReleasePhaseWaitInputConnections (Join '' - '' (br_Messages res)))
          (foldl (\<lambda>st m. event ''Warning'' ''MissingConnections'' m st) (?st st0) (br_Messages res)))"
        using None Pair False by (simp add: resolveInputs_def [abs_def] Let_def)
      show ?thesis
        unfolding eq by (rule waits_from [where g = "\<lambda>_. leave _"]) (rule waiting | rule stays_trans [OF t stays_events] | simp)+
    qed
  qed
qed

lemma waits_renderAll [waiting]: "waits req (renderAll env req pck ctx parameters model bindings res)"
  unfolding renderAll_def [abs_def] by (rule waits_state) (auto intro!: waiting split: prod.splits)

lemma waits_renderPackage [waiting]: "waits req (renderPackage env req)"
  unfolding renderPackage_def by (auto intro!: waiting split: prod.splits)

lemma leave_event:
  assumes "leave m (event k r t st) = (x, st')" "withdraws req m"
  shows "rr_roles st' = UnRegisterRelease req (rr_roles st)"
proof -
  have "st' = snd (m (event k r t st))" using assms(1) by (cases "m (event k r t st)") (auto simp: leave_def)
  then show ?thesis using assms(2) by (simp add: withdraws_def event_def)
qed

lemma stays_from_world [simp]: "stays (st\<lparr>rr_world := w\<rparr>) st' \<longleftrightarrow> stays st st'"
  by (simp add: stays_def)

lemma stays_foldl:
  assumes "\<And>st x. stays st (f st x)"
  shows "stays s (foldl f s xs)"
  by (induction xs arbitrary: s) (auto intro: stays_trans [OF assms])

lemma storeRendered_stores:
  "rr_roles (storeRendered rendered st) = rr_roles st" "rl_Spec (rr_release (storeRendered rendered st)) = rl_Spec (rr_release st)"
  "rl_meta (rr_release (storeRendered rendered st)) = rl_meta (rr_release st)"
  "rr_opRoles (storeRendered rendered st) = RemoveDuplicates (re_Roles rendered @ rs_Roles (rl_Spec (rr_release st)))"
  by (simp_all add: storeRendered_def Let_def track_def)

lemma checkDependencies_goes: "checkDependencies env req ds st = (Inr u, st') \<Longrightarrow> MissingDependency (rv_config env) ds (rr_roles st) = '''' \<and> st' = st"
  by (auto simp: checkDependencies_def Let_def split: if_splits)

lemma waits_checkDependencies [waiting]: "waits req (checkDependencies env req ds)"
proof (rule waitsI)
  fix st x st'
  assume c: "checkDependencies env req ds st = (Inl x, st')"
  let ?t = "''Waiting for the role '' @ squote (MissingDependency (rv_config env) ds (rr_roles st)) @ '' to be ready''"
  have "leave (waitAgain env req ReleasePhaseWaitDependencies ?t) (event ''Normal'' ''MissingDependency'' ?t st) = (Inl x :: _ + unit, st')"
    using c unfolding checkDependencies_def Let_def
    by (cases "MissingDependency (rv_config env) ds (rr_roles st) = ''''") (simp_all only: if_True if_False simp_thms prod.inject sum.distinct)
  then show "rr_roles st' = UnRegisterRelease req (rr_roles st)" by (rule leave_event) (rule waitAgain_withdraws, simp)
qed (auto dest: checkDependencies_goes)

lemma waits_checkConditions [waiting]: "waits req (checkConditions env req idx cs)"
proof (induction cs arbitrary: idx)
  case Nil
  then show ?case by (simp add: waits_def)
next
  case (Cons c cs)
  let ?chk = "CheckConditionWithLimits (rv_cel env) (rv_sections env) (rv_times env idx) (rv_condition env) c
      (case rv_limits env of None \<Rightarrow> DefaultConditionLimits | Some l \<Rightarrow> l)"
  consider (err) e where "?chk = Inl e" | (yes) m where "?chk = Inr (True, m)" | (no) m where "?chk = Inr (False, m)"
  proof (cases ?chk)
    case (Inr p)
    then show ?thesis using that(2,3) by (cases p; cases "fst p") auto
  qed (rule that(1))
  then show ?case
  proof cases
    case err
    then show ?thesis by (auto intro!: waitsI dest: waitsD [OF waits_leave [OF reportError_withdraws]])
  next
    case yes
    then show ?thesis by (auto intro!: waitsI dest: waitsD [OF Cons.IH])
  next
    case no
    let ?t = "''Waiting for cond.#'' @ nat_digits (Suc idx) @ '': '' @ m"
    have e: "checkConditions env req idx (c # cs) st = leave (waitAgain env req ReleasePhaseWaitConditions ?t) (event ''Normal'' ''UnsetCondition'' ?t st)" for st
      unfolding checkConditions.simps no sum.case prod.case bool.case Let_def ..
    have w: "withdraws req (waitAgain env req ReleasePhaseWaitConditions ?t)" by (rule waitAgain_withdraws) simp
    show ?thesis
    proof (rule waitsI)
      fix st x st'
      assume "checkConditions env req idx (c # cs) st = (Inl x, st')"
      then show "rr_roles st' = UnRegisterRelease req (rr_roles st)" unfolding e by (rule leave_event [OF _ w])
    next
      fix st x st'
      assume "checkConditions env req idx (c # cs) st = (Inr x, st')"
      then show "stays st st'" unfolding e by (simp only: leave_stops)
    qed
  qed
qed

lemma waits_spawnHelmReleases [waiting]: "waits req (spawnHelmReleases env req pck rendered)"
proof -
  have w: "waits req (andThen (orReport env req r) (\<lambda>_. next_step states))" for r :: "(ReconcileError, unit) result" and states :: states
    by (auto intro!: waiting)
  show ?thesis
  proof (rule waitsI)
    fix st x st'
    assume "spawnHelmReleases env req pck rendered st = (Inl x, st')"
    then show "rr_roles st' = UnRegisterRelease req (rr_roles st)"
      by (auto simp: spawnHelmReleases_def Let_def split: if_splits prod.splits dest!: waitsD(1) [OF w])
  next
    fix st y st'
    assume "spawnHelmReleases env req pck rendered st = (Inr y, st')"
    then show "stays st st'"
      by (auto simp: spawnHelmReleases_def Let_def split: if_splits prod.splits dest: waitsD(2) [OF w])
  qed
qed

lemma waits_manageOutputs [waiting]: "waits req (manageOutputs env req rendered)"
proof -
  have w: "waits req (andThen (orReport env req r) (\<lambda>_. next_step outs))" for r :: "(ReconcileError, unit) result" and outs :: out_state
    by (auto intro!: waiting)
  show ?thesis
  proof (rule waitsI)
    fix st x st'
    assume "manageOutputs env req rendered st = (Inl x, st')"
    then show "rr_roles st' = UnRegisterRelease req (rr_roles st)"
      by (auto simp: manageOutputs_def split: prod.splits dest!: waitsD(1) [OF w])
  next
    fix st y st'
    assume "manageOutputs env req rendered st = (Inr y, st')"
    then show "stays st st'"
      by (auto simp: manageOutputs_def split: prod.splits dest: waitsD(2) [OF w])
  qed
qed

lemma waits_removeOrphans [waiting]: "waits req (removeOrphans env req outs)"
  unfolding removeOrphans_def [abs_def] Let_def by (rule waits_state) (auto intro!: waiting)

lemma stays_storeStates [simp]: "stays st (storeStates env states st)"
proof -
  have f: "stays s (foldl (\<lambda>st (k, v). if hs_Status v = '''' then st
      else event (Ternary (hs_Ready v = ConditionTrue) ''Normal'' ''Warning'') (''HelmRelease:'' @ k) (hs_Status v) st) s xs)" for s :: "('a, 'b, 'c) rstate" and xs
    by (rule stays_foldl) (auto split: prod.splits)
  show ?thesis unfolding storeStates_def Let_def by (auto intro: stays_trans [OF stays_track] stays_trans [OF stays_track f])
qed

lemma stays_storeOutputs [simp]: "stays st (storeOutputs byName st)"
proof -
  have f: "stays s (foldl (\<lambda>st (k, v). if oc_Phase v = ConnectionPhaseNone then st
      else event (Ternary (oc_Phase v = ConnectionPhaseReady) ''Normal'' ''Warning'') (''connection:'' @ k)
        (if oc_Phase v = ConnectionPhaseReady then ''Connection '' @ squote k @ '' ready'' else oc_Message v) st) s xs)" for s :: "('a, 'b, 'c) rstate" and xs
    by (rule stays_foldl) (auto split: prod.splits)
  show ?thesis unfolding storeOutputs_def Let_def by (auto intro: stays_trans [OF stays_track] stays_trans [OF stays_track f])
qed

lemma gate_result:
  assumes "gate env req rendered st = (r, st')"
  shows "case r of
      Inl _ \<Rightarrow> rr_roles st' = UnRegisterRelease req (rr_roles st)
    | Inr _ \<Rightarrow> rr_roles st' = rr_roles st \<and> rl_Spec (rr_release st') = rl_Spec (rr_release st) \<and> rl_meta (rr_release st') = rl_meta (rr_release st)
        \<and> rr_opRoles st' = RemoveDuplicates (re_Roles rendered @ rs_Roles (rl_Spec (rr_release st)))
        \<and> MissingDependency (rv_config env) (dependenciesOf rendered (rr_release st)) (rr_roles st) = ''''"
proof -
  let ?st = "storeRendered rendered st"
  have d: "dependenciesOf rendered (rr_release ?st) = dependenciesOf rendered (rr_release st)"
    by (simp add: dependenciesOf_def storeRendered_stores)
  have g: "andThen (\<lambda>st. checkDependencies env req (dependenciesOf rendered (rr_release st)) st) (\<lambda>_. checkConditions env req 0 (re_Conditions rendered)) ?st = (r, st')"
    using assms unfolding gate_def by (simp add: andThen_def [of "modify _"] modify_def)
  then show ?thesis
  proof (cases rule: andThen_cases)
    case (stops x)
    then show ?thesis using waitsD(1) [OF waits_checkDependencies stops(1)] by (simp add: storeRendered_stores)
  next
    case (goes u st1)
    have m: "MissingDependency (rv_config env) (dependenciesOf rendered (rr_release st)) (rr_roles st) = ''''" "st1 = ?st"
      using checkDependencies_goes [OF goes(1)] by (simp_all add: d storeRendered_stores)
    show ?thesis
      using waitsD [OF waits_checkConditions, of env req 0 "re_Conditions rendered" st1] goes(2) m
      by (auto simp: storeRendered_stores stays_def split: sum.splits)
  qed
qed

text \<open>
  The Release is deployed: it is not suspended, every HelmRelease of its enabled modules was handled and is ready, and then every output was handled
  and is READY.
\<close>

definition deployed :: "('s, 't, 'g, 'env, 'ast, 'prog) rel_env \<Rightarrow> Release \<Rightarrow> ('t, 'g) PckContainer \<Rightarrow> Rendered \<Rightarrow> bool" where
  "deployed env release pck rendered \<longleftrightarrow> \<not> rs_Suspended (rl_Spec release)
     \<and> (\<exists>w states w1. handleHelmReleases (rv_hr env) release (pkgView release pck rendered) (moduleNames pck) ([], w) = (Ok (), states, w1)
          \<and> (\<forall>p\<in>set states. hs_Ready (snd p) = ConditionTrue))
     \<and> (\<exists>release' w outs w1. rl_meta release' = rl_meta release
          \<and> handleOutputs (rv_out env) release' 0 (re_Outputs rendered) (\<lparr>op_byName = [], op_connections = [], op_clusterConnections = []\<rparr>, w) = (Ok (), outs, w1)
          \<and> (\<forall>p\<in>set (op_byName outs). oc_Phase (snd p) = ConnectionPhaseReady))"

lemma orReport_goes: "andThen (orReport env req r) (\<lambda>_. next_step x) st = (Inr y, st') \<Longrightarrow> (\<exists>u. r = Inr u) \<and> y = x \<and> st' = st"
  by (auto simp: andThen_def orReport_def next_step_def split: prod.splits sum.splits)

lemma spawn_goes:
  assumes "spawnHelmReleases env req pck rendered st = (Inr states, st')" "\<not> rs_Suspended (rl_Spec (rr_release st))"
  shows "\<exists>w. handleHelmReleases (rv_hr env) (rr_release st) (pkgView (rr_release st) pck rendered) (moduleNames pck) ([], rr_world st) = (Ok (), states, w)"
  using assms orReport_goes by (fastforce simp: spawnHelmReleases_def Let_def split: prod.splits)

lemma manage_goes:
  assumes "manageOutputs env req rendered st = (Inr outs, st')"
  shows "\<exists>w. handleOutputs (rv_out env) (rr_release st) 0 (re_Outputs rendered) (\<lparr>op_byName = [], op_connections = [], op_clusterConnections = []\<rparr>, rr_world st)
    = (Ok (), outs, w)"
  using assms orReport_goes by (fastforce simp: manageOutputs_def split: prod.splits)

lemma updateStatus_result:
  assumes "updateStatus env req phase m st = (r, st')"
  shows "phase \<noteq> ReleasePhaseReady \<Longrightarrow> rr_roles st' = UnRegisterRelease req (rr_roles st)"
    and "phase = ReleasePhaseReady \<Longrightarrow> rr_roles st' = RegisterRelease req (rr_opRoles st) (rr_roles st)"
  using updateStatus_roles [of env req phase m st] assms by simp_all

lemma deploy_result:
  assumes "deploy env req pck rendered st = (r, st')"
  shows "rr_roles st' = UnRegisterRelease req (rr_roles st)
    \<or> (rr_roles st' = RegisterRelease req (rr_opRoles st) (rr_roles st) \<and> deployed env (rr_release st) pck rendered)"
proof -
  obtain x st1 where h: "spawnHelmReleases env req pck rendered st = (x, st1)" by fastforce
  show ?thesis
  proof (cases x)
    case (Inl y)
    then show ?thesis using assms h waitsD(1) [OF waits_spawnHelmReleases h [unfolded Inl]] by (auto simp: deploy_def)
  next
    case (Inr states)
    define st2 where "st2 = storeStates env states st1"
    have s2: "stays st st2" unfolding st2_def by (rule stays_trans [OF waitsD(2) [OF waits_spawnHelmReleases h [unfolded Inr]] stays_storeStates])
    define msg where "msg = helmMessage (rv_order env states)"
    note d = assms [unfolded deploy_def h Inr prod.case sum.case Let_def, folded st2_def msg_def]
    show ?thesis
    proof (cases "rs_Suspended (rl_Spec (rr_release st2)) \<or> \<not> snd (computeReadyHelmReleases states)")
      case True
      then show ?thesis using d s2 updateStatus_result(1) by (fastforce simp: stays_def split: if_split_asm)
    next
      case ready: False
      obtain y st3 where m: "manageOutputs env req rendered st2 = (y, st3)" by fastforce
      show ?thesis
      proof (cases y)
        case (Inl z)
        then show ?thesis using d ready m waitsD(1) [OF waits_manageOutputs m [unfolded Inl]] s2 by (auto simp: stays_def)
      next
        case outs: (Inr outs)
        define st4 where "st4 = storeOutputs (op_byName outs) st3"
        have s4: "stays st st4"
          using waitsD(2) [OF waits_manageOutputs m [unfolded outs]] s2 stays_trans stays_storeOutputs unfolding st4_def by blast
        show ?thesis
        proof (cases "snd (computeReadyConnection (op_byName outs))")
          case False
          then show ?thesis
            using d ready m outs s4 updateStatus_result(1) [of env req ReleasePhaseWaitOutputConnections] by (auto simp: st4_def [symmetric] stays_def)
        next
          case allReady: True
          obtain u st5 where o: "removeOrphans env req outs st4 = (u, st5)" by fastforce
          show ?thesis
          proof (cases u)
            case (Inl z)
            then show ?thesis using d ready m outs allReady o s4 waitsD(1) [OF waits_removeOrphans o [unfolded Inl]] by (auto simp: st4_def [symmetric] stays_def)
          next
            case (Inr z)
            have s5: "stays st st5" using waitsD(2) [OF waits_removeOrphans o [unfolded Inr]] s4 stays_trans by blast
            have "updateStatus env req ReleasePhaseReady '''' st5 = (r, st')"
              using d ready m outs allReady o Inr by (simp add: st4_def [symmetric])
            then have "rr_roles st' = RegisterRelease req (rr_opRoles st) (rr_roles st)"
              using s5 updateStatus_roles [of env req ReleasePhaseReady "''''" st5] by (simp add: stays_def)
            moreover have "deployed env (rr_release st) pck rendered"
              using ready s2 spawn_goes [OF h [unfolded \<open>x = Inr states\<close>]] manage_goes [OF m [unfolded outs]] computeReady_iff [of states]
                computeReadyConnection_iff [of "op_byName outs"] allReady unfolding deployed_def stays_def by metis
            ultimately show ?thesis by blast
          qed
        qed
      qed
    qed
  qed
qed

section \<open>The specification of the role store\<close>

text \<open>
  What a controller of Releases may do with the roles: leave them when it cannot read the Release or has only claimed it, withdraw those of the
  Release that it reconciles, or provide them, for a Release that is not suspended and whose dependencies are all provided by then. An empty name in the
  dependencies voids that guarantee, as \<open>MissingDependency\<close> answers with the name that is missing.
\<close>

type_synonym registry = "string \<Rightarrow> string set"

inductive registry_step :: "(string \<Rightarrow> bool) \<Rightarrow> NamespacedName \<Rightarrow> Release option \<Rightarrow> registry \<Rightarrow> registry \<Rightarrow> bool" for cluster req where
  unread: "registry_step cluster req None A A"
| deleting: "om_DeletionTimestamp (rl_meta release) \<noteq> None \<Longrightarrow> registry_step cluster req (Some release) A (A(key_String req := {}))"
| claiming: "om_DeletionTimestamp (rl_meta release) = None \<Longrightarrow> \<not> hasFinalizer release \<Longrightarrow> registry_step cluster req (Some release) A A"
| holding: "om_DeletionTimestamp (rl_meta release) = None \<Longrightarrow> hasFinalizer release \<Longrightarrow> registry_step cluster req (Some release) A (A(key_String req := {}))"
| providing: "om_DeletionTimestamp (rl_meta release) = None \<Longrightarrow> hasFinalizer release \<Longrightarrow> \<not> rs_Suspended (rl_Spec release)
    \<Longrightarrow> set (rs_Roles (rl_Spec release)) \<subseteq> R \<Longrightarrow> set (rs_Dependencies (rl_Spec release)) \<subseteq> D
    \<Longrightarrow> '''' \<in> D \<or> (\<forall>d\<in>D. cluster d \<or> (\<exists>n. d \<in> A n)) \<Longrightarrow> registry_step cluster req (Some release) A (A(key_String req := R))"

inductive registry_run :: "((string \<Rightarrow> bool) \<times> NamespacedName \<times> Release option) list \<Rightarrow> registry \<Rightarrow> registry \<Rightarrow> bool" where
  run_nil: "registry_run [] A A"
| run_cons: "registry_step cluster req release A B \<Longrightarrow> registry_run steps B C \<Longrightarrow> registry_run ((cluster, req, release) # steps) A C"

inductive_simps registry_run_simps: "registry_run [] A B" "registry_run (s # steps) A B"

text \<open>The Release that a reconciliation reads; a sequence of reconciliations, and what they read.\<close>

definition read_release :: "('s, 't, 'g, 'env, 'ast, 'prog) rel_env \<Rightarrow> NamespacedName \<Rightarrow> ('s, 't, 'g) rstate \<Rightarrow> Release option" where
  "read_release env req st = (case fst (onWorld (call (rv_Get env req)) st) of Inl _ \<Rightarrow> None | Inr release \<Rightarrow> Some release)"

fun reconcile_all :: "(('s, 't, 'g, 'env, 'ast, 'prog) rel_env \<times> NamespacedName) list \<Rightarrow> ('s, 't, 'g) rstate \<Rightarrow> ('s, 't, 'g) rstate" where
  "reconcile_all [] st = st"
| "reconcile_all ((env, req) # calls) st = reconcile_all calls (snd (reconcile2 env req st))"

fun reads :: "(('s, 't, 'g, 'env, 'ast, 'prog) rel_env \<times> NamespacedName) list \<Rightarrow> ('s, 't, 'g) rstate
    \<Rightarrow> ((string \<Rightarrow> bool) \<times> NamespacedName \<times> Release option) list" where
  "reads [] st = []"
| "reads ((env, req) # calls) st = (IsClusterRole (rv_config env), req, read_release env req st) # reads calls (snd (reconcile2 env req st))"

lemma groomed_spec:
  "rs_Roles (rl_Spec (GroomRelease cfg release)) = rs_Roles (rl_Spec release)"
  "rs_Dependencies (rl_Spec (GroomRelease cfg release)) = rs_Dependencies (rl_Spec release)"
  "rs_Suspended (rl_Spec (GroomRelease cfg release)) = rs_Suspended (rl_Spec release)"
  "rl_meta (GroomRelease cfg release) = rl_meta release"
  by (simp_all add: GroomRelease_def Let_def)

text \<open>What a reconciliation does to the role store.\<close>

definition role_outcome :: "('s, 't, 'g, 'env, 'ast, 'prog) rel_env \<Rightarrow> NamespacedName \<Rightarrow> Release option \<Rightarrow> roleStore \<Rightarrow> roleStore \<Rightarrow> bool" where
  "role_outcome env req read roles roles' \<longleftrightarrow>
     (case read of
        None \<Rightarrow> roles' = roles
      | Some release \<Rightarrow>
          if om_DeletionTimestamp (rl_meta release) \<noteq> None then roles' = UnRegisterRelease req roles
          else if \<not> hasFinalizer release then roles' = roles
          else roles' = UnRegisterRelease req roles
            \<or> (\<exists>release' pck rendered. rl_Spec release' = rl_Spec (GroomRelease (rv_config env) release) \<and> rl_meta release' = rl_meta release
                 \<and> roles' = RegisterRelease req (RemoveDuplicates (re_Roles rendered @ rs_Roles (rl_Spec release))) roles
                 \<and> MissingDependency (rv_config env) (dependenciesOf rendered release) roles = '''' \<and> deployed env release' pck rendered))"

lemma reconcile_roles:
  assumes "reconcile2 env req st = (r, st')"
  shows "role_outcome env req (read_release env req st) (rr_roles st) (rr_roles st')"
proof -
  obtain x st0 where g: "onWorld (call (rv_Get env req)) st = (x, st0)" by fastforce
  have r0: "rr_roles st0 = rr_roles st" using g by (auto simp: onWorld_iff)
  show ?thesis
  proof (cases x)
    case (Inl e)
    then show ?thesis using assms g r0 by (auto simp: reconcile2_def read_release_def role_outcome_def)
  next
    case (Inr release)
    define st1 where "st1 = st0\<lparr>rr_release := release, rr_force := False, rr_opRoles := []\<rparr>"
    note d = assms [unfolded reconcile2_def g Inr prod.case sum.case Let_def, folded st1_def]
    have read: "read_release env req st = Some release" using g Inr by (simp add: read_release_def)
    have r1: "rr_roles st1 = rr_roles st" using r0 by (simp add: st1_def)
    consider (del) "om_DeletionTimestamp (rl_meta release) \<noteq> None"
      | (claim) "om_DeletionTimestamp (rl_meta release) = None" "\<not> hasFinalizer release"
      | (live) "om_DeletionTimestamp (rl_meta release) = None" "hasFinalizer release" by blast
    then show ?thesis
    proof cases
      case del
      then have "deleteRelease env req st1 = (r, st')" using d by simp
      then have "rr_roles st' = UnRegisterRelease req (rr_roles st)"
        using r1 by (auto simp: deleteRelease_def Let_def onWorld_def split: if_split_asm prod.splits sum.splits)
      then show ?thesis using del read by (simp add: role_outcome_def)
    next
      case claim
      then have "addFinalizer env st1 = (r, st')" using d by simp
      then have "rr_roles st' = rr_roles st" using r1 by (auto simp: addFinalizer_def onWorld_def split: prod.splits sum.splits)
      then show ?thesis using claim read by (simp add: role_outcome_def)
    next
      case live
      define st2 where "st2 = st1\<lparr>rr_release := GroomRelease (rv_config env) release\<rparr>"
      have r2: "rr_roles st2 = rr_roles st" using r1 by (simp add: st2_def)
      obtain y st3 where p: "andThen (renderPackage env req) (\<lambda>(pck, rendered). andThen (gate env req rendered) (\<lambda>_. next_step (pck, rendered))) st2 = (y, st3)"
        by fastforce
      have d2: "(case y of Inl r \<Rightarrow> (r, st3) | Inr (pck, rendered) \<Rightarrow> deploy env req pck rendered st3) = (r, st')"
        using d live p by (simp add: st2_def [symmetric] split: sum.splits prod.splits)
      have goal: "role_outcome env req (read_release env req st) (rr_roles st) (rr_roles st')" if "rr_roles st' = UnRegisterRelease req (rr_roles st)"
        using that live read by (simp add: role_outcome_def)
      from p show ?thesis
      proof (cases rule: andThen_cases)
        case (stops z)
        then show ?thesis using d2 r2 goal waitsD(1) [OF waits_renderPackage stops(1)] by simp
      next
        case (goes z st4)
        obtain pck rendered where z: "z = (pck, rendered)" by fastforce
        have s4: "stays st2 st4" using waitsD(2) [OF waits_renderPackage goes(1)] .
        from goes(2) [unfolded z prod.case] show ?thesis
        proof (cases rule: andThen_cases)
          case (stops z)
          then show ?thesis using d2 r2 s4 goal gate_result [OF stops(1)] by (simp add: stays_def)
        next
          case (goes u st5)
          have y: "y = Inr (pck, rendered)" "st3 = st5" using goes(2) by (auto simp: next_step_def)
          have st5: "rr_roles st5 = rr_roles st" "rl_Spec (rr_release st5) = rl_Spec (GroomRelease (rv_config env) release)" "rl_meta (rr_release st5) = rl_meta release"
              "rr_opRoles st5 = RemoveDuplicates (re_Roles rendered @ rs_Roles (rl_Spec release))"
              "MissingDependency (rv_config env) (dependenciesOf rendered release) (rr_roles st) = ''''"
            using gate_result [OF goes(1)] s4 r2 by (simp_all add: stays_def st2_def groomed_spec dependenciesOf_def)
          show ?thesis
            using deploy_result [of env req pck rendered st5 r st'] d2 y st5 goal live read unfolding role_outcome_def by auto
        qed
      qed
    qed
  qed
qed

lemma set_RemoveDuplicates: "set (RemoveDuplicates xs) = set xs"
  by (simp add: RemoveDuplicates_def)

lemma roles_of_outcomes:
  assumes "wf_map roles"
  shows "roles_of (RegisterRelease req rs roles) = (roles_of roles)(key_String req := set rs)"
    and "roles_of (UnRegisterRelease req roles) = (roles_of roles)(key_String req := {})"
    and "wf_map (RegisterRelease req rs roles)" "wf_map (UnRegisterRelease req roles)"
  using rs.register_provided [OF assms] rs.unregister_provided [OF assms] rs.register_good [OF assms] rs.unregister_good [OF assms]
  by (auto simp: RegisterRelease_def UnRegisterRelease_def fun_eq_iff)

lemma provided_dependencies:
  assumes "wf_map roles" "MissingDependency cfg (dependenciesOf rendered release) roles = ''''"
  shows "'''' \<in> set (dependenciesOf rendered release) \<or> (\<forall>d\<in>set (dependenciesOf rendered release). IsClusterRole cfg d \<or> (\<exists>n. d \<in> roles_of roles n))"
  using rs.missing_iff [OF assms(1), of "dependenciesOf rendered release" cfg] assms(2) by blast

lemma outcome_step:
  assumes "role_outcome env req read roles roles'" "wf_map roles"
  shows "registry_step (IsClusterRole (rv_config env)) req read (roles_of roles) (roles_of roles') \<and> wf_map roles'"
proof (cases read)
  case None
  then show ?thesis using assms by (simp add: role_outcome_def unread)
next
  case (Some release)
  note o = roles_of_outcomes [OF assms(2), of req]
  consider (del) "om_DeletionTimestamp (rl_meta release) \<noteq> None" "roles' = UnRegisterRelease req roles"
    | (claim) "om_DeletionTimestamp (rl_meta release) = None" "\<not> hasFinalizer release" "roles' = roles"
    | (hold) "om_DeletionTimestamp (rl_meta release) = None" "hasFinalizer release" "roles' = UnRegisterRelease req roles"
    | (give) release' pck rendered where "om_DeletionTimestamp (rl_meta release) = None" "hasFinalizer release"
        "roles' = RegisterRelease req (RemoveDuplicates (re_Roles rendered @ rs_Roles (rl_Spec release))) roles"
        "MissingDependency (rv_config env) (dependenciesOf rendered release) roles = ''''"
        "rl_Spec release' = rl_Spec (GroomRelease (rv_config env) release)" "deployed env release' pck rendered"
    using assms(1) unfolding Some role_outcome_def option.case by meson
  then show ?thesis
  proof cases
    case del
    then show ?thesis using o Some deleting [of release] by simp
  next
    case claim
    then show ?thesis using assms(2) Some claiming by simp
  next
    case hold
    then show ?thesis using o Some holding [of release] by simp
  next
    case give
    have "\<not> rs_Suspended (rl_Spec release)" using give(5,6) by (simp add: deployed_def groomed_spec)
    then have "registry_step (IsClusterRole (rv_config env)) req (Some release) (roles_of roles)
        ((roles_of roles)(key_String req := set (RemoveDuplicates (re_Roles rendered @ rs_Roles (rl_Spec release)))))"
      by (intro providing [OF give(1,2) _ _ _ provided_dependencies [OF assms(2) give(4)]]) (auto simp: set_RemoveDuplicates dependenciesOf_def)
    then show ?thesis using o Some give(3) by simp
  qed
qed

lemma runs_refine:
  "wf_map (rr_roles st) \<Longrightarrow> registry_run (reads calls st) (roles_of (rr_roles st)) (roles_of (rr_roles (reconcile_all calls st)))"
proof (induction calls st rule: reconcile_all.induct)
  case (1 st)
  then show ?case by (simp add: registry_run_simps)
next
  case (2 env req calls st)
  have "role_outcome env req (read_release env req st) (rr_roles st) (rr_roles (snd (reconcile2 env req st)))"
    by (rule reconcile_roles [of _ _ _ "fst (reconcile2 env req st)"]) simp
  from outcome_step [OF this 2(2)] show ?case using 2(1) by (auto simp: registry_run_simps)
qed

section \<open>Properties\<close>




text \<open>A Release under deletion, with one ClusterConnection. The parts of the environment that its reconciliation does not read are left open.\<close>

definition dying_release :: Release where
  "dying_release = owner_release\<lparr>rl_meta := (new_meta ''n'' ''r'')\<lparr>om_DeletionTimestamp := Some 1, om_Finalizers := [FinalizerName]\<rparr>\<rparr>"

definition dying_env :: "(out_server, string, gmap, unit, unit, unit) rel_env" where
  "dying_env = undefined\<lparr>rv_Get := (\<lambda>_ s. (Ok dying_release, s)), rv_Update := (\<lambda>_ s. (Ok (), s)), rv_Remove := (\<lambda>_ s. (Ok (), s)),
     rv_out := sample_out_env, rv_ServerRoot := ''/data''\<rparr>"

definition dying_state :: "(out_server, string, gmap) rstate" where
  "dying_state = \<lparr>rr_world = out_world [] [child_of ''r''], rr_roles = [], rr_failures = [], rr_cache = NewCache 1 1 1 0, rr_release = dying_release,
     rr_force = False, rr_opRoles = []\<rparr>"

lemma dying_fields [simp]:
  "rv_Get dying_env = (\<lambda>_ s. (Ok dying_release, s))" "rv_Update dying_env = (\<lambda>_ s. (Ok (), s))" "rv_Remove dying_env = (\<lambda>_ s. (Ok (), s))"
  "rv_out dying_env = sample_out_env" "rr_world dying_state = out_world [] [child_of ''r'']"
  by (simp_all add: dying_env_def dying_state_def)


section \<open>The message of the HelmReleases\<close>

text \<open>
  The loop that sets the message in every reconciliation, for idempotency, visits a Go map, whose order is not defined: with two modules that are not
  ready, the message depends on the order, and with it whether the status is written again.
\<close>

lemma helmMessage_order: "helmMessage [(''a'', \<lparr>hs_Ready = ConditionFalse, hs_Status = ''x''\<rparr>), (''b'', \<lparr>hs_Ready = ConditionFalse, hs_Status = ''y''\<rparr>)]
   \<noteq> helmMessage [(''b'', \<lparr>hs_Ready = ConditionFalse, hs_Status = ''y''\<rparr>), (''a'', \<lparr>hs_Ready = ConditionFalse, hs_Status = ''x''\<rparr>)]"
  by (simp add: helmMessage_def)

end
