(* ===== verification/Webhooks.thy ===== *)
theory Webhooks
  imports ReleaseController
begin

text \<open>
  \<open>internal/webhook/v1alpha1\<close>: the admission of requests. Creations and updates are admitted; the deletion of a protected Release or Context is refused. The
  protection of a Release is in its specification or in the status that the Release controller writes.
\<close>

definition ValidateCreate :: "'o \<Rightarrow> (string, unit) result" where
  "ValidateCreate obj = Ok ()"

definition ValidateUpdate :: "'o \<Rightarrow> 'o \<Rightarrow> (string, unit) result" where
  "ValidateUpdate oldObj obj = Ok ()"

definition Release_ValidateDelete :: "Release \<Rightarrow> (string, unit) result" where
  "Release_ValidateDelete release =
     (let name = om_Name (rl_meta release)
      in case rs_Protected (rl_Spec release) of
           Some protected \<Rightarrow> if protected then Err (''release '' @ name @ '' is protected'') else Ok ()
         | None \<Rightarrow>
             if st_PrintProtected (rl_Status release) = ''''
             then Err (''release '' @ name @ '' may be protected by its package, and the controller has not computed its protection yet: set spec.protected to false to delete it anyway'')
             else if st_Protected (rl_Status release) then Err (''release '' @ name @ '' is protected'') else Ok ())"

definition Context_ValidateDelete :: "Context \<Rightarrow> (string, unit) result" where
  "Context_ValidateDelete kcontext =
     (if xs_Protected (cx_Spec kcontext) then Err (''context '' @ om_Name (cx_meta kcontext) @ '' is protected'') else Ok ())"

text \<open>
  With the status that the controller writes, a deletion is admitted exactly when neither the specification nor, where it says nothing, the package protects the
  Release; with no status of the protection, only a specification that allows it admits the deletion.
\<close>

lemma deletion_of_reconciled:
  "ok (Release_ValidateDelete (rr_release (setProtected pck st)))
   \<longleftrightarrow> \<not> (case rs_Protected (rl_Spec (rr_release st)) of None \<Rightarrow> pk_Protected (pc_Package pck) | Some b \<Rightarrow> b)"
  by (auto simp: Release_ValidateDelete_def setProtected_def track_def Ternary_def ok_def Let_def split: option.splits)

lemma deletion_before_status:
  "st_PrintProtected (rl_Status release) = '''' \<Longrightarrow> ok (Release_ValidateDelete release) \<longleftrightarrow> rs_Protected (rl_Spec release) = Some False"
  by (auto simp: Release_ValidateDelete_def ok_def Let_def split: option.splits)

end
