(* ===== verification/Spec2Isabelle.thy ===== *)
theory Spec2Isabelle
  imports Prelude Values Cache Api ConfigStore RoleStore K8s ReplicationController ContextController Schema Tmpl Package ParamRefs InputModel Connections Children Sources RetainedSpec HelmReleases Outputs Conditions Parameters Words TmplFunctions Archive ReleaseController Webhooks
begin

text \<open>
  KuboCD deploys packages on Kubernetes. A \<^emph>\<open>Release\<close> names a package, an OCI artifact whose manifest lists Helm modules, templates, a schema of parameters,
  inputs and outputs. The controllers of KuboCD reconcile the Release with the cluster: they have Flux fetch the package, compute the context and the parameters of
  the Release, find the connections that the package takes as inputs, create one HelmRelease for each module, publish the connections that the package puts out, and
  register the roles that the Release provides, which other Releases depend on. Smaller controllers validate contracts and connections, merge Contexts, publish
  the configuration and replicate Secrets and ConfigMaps.

  \<^bold>\<open>Conventions.\<close> A Go function that returns an error is a function into a sum, \<open>Err\<close> on the left, and its early returns are branches; \<open>rbind\<close> and \<open>rfold\<close> of
  \<open>Prelude\<close> are \<open>if err != nil\<close> and the loop around it. A struct is a record, an enumeration a datatype, a pointer an option, a Go map an association list with
  distinct keys (\<open>wf_map\<close>), an iteration order over a map an argument where the result may depend on it. Integers that may wrap around are words of 64 bits. A
  controller passes its state, the status it is writing and the cluster, from step to step. What is not in the repository is a parameter: the client of the API
  server (records of functions over an abstract state of the cluster, so that every request may fail and other actors are not excluded), \<open>text/template\<close>, the
  YAML and JSON codecs, the JSON schema validator, CEL, the disk and the fetch of packages, the clock. What a theorem needs of a parameter is a hypothesis or the
  \<open>assumes\<close> of a locale, and the locale is interpreted on an executable instance.

  \<^bold>\<open>Data and stores.\<close>
  \<^item> \<open>Values\<close> (\<open>internal/misc\<close>): trees of \<open>interface{}\<close> values, their merge, pruning and copy, names and image references. The merge is characterised
    by the value it leaves at every path; image references are decoded to what they were built from.
  \<^item> \<open>Api\<close> (\<open>api/v1alpha1\<close>): the resources as records, and the common face of the namespaced and the cluster kinds.
  \<^item> \<open>Cache\<close> (\<open>internal/cache\<close>): bounded in entries and weight, with expiry. \<open>evict\<close> is a loop (\<open>partial_function\<close>); it is proved to return, within both caps. The
    locale \<open>lossy_cache\<close> says what a caller may rely on.
  \<^item> \<open>ConfigStore\<close> (\<open>internal/configstore\<close>): the configuration built from all Configs, in name order whatever the order of the list, and its version numbers (locale
    \<open>numbered_store\<close>).
  \<^item> \<open>RoleStore\<close> (\<open>internal/rolestore\<close>): the roles of the ready Releases (locale \<open>role_registry\<close>, the specification that the Release controller refines).

  \<^item> \<open>Archive\<close> (\<open>internal/archiveio\<close>): what is read of a compressed archive, counted against limits on 64-bit integers (\<open>Words\<close>). Reading metadata ends on every input
    and takes at most one byte beyond the limit.

  \<^bold>\<open>Packages and templates.\<close>
  \<^item> \<open>Schema\<close> (\<open>internal/kuboschema\<close>): the conversion to OpenAPI yields a schema of the accepted form, its defaults, and the declared connection references.
  \<^item> \<open>Tmpl\<close> (\<open>internal/tmpl\<close>, \<open>misc/yamlkeys.go\<close>): templates around an abstract engine: headers, the size limit, the place and category of an error, keys of YAML maps.
  \<^item> \<open>TmplFunctions\<close> (\<open>tmpl/functions.go\<close>, \<open>size_bound.go\<close>): the functions given to templates. Sequences are exact on machine integers; redirects apply as configured.
  \<^item> \<open>Package\<close> (\<open>internal/kubopackage\<close>): validation, rendering, and reports that disclose no data.

  \<^bold>\<open>The cluster and the smaller controllers.\<close>
  \<^item> \<open>K8s\<close> (\<open>controller/common.go\<close>): errors of requests and how they are reported; the locale \<open>api_server\<close> of a client, interpreted on a server in memory.
  \<^item> \<open>ReplicationController\<close>: copies of a Secret or ConfigMap; it never writes over an object of another owner, and a reconciliation that succeeds leaves the copies in step.
  \<^item> \<open>ContextController\<close>: parents of Contexts, the search for cycles (\<open>walk\<close>, proved to return on finitely many Contexts), the context of a Release.
  \<^item> \<open>Connections\<close>: the controllers of Contracts, ClusterContracts, Connections, ClusterConnections and Configs (locale \<open>status_store\<close>).

  \<^bold>\<open>The Release controller.\<close>
  \<^item> \<open>Parameters\<close> (\<open>release_parameters.go\<close>, \<open>release_helpers.go\<close>): the text of the parameters with the actions as written, the model of the templates, defaults and validation.
  \<^item> \<open>ParamRefs\<close> and \<open>InputModel\<close> (\<open>release_paramrefs.go\<close>, \<open>release_buildinputmodel.go\<close>): the references in the parameters become inputs; inputs are looked up, elected by priority
    (locale \<open>elected_sort\<close>), gated, and substituted.
  \<^item> \<open>Children\<close>: what the owned objects share, with the locales \<open>kube_kind\<close> and \<open>kube_delete\<close> of a kind of object on a server where others act too, interpreted
    on a versioned store. \<open>Sources\<close> (OCIRepository, HelmRepository), \<open>HelmReleases\<close> with \<open>RetainedSpec\<close> (what an existing specification keeps) and \<open>Outputs\<close> (Connections,
    ClusterConnections) rest on them for their frame theorems: objects of others stay as they are.
  \<^item> \<open>Conditions\<close> (\<open>release_conditions.go\<close>, \<open>condition_limits.go\<close>): the objects that a package waits for.
  \<^item> \<open>ReleaseController\<close> (\<open>release_controller.go\<close>): the whole reconciliation out of the components above. Any sequence of reconciliations refines the registry of
    roles; roles are registered only by a reconciliation that went through every step; the finalizer is removed after everything the Release owns.
  \<^item> \<open>Webhooks\<close> (\<open>internal/webhook\<close>): the deletions that are admitted, with the protection that the Release controller writes in the status.

  \<^bold>\<open>Loops and bounds.\<close> Loops over data are structural recursion, or \<open>function\<close> with a measure. Only \<open>evict\<close>, \<open>walk\<close>, and \<open>readLoop\<close> and \<open>drain\<close> of \<open>Archive\<close> may fail to return as they are written; each
  has a theorem that it does, the last two on a reader that keeps its contract, within the limits. There is no fuel. The bounds of the program (4 MiB of rendered text, 10000 items of a sequence, the caps of the cache and of conditions) are kept as constants or arguments.

  \<^bold>\<open>Not modelled.\<close> Logs and events; the generated deep copies; the start of the manager, its watches and indexes (\<open>cmd/kubocd/cmd\<close>), though what an index selects is an argument of the
  code that lists by it; the command line tools; HTTP, files, the formats of archives; \<open>tmpl/format.go\<close>, which bounds \<open>printf\<close> by reflection; template functions that only call
  a library. A nil slice and an empty one are not told apart, but where the code does. Text of errors is kept where the code decides on it or where a theorem is about what it discloses.
\<close>

end
